(* ===== verification/Prelude.thy ===== *)
theory Prelude
  imports Complex_Main "HOL-Library.AList" "HOL-Library.Char_ord" "HOL-Library.List_Lexorder"
    "HOL-Library.Code_Target_Nat"
begin

text \<open>
  Shared ground of the development: the Python values and containers the program uses.
  \<^item> Strings are lists of code points up to 255 (Latin-1); the character classes
    \<^verbatim>\<open>isspace\<close>, \<^verbatim>\<open>isdigit\<close>, \<^verbatim>\<open>islower\<close>, \<^verbatim>\<open>isupper\<close> and the case mapping follow
    Python on that range.
  \<^item> A \<^verbatim>\<open>dict\<close> is an association list in insertion order with the update of
    \<^theory_text>\<open>HOL-Library.AList\<close>: assigning an existing key keeps its position.
  \<^item> A \<^verbatim>\<open>float\<close> is an exact rational (IEEE rounding is not modelled); the non-finite
    values JSON can carry are a separate constructor.
  \<^item> An exception is the left side of a sum, and a JSON file on disk is
    \<^theory_text>\<open>Absent\<close>, \<^theory_text>\<open>Unreadable\<close> or \<^theory_text>\<open>Content\<close>.
\<close>

named_theorems dict_simps \<open>rewriting dictionary lookups through updates and deletions\<close>
named_theorems str_simps \<open>rewriting the Python string functions\<close>

section \<open>Exceptions and files\<close>

datatype py_error =
    ValueError string
  | KeyError string
  | TypeError string
  | AttributeError string
  | JSONDecodeError
  | OverflowError string

type_synonym 'a result = "py_error + 'a"

datatype 'a json_file = Absent | Unreadable | Content 'a

definition bind_result :: "'e + 'a \<Rightarrow> ('a \<Rightarrow> 'e + 'b) \<Rightarrow> 'e + 'b" where
  "bind_result r f = (case r of Inl e \<Rightarrow> Inl e | Inr x \<Rightarrow> f x)"

lemma bind_result_simps [simp]:
  "bind_result (Inl e) f = Inl e" "bind_result (Inr x) f = f x"
  by (simp_all add: bind_result_def)

lemma bind_result_Inr_iff:
  "bind_result r f = Inr y \<longleftrightarrow> (\<exists>x. r = Inr x \<and> f x = Inr y)"
  by (cases r) auto

section \<open>JSON values\<close>

datatype nonfinite = NaN | PosInf | NegInf

datatype json =
    JNull
  | JBool bool
  | JInt int
  | JFloat rat
  | JNonFinite nonfinite
  | JStr string
  | JList "json list"
  | JObj "(string \<times> json) list"

fun truthy :: "json \<Rightarrow> bool" where
  "truthy JNull = False"
| "truthy (JBool b) = b"
| "truthy (JInt i) = (i \<noteq> 0)"
| "truthy (JFloat r) = (r \<noteq> 0)"
| "truthy (JNonFinite _) = True"
| "truthy (JStr s) = (s \<noteq> [])"
| "truthy (JList xs) = (xs \<noteq> [])"
| "truthy (JObj d) = (d \<noteq> [])"

text \<open>The value of a finite \<^verbatim>\<open>int\<close> or \<^verbatim>\<open>float\<close> that is not a \<^verbatim>\<open>bool\<close>.\<close>

fun json_number :: "json \<Rightarrow> rat option" where
  "json_number (JInt i) = Some (of_int i)"
| "json_number (JFloat r) = Some r"
| "json_number _ = None"

section \<open>Dictionaries\<close>

type_synonym ('k, 'v) dict = "('k \<times> 'v) list"

abbreviation dict_lookup :: "('k, 'v) dict \<Rightarrow> 'k \<Rightarrow> 'v option" where
  "dict_lookup \<equiv> map_of"

definition dict_get :: "('k, 'v) dict \<Rightarrow> 'k \<Rightarrow> 'v \<Rightarrow> 'v" where
  "dict_get d k dflt = (case map_of d k of None \<Rightarrow> dflt | Some v \<Rightarrow> v)"

definition dict_has :: "('k, 'v) dict \<Rightarrow> 'k \<Rightarrow> bool" where
  "dict_has d k \<longleftrightarrow> map_of d k \<noteq> None"

definition dict_set :: "'k \<Rightarrow> 'v \<Rightarrow> ('k, 'v) dict \<Rightarrow> ('k, 'v) dict" where
  "dict_set = AList.update"

definition dict_del :: "'k \<Rightarrow> ('k, 'v) dict \<Rightarrow> ('k, 'v) dict" where
  "dict_del = AList.delete"

definition dict_setdefault :: "'k \<Rightarrow> 'v \<Rightarrow> ('k, 'v) dict \<Rightarrow> ('k, 'v) dict" where
  "dict_setdefault k v d = (if dict_has d k then d else d @ [(k, v)])"

definition dict_keys :: "('k, 'v) dict \<Rightarrow> 'k list" where
  "dict_keys d = map fst d"

definition dict_values :: "('k, 'v) dict \<Rightarrow> 'v list" where
  "dict_values d = map snd d"

abbreviation wf_dict :: "('k, 'v) dict \<Rightarrow> bool" where
  "wf_dict d \<equiv> distinct (map fst d)"

lemma dict_lookup_set [simp, dict_simps]:
  "map_of (dict_set k v d) j = (if j = k then Some v else map_of d j)"
  by (simp add: dict_set_def update_conv')

lemma dict_get_set [simp, dict_simps]:
  "dict_get (dict_set k v d) j z = (if j = k then v else dict_get d j z)"
  by (simp add: dict_get_def)

lemma dict_lookup_del [simp, dict_simps]:
  "map_of (dict_del k d) j = (if j = k then None else map_of d j)"
  by (simp add: dict_del_def delete_conv')

lemma dict_get_del [simp, dict_simps]: "dict_get (dict_del k d) j dflt = (if j = k then dflt else dict_get d j dflt)"
  by (simp add: dict_get_def)

lemma dict_lookup_setdefault [simp, dict_simps]:
  "map_of (dict_setdefault k v d) j =
     (if j = k \<and> map_of d k = None then Some v else map_of d j)"
  by (auto simp: dict_setdefault_def dict_has_def map_add_def split: option.splits)

lemma dict_has_lookup [simp]: "dict_has d k \<longleftrightarrow> map_of d k \<noteq> None"
  by (simp add: dict_has_def)

lemma dict_has_iff: "dict_has d k \<longleftrightarrow> k \<in> fst ` set d"
  by (simp add: map_of_eq_None_iff)

lemma dict_keys_set [simp, dict_simps]: "fst ` set (dict_set k v d) = insert k (fst ` set d)"
  unfolding dict_set_def by (induction d) auto

lemma dict_keys_del [simp, dict_simps]: "fst ` set (dict_del k d) = fst ` set d - {k}"
  unfolding dict_del_def by (induction d) auto

lemma wf_dict_set [simp, dict_simps]: "wf_dict d \<Longrightarrow> wf_dict (dict_set k v d)"
  by (simp add: dict_set_def distinct_update)

lemma wf_dict_del [simp, dict_simps]: "wf_dict d \<Longrightarrow> wf_dict (dict_del k d)"
  by (simp add: dict_del_def distinct_delete)

lemma wf_dict_setdefault [simp, dict_simps]:
  "wf_dict d \<Longrightarrow> wf_dict (dict_setdefault k v d)"
  by (auto simp: dict_setdefault_def map_of_eq_None_iff)

lemma dict_keys_setdefault [simp, dict_simps]:
  "fst ` set (dict_setdefault k v d) = insert k (fst ` set d)"
  by (auto simp: dict_setdefault_def dest!: map_of_SomeD intro: rev_image_eqI)

lemma length_dict_set:
  "length (dict_set k v d) = (if k \<in> fst ` set d then length d else Suc (length d))"
  unfolding dict_set_def by (induction d) auto

lemma dict_set_fresh: "k \<notin> fst ` set d \<Longrightarrow> dict_set k v d = d @ [(k, v)]"
  unfolding dict_set_def by (induction d) auto

lemma dict_lookup_values:
  "wf_dict d \<Longrightarrow> v \<in> set (dict_values d) \<longleftrightarrow> (\<exists>k. map_of d k = Some v)"
  unfolding dict_values_def by force

text \<open>\<^verbatim>\<open>e.update(d)\<close>, and \<^verbatim>\<open>{**e, **d}\<close>.\<close>

definition dict_update :: "('k, 'v) dict \<Rightarrow> ('k, 'v) dict \<Rightarrow> ('k, 'v) dict" where
  "dict_update e d = fold (\<lambda>(k, v). dict_set k v) d e"

lemma dict_lookup_update [dict_simps]:
  "map_of (dict_update e d) j = (case map_of (rev d) j of None \<Rightarrow> map_of e j | Some v \<Rightarrow> Some v)"
  unfolding dict_update_def
  by (induction d arbitrary: e) (auto simp: map_add_def split: option.splits)

lemma wf_dict_update [simp, dict_simps]: "wf_dict e \<Longrightarrow> wf_dict (dict_update e d)"
  unfolding dict_update_def by (induction d arbitrary: e) auto

abbreviation map_values :: "('v \<Rightarrow> 'w) \<Rightarrow> ('k, 'v) dict \<Rightarrow> ('k, 'w) dict" where
  "map_values f \<equiv> map (\<lambda>(k, v). (k, f v))"

lemma dict_set_map_values: "dict_set k (f v) (map_values f d) = map_values f (dict_set k v d)"
  unfolding dict_set_def by (induction d) auto

lemma dict_update_map_values:
  "dict_update (map_values f e) (map_values f d) = map_values f (dict_update e d)"
  unfolding dict_update_def
  by (induction d arbitrary: e) (auto simp: dict_set_map_values)

lemma map_of_map_values: "map_of (map_values f d) k = map_option f (map_of d k)"
  by (induction d) auto

lemma map_of_rev: "wf_dict d \<Longrightarrow> map_of (rev d) = map_of d"
  by (subst map_of_inject_set) (auto simp: rev_map [symmetric])

lemma filter_key_lookup:
  "map_of (filter (\<lambda>(k, v). P k) d) j = (if P j then map_of d j else None)"
  by (induction d) auto

lemma wf_filter: "wf_dict d \<Longrightarrow> wf_dict (filter P d)"
  by (induction d) auto

lemma find_append: "find P (xs @ ys) = (case find P xs of None \<Rightarrow> find P ys | Some x \<Rightarrow> Some x)"
  by (induction xs) auto

lemma filter_same_length: "length (filter P xs) = length xs \<longleftrightarrow> (\<forall>x \<in> set xs. P x)"
  by (metis filter_True length_filter_less order_less_irrefl)

section \<open>Rounding\<close>

text \<open>\<^verbatim>\<open>round\<close> rounds a tie to the even neighbour; \<^verbatim>\<open>round(x, 1)\<close> does so at the first
  decimal.\<close>

definition round_half_even :: "rat \<Rightarrow> int" where
  "round_half_even x =
     (let f = \<lfloor>x\<rfloor>; d = x - of_int f in
      if d < 1 / 2 then f else if d > 1 / 2 then f + 1 else if even f then f else f + 1)"

definition round_tenth :: "rat \<Rightarrow> rat" where
  "round_tenth x = of_int (round_half_even (x * 10)) / 10"

lemma round_half_even_close: "\<bar>of_int (round_half_even x) - x\<bar> \<le> 1 / 2"
proof -
  have "of_int \<lfloor>x\<rfloor> \<le> x" "x < of_int \<lfloor>x\<rfloor> + 1" by linarith+
  then show ?thesis
    by (simp add: round_half_even_def Let_def abs_le_iff)
qed

lemma round_tenth_close: "\<bar>round_tenth x - x\<bar> \<le> 1 / 20"
  using round_half_even_close [of "x * 10"] by (simp add: round_tenth_def abs_le_iff field_simps)

lemma round_half_even_mono: "x \<le> y \<Longrightarrow> round_half_even x \<le> round_half_even y"
  unfolding round_half_even_def Let_def
proof -
  assume le: "x \<le> y"
  then have f: "\<lfloor>x\<rfloor> \<le> \<lfloor>y\<rfloor>" by (rule floor_mono)
  show "(if x - of_int \<lfloor>x\<rfloor> < 1 / 2 then \<lfloor>x\<rfloor> else if x - of_int \<lfloor>x\<rfloor> > 1 / 2 then \<lfloor>x\<rfloor> + 1
      else if even \<lfloor>x\<rfloor> then \<lfloor>x\<rfloor> else \<lfloor>x\<rfloor> + 1)
    \<le> (if y - of_int \<lfloor>y\<rfloor> < 1 / 2 then \<lfloor>y\<rfloor> else if y - of_int \<lfloor>y\<rfloor> > 1 / 2 then \<lfloor>y\<rfloor> + 1
      else if even \<lfloor>y\<rfloor> then \<lfloor>y\<rfloor> else \<lfloor>y\<rfloor> + 1)"
  proof (cases "\<lfloor>x\<rfloor> = \<lfloor>y\<rfloor>")
    case False
    with f show ?thesis by auto
  qed (use le in auto)
qed

lemma round_tenth_mono: "x \<le> y \<Longrightarrow> round_tenth x \<le> round_tenth y"
  by (simp add: round_tenth_def round_half_even_mono divide_right_mono)

text \<open>\<^verbatim>\<open>x or d\<close> and \<^verbatim>\<open>d.get(k, default)\<close> on an optional field.\<close>

definition or_default :: "'a \<Rightarrow> 'a option \<Rightarrow> 'a" where
  "or_default d x = (case x of None \<Rightarrow> d | Some v \<Rightarrow> v)"

lemma or_default_simps [simp]: "or_default d None = d" "or_default d (Some v) = v"
  by (simp_all add: or_default_def)

definition readable :: "'a json_file \<Rightarrow> bool" where
  "readable f \<longleftrightarrow> f \<noteq> Unreadable"

end
