(* ===== verification/Stores.thy ===== *)
theory Stores
  imports Prelude
begin

text \<open>
  The two interfaces the program's keyed stores share. \<open>upsert_store\<close> is a store whose
  write always succeeds (user accounts, settings, the collector's snapshot table);
  \<open>crud_store\<close> is a store with the create / update / delete contract of the admin
  pages: create refuses an existing key, update and delete refuse a missing one, and no
  operation touches another key. Each provider theory interprets the locale on its own
  model.
\<close>

section \<open>Stores whose write always succeeds\<close>

locale upsert_store =
  fixes get :: "'s \<Rightarrow> 'k \<Rightarrow> 'v option"
    and put :: "'k \<Rightarrow> 'v \<Rightarrow> 's \<Rightarrow> 's"
    and wf :: "'s \<Rightarrow> bool"
  assumes get_put: "wf s \<Longrightarrow> get (put k v s) j = (if j = k then Some v else get s j)"
    and wf_put: "wf s \<Longrightarrow> wf (put k v s)"
begin

lemma wf_puts: "wf s \<Longrightarrow> wf (fold (\<lambda>(k, v). put k v) kvs s)"
  by (induction kvs arbitrary: s) (auto simp: wf_put)

text \<open>The last write of a key wins, and a key that is never written keeps its value.\<close>

lemma get_puts:
  "wf s \<Longrightarrow> get (fold (\<lambda>(k, v). put k v) kvs s) j =
     (case map_of (rev kvs) j of None \<Rightarrow> get s j | Some v \<Rightarrow> Some v)"
proof (induction kvs arbitrary: s)
  case (Cons kv kvs)
  obtain k v where kv: "kv = (k, v)" by (cases kv)
  with Cons show ?case
    by (auto simp: wf_put get_put map_add_def split: option.splits)
qed simp

lemma get_put_same: "wf s \<Longrightarrow> get (put k v s) k = Some v"
  by (simp add: get_put)

end

section \<open>Stores with create, update and delete\<close>

datatype ('k, 'a) crud_op = Add 'k 'a | Upd 'k 'a | Del 'k

fun op_key :: "('k, 'a) crud_op \<Rightarrow> 'k" where
  "op_key (Add k _) = k"
| "op_key (Upd k _) = k"
| "op_key (Del k) = k"

text \<open>One request against a store; a refused request leaves the store as it was.\<close>

fun crud_step ::
  "('k \<Rightarrow> 'a \<Rightarrow> 's \<Rightarrow> 's option) \<Rightarrow> ('k \<Rightarrow> 'a \<Rightarrow> 's \<Rightarrow> 's option) \<Rightarrow> ('k \<Rightarrow> 's \<Rightarrow> 's option)
   \<Rightarrow> ('k, 'a) crud_op \<Rightarrow> 's \<Rightarrow> 's" where
  "crud_step add upd del (Add k a) s = (case add k a s of None \<Rightarrow> s | Some t \<Rightarrow> t)"
| "crud_step add upd del (Upd k a) s = (case upd k a s of None \<Rightarrow> s | Some t \<Rightarrow> t)"
| "crud_step add upd del (Del k) s = (case del k s of None \<Rightarrow> s | Some t \<Rightarrow> t)"

locale crud_store =
  fixes valid :: "'k \<Rightarrow> bool"
    and wf :: "'s \<Rightarrow> bool"
    and get :: "'s \<Rightarrow> 'k \<Rightarrow> 'v option"
    and add :: "'k \<Rightarrow> 'a \<Rightarrow> 's \<Rightarrow> 's option"
    and upd :: "'k \<Rightarrow> 'a \<Rightarrow> 's \<Rightarrow> 's option"
    and del :: "'k \<Rightarrow> 's \<Rightarrow> 's option"
    and new :: "'k \<Rightarrow> 'a \<Rightarrow> 'v"
    and merge :: "'k \<Rightarrow> 'a \<Rightarrow> 'v \<Rightarrow> 'v"
  assumes add_refuses: "valid k \<Longrightarrow> wf s \<Longrightarrow> add k a s = None \<longleftrightarrow> get s k \<noteq> None"
    and add_wf: "valid k \<Longrightarrow> wf s \<Longrightarrow> add k a s = Some t \<Longrightarrow> wf t"
    and add_get: "valid k \<Longrightarrow> wf s \<Longrightarrow> add k a s = Some t \<Longrightarrow>
      get t j = (if j = k then Some (new k a) else get s j)"
    and upd_refuses: "valid k \<Longrightarrow> wf s \<Longrightarrow> upd k a s = None \<longleftrightarrow> get s k = None"
    and upd_wf: "valid k \<Longrightarrow> wf s \<Longrightarrow> upd k a s = Some t \<Longrightarrow> wf t"
    and upd_get: "valid k \<Longrightarrow> wf s \<Longrightarrow> upd k a s = Some t \<Longrightarrow>
      get t j = (if j = k then map_option (merge k a) (get s k) else get s j)"
    and del_refuses: "valid k \<Longrightarrow> wf s \<Longrightarrow> del k s = None \<longleftrightarrow> get s k = None"
    and del_wf: "valid k \<Longrightarrow> wf s \<Longrightarrow> del k s = Some t \<Longrightarrow> wf t"
    and del_get: "valid k \<Longrightarrow> wf s \<Longrightarrow> del k s = Some t \<Longrightarrow>
      get t j = (if j = k then None else get s j)"
begin

lemma add_then_add_refused:
  "valid k \<Longrightarrow> wf s \<Longrightarrow> add k a s = Some t \<Longrightarrow> add k b t = None"
  by (simp add: add_refuses add_wf add_get)

lemma del_then_del_refused:
  "valid k \<Longrightarrow> wf s \<Longrightarrow> del k s = Some t \<Longrightarrow> del k t = None"
  by (simp add: del_refuses del_wf del_get)

text \<open>Creating a key and deleting it again restores every lookup.\<close>

lemma add_del_roundtrip:
  assumes "valid k" and "wf s" and "add k a s = Some t"
  obtains u where "del k t = Some u" and "get u = get s" and "wf u"
proof -
  have t: "wf t" "get t k \<noteq> None" using assms by (auto simp: add_wf add_get)
  then obtain u where u: "del k t = Some u" using assms(1) del_refuses [of k t] by auto
  have "get s k = None" using assms add_refuses [of k s a] by auto
  then have "get u = get s"
    using assms t u by (auto simp: fun_eq_iff del_get add_get)
  with u t assms(1) that show thesis by (blast intro: del_wf)
qed

lemma step_wf: "valid (op_key x) \<Longrightarrow> wf s \<Longrightarrow> wf (crud_step add upd del x s)"
  by (cases x) (auto split: option.splits intro: add_wf upd_wf del_wf)

lemma step_frame:
  "valid (op_key x) \<Longrightarrow> wf s \<Longrightarrow> j \<noteq> op_key x \<Longrightarrow> get (crud_step add upd del x s) j = get s j"
  by (cases x) (auto split: option.splits simp: add_get upd_get del_get)

lemma run_wf:
  "\<forall>x \<in> set xs. valid (op_key x) \<Longrightarrow> wf s \<Longrightarrow> wf (fold (crud_step add upd del) xs s)"
  by (induction xs arbitrary: s) (auto simp: step_wf)

text \<open>A run of requests leaves every key it does not name exactly as it was.\<close>

lemma run_frame:
  "\<forall>x \<in> set xs. valid (op_key x) \<Longrightarrow> wf s \<Longrightarrow> j \<notin> op_key ` set xs \<Longrightarrow>
     get (fold (crud_step add upd del) xs s) j = get s j"
  by (induction xs arbitrary: s) (auto simp: step_wf step_frame)

end

end
