(* ===== verification/PyString.thy ===== *)
theory PyString
  imports Prelude
begin

text \<open>
  The Python \<^verbatim>\<open>str\<close> methods the program calls, on strings of Latin-1 code points:
  \<^verbatim>\<open>strip\<close>, \<^verbatim>\<open>lower\<close>, \<^verbatim>\<open>upper\<close>, \<^verbatim>\<open>split\<close>, \<^verbatim>\<open>partition\<close>, \<^verbatim>\<open>join\<close>,
  \<^verbatim>\<open>startswith\<close>, \<^verbatim>\<open>isdigit\<close>, decimal printing and the \<^verbatim>\<open>int\<close> constructor, with the
  lemmas the parsers and the validators of the other theories share.
\<close>

section \<open>Character classes\<close>

abbreviation code :: "char \<Rightarrow> nat" where
  "code c \<equiv> of_char c"

definition is_space :: "char \<Rightarrow> bool" where
  "is_space c \<longleftrightarrow> 9 \<le> code c \<and> code c \<le> 13 \<or> 28 \<le> code c \<and> code c \<le> 32
     \<or> code c = 133 \<or> code c = 160"

text \<open>\<^verbatim>\<open>[0-9]\<close>: on this range also what the regular expression class
  \<^verbatim>\<open>\d\<close> matches.\<close>

definition ascii_digit :: "char \<Rightarrow> bool" where
  "ascii_digit c \<longleftrightarrow> 48 \<le> code c \<and> code c \<le> 57"

text \<open>\<^verbatim>\<open>str.isdigit\<close> also accepts the superscripts 1, 2 and 3.\<close>

definition digit_like :: "char \<Rightarrow> bool" where
  "digit_like c \<longleftrightarrow> ascii_digit c \<or> code c = 178 \<or> code c = 179 \<or> code c = 185"

definition ascii_upper :: "char \<Rightarrow> bool" where
  "ascii_upper c \<longleftrightarrow> 65 \<le> code c \<and> code c \<le> 90"

definition ascii_lower :: "char \<Rightarrow> bool" where
  "ascii_lower c \<longleftrightarrow> 97 \<le> code c \<and> code c \<le> 122"

definition ascii_alnum :: "char \<Rightarrow> bool" where
  "ascii_alnum c \<longleftrightarrow> ascii_digit c \<or> ascii_upper c \<or> ascii_lower c"

definition is_upper :: "char \<Rightarrow> bool" where
  "is_upper c \<longleftrightarrow> ascii_upper c \<or> 192 \<le> code c \<and> code c \<le> 222 \<and> code c \<noteq> 215"

definition is_lower :: "char \<Rightarrow> bool" where
  "is_lower c \<longleftrightarrow> ascii_lower c \<or> code c = 170 \<or> code c = 181 \<or> code c = 186
     \<or> 223 \<le> code c \<and> code c \<noteq> 247"

text \<open>\<^verbatim>\<open>string.punctuation\<close>: the printable ASCII characters that are neither
  alphanumeric nor the space.\<close>

definition is_punctuation :: "char \<Rightarrow> bool" where
  "is_punctuation c \<longleftrightarrow> 33 \<le> code c \<and> code c \<le> 126 \<and> \<not> ascii_alnum c"

definition char_lower :: "char \<Rightarrow> char" where
  "char_lower c = (if is_upper c then char_of (code c + 32) else c)"

text \<open>The sharp s becomes two letters; the micro sign and the y with diaeresis, whose
  capitals lie outside the range, are kept.\<close>

definition char_upper :: "char \<Rightarrow> string" where
  "char_upper c =
     (if code c = 223 then ''SS''
      else if ascii_lower c \<or> 224 \<le> code c \<and> code c \<le> 254 \<and> code c \<noteq> 247
        then [char_of (code c - 32)]
      else [c])"

lemmas char_class_defs = is_space_def ascii_digit_def digit_like_def ascii_upper_def
  ascii_lower_def ascii_alnum_def is_upper_def is_lower_def is_punctuation_def

lemma code_less_256: "code c < 256"
  by (rule nat_of_char_less_256)

lemma code_char_lower: "code (char_lower c) = (if is_upper c then code c + 32 else code c)"
  by (auto simp: char_lower_def char_class_defs)

lemma char_lower_idem [simp]: "char_lower (char_lower c) = char_lower c"
proof -
  have "\<not> is_upper (char_lower c)"
    unfolding is_upper_def ascii_upper_def code_char_lower
    by (auto simp: is_upper_def ascii_upper_def)
  then show ?thesis by (simp add: char_lower_def [of "char_lower c"])
qed

section \<open>String methods\<close>

definition lower :: "string \<Rightarrow> string" where
  "lower s = map char_lower s"

definition upper :: "string \<Rightarrow> string" where
  "upper s = concat (map char_upper s)"

definition lstrip_char :: "char \<Rightarrow> string \<Rightarrow> string" where
  "lstrip_char c s = dropWhile (\<lambda>x. x = c) s"

definition strip :: "string \<Rightarrow> string" where
  "strip s = rev (dropWhile is_space (rev (dropWhile is_space s)))"

definition isdigit :: "string \<Rightarrow> bool" where
  "isdigit s \<longleftrightarrow> s \<noteq> [] \<and> list_all digit_like s"

definition startswith :: "string \<Rightarrow> string \<Rightarrow> bool" where
  "startswith p s \<longleftrightarrow> take (length p) s = p"

fun split_on :: "char \<Rightarrow> string \<Rightarrow> string list" where
  "split_on c [] = [[]]"
| "split_on c (x # xs) =
     (if x = c then [] # split_on c xs
      else (case split_on c xs of [] \<Rightarrow> [[x]] | y # ys \<Rightarrow> (x # y) # ys))"

text \<open>\<^verbatim>\<open>s.partition(c)\<close>: what precedes the first \<open>c\<close>, whether there is one, and
  what follows it.\<close>

definition partition_at :: "char \<Rightarrow> string \<Rightarrow> string \<times> bool \<times> string" where
  "partition_at c s = (takeWhile (\<lambda>x. x \<noteq> c) s, c \<in> set s, drop 1 (dropWhile (\<lambda>x. x \<noteq> c) s))"

fun join_with :: "string \<Rightarrow> string list \<Rightarrow> string" where
  "join_with sep [] = []"
| "join_with sep [x] = x"
| "join_with sep (x # y # ys) = x @ sep @ join_with sep (y # ys)"

lemma lower_idem [simp, str_simps]: "lower (lower s) = lower s"
  by (simp add: lower_def)

lemma lower_Nil_iff [simp, str_simps]: "lower s = [] \<longleftrightarrow> s = []"
  by (simp add: lower_def)

lemma set_dropWhile_subset: "set (dropWhile P xs) \<subseteq> set xs"
  using set_dropWhileD by fastforce

lemma set_strip: "set (strip s) \<subseteq> set s"
  unfolding strip_def by (auto dest!: set_dropWhileD)

lemma strip_space_ends:
  assumes "strip s \<noteq> []"
  shows "\<not> is_space (hd (strip s))" and "\<not> is_space (last (strip s))"
proof -
  let ?t = "dropWhile is_space s"
  have rt: "dropWhile is_space (rev ?t) \<noteq> []"
    using assms by (simp add: strip_def)
  then show "\<not> is_space (last (strip s))"
    using hd_dropWhile [OF rt] by (simp add: strip_def last_rev)
  have tne: "?t \<noteq> []" using rt by (metis dropWhile.simps(1) rev.simps(1))
  obtain us where us: "?t = strip s @ us"
    unfolding strip_def
    by (metis rev_append rev_rev_ident takeWhile_dropWhile_id)
  have "hd (strip s) = hd ?t" using us assms by (metis hd_append2)
  then show "\<not> is_space (hd (strip s))"
    using hd_dropWhile [OF tne] by simp
qed

lemma strip_id:
  assumes "s = [] \<or> \<not> is_space (hd s) \<and> \<not> is_space (last s)"
  shows "strip s = s"
proof (cases "s = []")
  case True
  then show ?thesis by (simp add: strip_def)
next
  case False
  with assms have "dropWhile is_space s = s"
    by (metis dropWhile_eq_self_iff)
  moreover have "dropWhile is_space (rev s) = rev s"
    using assms False by (metis dropWhile_eq_self_iff hd_rev)
  ultimately show ?thesis by (simp add: strip_def)
qed

lemma strip_no_space: "list_all (\<lambda>c. \<not> is_space c) s \<Longrightarrow> strip s = s"
  by (rule strip_id) (cases s; auto simp: list_all_iff)

lemma strip_idem [simp, str_simps]: "strip (strip s) = strip s"
  by (rule strip_id) (use strip_space_ends in blast)

lemma split_on_not_Nil [simp]: "split_on c s \<noteq> []"
  by (cases s) (auto split: list.splits)

lemma split_on_no_sep: "x \<in> set (split_on c s) \<Longrightarrow> c \<notin> set x"
proof (induction s arbitrary: x)
  case (Cons a s)
  have ne: "split_on c s \<noteq> []" by simp
  with Cons show ?case
    by (cases "split_on c s") (auto split: if_splits)
qed auto

lemma split_on_set: "x \<in> set (split_on c s) \<Longrightarrow> set x \<subseteq> set s"
proof (induction s arbitrary: x)
  case (Cons a s)
  have ne: "split_on c s \<noteq> []" by simp
  with Cons show ?case
    by (cases "split_on c s") (fastforce split: if_splits)+
qed auto

lemma split_on_id: "c \<notin> set s \<Longrightarrow> split_on c s = [s]"
  by (induction s) auto

lemma split_on_append_sep: "split_on c (s @ c # t) = split_on c s @ split_on c t" if "c \<notin> set s"
  using that by (induction s) (auto simp: split_on_id)

lemma split_on_join:
  assumes "xs \<noteq> []" and "\<forall>x \<in> set xs. c \<notin> set x"
  shows "split_on c (join_with [c] xs) = xs"
  using assms
proof (induction "[c]" xs rule: join_with.induct)
  case (3 x y ys)
  then show ?case by (simp add: split_on_append_sep split_on_id)
qed (auto simp: split_on_id)

lemma set_join_with:
  "set (join_with sep xs) \<subseteq> set sep \<union> (\<Union>x \<in> set xs. set x)"
  by (induction sep xs rule: join_with.induct) auto

lemma partition_at_sep: "c \<notin> set s \<Longrightarrow> partition_at c (s @ c # t) = (s, True, t)"
  by (induction s) (auto simp: partition_at_def)

section \<open>Decimal numbers\<close>

definition digit_value :: "char \<Rightarrow> nat" where
  "digit_value c = code c - 48"

definition decimal_value :: "string \<Rightarrow> nat" where
  "decimal_value s = foldl (\<lambda>n c. 10 * n + digit_value c) 0 s"

definition digit_char :: "nat \<Rightarrow> char" where
  "digit_char n = char_of (48 + n)"

fun show_nat :: "nat \<Rightarrow> string" where
  "show_nat n = (if n < 10 then [digit_char n]
                 else show_nat (n div 10) @ [digit_char (n mod 10)])"

declare show_nat.simps [simp del]

definition show_int :: "int \<Rightarrow> string" where
  "show_int i = (if i < 0 then CHR ''-'' # show_nat (nat (- i)) else show_nat (nat i))"

text \<open>The digits of \<^verbatim>\<open>int(s)\<close>: single underscores may separate them.\<close>

fun int_digits :: "string \<Rightarrow> string option" where
  "int_digits [] = None"
| "int_digits [c] = (if ascii_digit c then Some [c] else None)"
| "int_digits (c # d # s) =
     (if \<not> ascii_digit c then None
      else map_option ((#) c) (int_digits (if d = CHR ''_'' then s else d # s)))"

text \<open>\<^verbatim>\<open>int(s)\<close>: surrounding white space, at most one sign, decimal digits;
  \<open>None\<close> is the \<^verbatim>\<open>ValueError\<close>.\<close>

definition py_int :: "string \<Rightarrow> int option" where
  "py_int s =
     (case strip s of
        [] \<Rightarrow> None
      | c # r \<Rightarrow>
          if c = CHR ''-'' then map_option (\<lambda>ds. - int (decimal_value ds)) (int_digits r)
          else if c = CHR ''+'' then map_option (\<lambda>ds. int (decimal_value ds)) (int_digits r)
          else map_option (\<lambda>ds. int (decimal_value ds)) (int_digits (c # r)))"

lemma digit_char_props:
  assumes "n < 10"
  shows "code (digit_char n) = 48 + n" "ascii_digit (digit_char n)" "digit_value (digit_char n) = n"
proof -
  show c: "code (digit_char n) = 48 + n" using assms by (simp add: digit_char_def)
  show "ascii_digit (digit_char n)" "digit_value (digit_char n) = n"
    unfolding ascii_digit_def digit_value_def c using assms by auto
qed

lemma decimal_value_snoc [simp]: "decimal_value (s @ [c]) = 10 * decimal_value s + digit_value c"
  by (simp add: decimal_value_def)

lemma decimal_value_show_nat [simp]: "decimal_value (show_nat n) = n"
proof (induction n rule: show_nat.induct)
  case (1 n)
  show ?case
  proof (cases "n < 10")
    case True
    then show ?thesis
      by (subst show_nat.simps) (simp add: decimal_value_def digit_char_props)
  next
    case False
    with 1 show ?thesis
      by (subst show_nat.simps) (simp add: digit_char_props)
  qed
qed

lemma show_nat_digits: "list_all ascii_digit (show_nat n)" and show_nat_not_Nil: "show_nat n \<noteq> []"
proof -
  have "list_all ascii_digit (show_nat n) \<and> show_nat n \<noteq> []"
  proof (induction n rule: show_nat.induct)
    case (1 n)
    then show ?case
      by (subst (1 2) show_nat.simps) (auto simp: digit_char_props)
  qed
  then show "list_all ascii_digit (show_nat n)" "show_nat n \<noteq> []" by auto
qed

lemma int_digits_id: "s \<noteq> [] \<Longrightarrow> list_all ascii_digit s \<Longrightarrow> int_digits s = Some s"
proof (induction s rule: int_digits.induct)
  case (3 c d s)
  then have "d \<noteq> CHR ''_''" by (auto simp: ascii_digit_def)
  with 3 show ?case by simp
qed auto

lemma ascii_digit_not_sign:
  "ascii_digit c \<Longrightarrow> c \<noteq> CHR ''-'' \<and> c \<noteq> CHR ''+'' \<and> \<not> is_space c"
  by (auto simp: char_class_defs)

lemma py_int_digits:
  assumes "s \<noteq> []" and "list_all ascii_digit s"
  shows "py_int s = Some (int (decimal_value s))"
proof -
  obtain c r where s: "s = c # r" using assms(1) by (cases s) auto
  have "\<not> is_space (hd s)" "\<not> is_space (last s)"
    using assms ascii_digit_not_sign by (auto simp: list_all_iff)
  then have "strip s = s" by (intro strip_id) auto
  moreover have "c \<noteq> CHR ''-''" "c \<noteq> CHR ''+''"
    using assms(2) s ascii_digit_not_sign by auto
  ultimately show ?thesis
    using int_digits_id [OF assms] s by (simp add: py_int_def)
qed

lemma py_int_show_nat: "py_int (show_nat n) = Some (int n)"
  by (simp add: py_int_digits show_nat_digits show_nat_not_Nil)

end
