(* ===== verification/Auth.thy ===== *)
theory Auth
  imports Stores PyString
begin

text \<open>
  \<^verbatim>\<open>app/auth.py\<close>: the local accounts of \<^verbatim>\<open>users.json\<close>. The file is a parameter of
  each operation and a result of those that write it. bcrypt is third-party code: its
  \<^verbatim>\<open>checkpw\<close> and \<^verbatim>\<open>hashpw\<close> are arguments, and a \<open>ValueError\<close> they raise is on the
  left of their result.
\<close>

record user_entry =
  password_hash :: "string option"
  user_role :: "string option"

type_synonym users = "(string, user_entry) dict"
type_synonym users_file = "users json_file"

definition load_users :: "users_file \<Rightarrow> users result" where
  "load_users f =
     (case f of Absent \<Rightarrow> Inr [] | Unreadable \<Rightarrow> Inl JSONDecodeError | Content d \<Rightarrow> Inr d)"

text \<open>An entry without any field is an empty, hence false, dictionary.\<close>

definition entry_truthy :: "user_entry \<Rightarrow> bool" where
  "entry_truthy e \<longleftrightarrow> password_hash e \<noteq> None \<or> user_role e \<noteq> None"

definition entry_role :: "user_entry \<Rightarrow> string" where
  "entry_role e = (case user_role e of None \<Rightarrow> ''viewer'' | Some r \<Rightarrow> r)"

definition authenticate ::
  "(string \<Rightarrow> string \<Rightarrow> bool result) \<Rightarrow> string \<Rightarrow> string \<Rightarrow> users_file
   \<Rightarrow> (string \<times> string list) option result" where
  "authenticate checkpw username password f =
     bind_result (load_users f) (\<lambda>users.
       case map_of users username of
         None \<Rightarrow> Inr None
       | Some entry \<Rightarrow>
           if \<not> entry_truthy entry then Inr None
           else
             (let stored_hash = (case password_hash entry of None \<Rightarrow> [] | Some h \<Rightarrow> h)
              in case checkpw password stored_hash of
                   Inl (ValueError _) \<Rightarrow> Inr None
                 | Inl e \<Rightarrow> Inl e
                 | Inr ok \<Rightarrow> Inr (if ok then Some (entry_role entry, []) else None)))"

definition validate_password_policy :: "string \<Rightarrow> unit result" where
  "validate_password_policy password =
     (if length password < 12
        then Inl (ValueError ''Password must be at least 12 characters long'')
      else if \<not> list_ex is_lower password
        then Inl (ValueError ''Password must include at least one lowercase letter'')
      else if \<not> list_ex is_upper password
        then Inl (ValueError ''Password must include at least one uppercase letter'')
      else if \<not> list_ex digit_like password
        then Inl (ValueError ''Password must include at least one number'')
      else if \<not> list_ex is_punctuation password
        then Inl (ValueError ''Password must include at least one special character'')
      else Inr ())"

definition add_user ::
  "(string \<Rightarrow> string result) \<Rightarrow> string \<Rightarrow> string \<Rightarrow> string \<Rightarrow> users_file \<Rightarrow> users_file result" where
  "add_user hashpw username password role f =
     bind_result (validate_password_policy password) (\<lambda>_.
       bind_result (load_users f) (\<lambda>users.
         bind_result (hashpw password) (\<lambda>hashed.
           Inr (Content (dict_set username
             \<lparr>password_hash = Some hashed, user_role = Some role\<rparr> users)))))"

definition delete_user :: "string \<Rightarrow> users_file \<Rightarrow> (bool \<times> users_file) result" where
  "delete_user username f =
     bind_result (load_users f) (\<lambda>users.
       if \<not> dict_has users username then Inr (False, f)
       else Inr (True, Content (dict_del username users)))"

definition list_users :: "users_file \<Rightarrow> (string \<times> string) list result" where
  "list_users f =
     bind_result (load_users f) (\<lambda>users. Inr (map (\<lambda>(u, v). (u, entry_role v)) users))"

definition get_user_role :: "string \<Rightarrow> users_file \<Rightarrow> string result" where
  "get_user_role username f =
     bind_result (load_users f) (\<lambda>users.
       Inr (case map_of users username of None \<Rightarrow> ''viewer'' | Some e \<Rightarrow> entry_role e))"

section \<open>The account store\<close>

lemma load_users_Inr_iff:
  "load_users f = Inr d \<longleftrightarrow> f = Absent \<and> d = [] \<or> f = Content d"
  by (cases f) (auto simp: load_users_def)

lemma load_users_simps [simp]:
  "load_users Absent = Inr []" "load_users Unreadable = Inl JSONDecodeError"
  "load_users (Content d) = Inr d"
  by (simp_all add: load_users_def)

text \<open>The account of a name; a missing file holds no account.\<close>

definition user_lookup :: "users_file \<Rightarrow> string \<Rightarrow> user_entry option" where
  "user_lookup f u = (case load_users f of Inl _ \<Rightarrow> None | Inr d \<Rightarrow> map_of d u)"

definition put_user :: "string \<Rightarrow> user_entry \<Rightarrow> users_file \<Rightarrow> users_file" where
  "put_user u e f = (case load_users f of Inl _ \<Rightarrow> f | Inr d \<Rightarrow> Content (dict_set u e d))"

interpretation accounts: upsert_store user_lookup put_user readable
  by unfold_locales
    (auto simp: user_lookup_def put_user_def readable_def load_users_def split: json_file.splits)

lemma add_user_put:
  "add_user hashpw u p r f = Inr f' \<longleftrightarrow>
     (validate_password_policy p = Inr () \<and> readable f \<and>
      (\<exists>h. hashpw p = Inr h \<and>
           f' = put_user u \<lparr>password_hash = Some h, user_role = Some r\<rparr> f))"
  by (cases f) (auto simp: add_user_def bind_result_Inr_iff readable_def put_user_def)

lemma authenticate_lookup:
  "authenticate checkpw u p f = Inr (Some (r, ads)) \<longleftrightarrow>
     (\<exists>e. user_lookup f u = Some e \<and> entry_truthy e \<and> r = entry_role e \<and> ads = [] \<and>
          checkpw p (case password_hash e of None \<Rightarrow> [] | Some h \<Rightarrow> h) = Inr True)"
  by (cases f)
    (auto simp: authenticate_def user_lookup_def Let_def
          split: option.splits sum.splits py_error.splits)

lemma policy_ok_iff:
  "validate_password_policy p = Inr () \<longleftrightarrow>
     12 \<le> length p \<and> list_ex is_lower p \<and> list_ex is_upper p \<and>
     list_ex digit_like p \<and> list_ex is_punctuation p"
  by (auto simp: validate_password_policy_def)

lemma authenticate_by_lookup:
  "readable f \<Longrightarrow> readable g \<Longrightarrow> user_lookup f u = user_lookup g u \<Longrightarrow>
     authenticate checkpw u p f = authenticate checkpw u p g"
  by (cases f; cases g) (auto simp: authenticate_def user_lookup_def readable_def)

section \<open>Properties\<close>

text \<open>
  Creating or overwriting an account makes exactly that account usable with the new
  password and role: given bcrypt's contract that a hash verifies the password it was made
  from, the new credentials are accepted with the given role, and the outcome of every
  login under another name is what it was before.
\<close>

theorem add_user_then_authenticate:
  assumes "add_user hashpw u p r f = Inr f'"
    and bcrypt: "\<And>q h. hashpw q = Inr h \<Longrightarrow> checkpw q h = Inr True"
  shows "authenticate checkpw u p f' = Inr (Some (r, [])) \<and>
     (\<forall>v q. v \<noteq> u \<longrightarrow> authenticate checkpw v q f' = authenticate checkpw v q f)"
proof -
  obtain h where h: "hashpw p = Inr h" and rd: "readable f"
    and f': "f' = put_user u \<lparr>password_hash = Some h, user_role = Some r\<rparr> f"
    using assms(1) by (auto simp: add_user_put)
  have rd': "readable f'" using accounts.wf_put [OF rd] f' by simp
  have "authenticate checkpw u p f' = Inr (Some (r, []))"
    unfolding authenticate_lookup
    using f' accounts.get_put_same [OF rd] bcrypt [OF h]
    by (auto simp: entry_truthy_def entry_role_def)
  moreover have "authenticate checkpw v q f' = authenticate checkpw v q f" if "v \<noteq> u" for v q
    by (rule authenticate_by_lookup [OF rd' rd]) (simp add: f' accounts.get_put [OF rd] that)
  ultimately show ?thesis by blast
qed

theorem add_user_then_authenticate_witness:
  "authenticate (\<lambda>p h. Inr (h = CHR ''#'' # p)) ''ann'' ''Tr0ub4dor&3xyz''
     (Content [(''ann'', \<lparr>password_hash = Some ''#Tr0ub4dor&3xyz'', user_role = Some ''viewer''\<rparr>)])
   = Inr (Some (''viewer'', []))"
proof -
  have a: "add_user (\<lambda>p. Inr (CHR ''#'' # p)) ''ann'' ''Tr0ub4dor&3xyz'' ''viewer'' Absent =
    Inr (Content [(''ann'',
      \<lparr>password_hash = Some ''#Tr0ub4dor&3xyz'', user_role = Some ''viewer''\<rparr>)])"
    by code_simp
  show ?thesis
    using add_user_then_authenticate [OF a, of "\<lambda>p h. Inr (h = CHR ''#'' # p)"] by simp
qed

text \<open>
  The password policy is enforced on the only path that writes a password: an account
  is written exactly when the password has at least twelve characters with a lower-case
  letter, an upper-case letter, a digit and a punctuation character (and bcrypt and the
  file cooperate); otherwise the call raises and the file is not touched.
\<close>

theorem add_user_policy:
  "(\<exists>f'. add_user hashpw u p r f = Inr f') \<longleftrightarrow>
     12 \<le> length p \<and> (\<exists>c \<in> set p. is_lower c) \<and> (\<exists>c \<in> set p. is_upper c) \<and>
     (\<exists>c \<in> set p. digit_like c) \<and> (\<exists>c \<in> set p. is_punctuation c) \<and>
     f \<noteq> Unreadable \<and> (\<exists>h. hashpw p = Inr h)"
  by (auto simp: add_user_put policy_ok_iff list_ex_iff readable_def)

end
