(* ===== verification/AccessGroups.thy ===== *)
theory AccessGroups
  imports Auth
begin

text \<open>
  \<^verbatim>\<open>app/groups.py\<close>: the permission groups of \<^verbatim>\<open>groups.json\<close> and the access
  decisions made from them. A group's fields may be missing from the file, so each is an
  option; \<open>group_to_dict\<close> fills in the defaults as \<^verbatim>\<open>_group_to_dict\<close> does. The
  module variable \<^verbatim>\<open>KNOWN_TABS\<close> is the argument \<open>known\<close>, the tab keys in
  registration order.
\<close>

record group =
  g_members :: "string list option"
  g_ad_groups :: "string list option"
  g_allowed_tabs :: "string list option"
  g_adom_restrict :: "bool option"
  g_allowed_adoms :: "string list option"

record group_dict =
  name :: string
  members :: "string list"
  ad_groups :: "string list"
  allowed_tabs :: "string list"
  adom_restrict :: bool
  allowed_adoms :: "string list"

type_synonym groups = "(string, group) dict"
type_synonym groups_file = "groups json_file"

definition load_groups :: "groups_file \<Rightarrow> groups result" where
  "load_groups f =
     (case f of Absent \<Rightarrow> Inr [] | Unreadable \<Rightarrow> Inl JSONDecodeError | Content d \<Rightarrow> Inr d)"

definition group_to_dict :: "string \<Rightarrow> group \<Rightarrow> group_dict" where
  "group_to_dict n g =
     \<lparr>name = n,
      members = or_default [] (g_members g),
      ad_groups = or_default [] (g_ad_groups g),
      allowed_tabs = or_default [] (g_allowed_tabs g),
      adom_restrict = or_default False (g_adom_restrict g),
      allowed_adoms = or_default [] (g_allowed_adoms g)\<rparr>"

definition list_groups :: "groups_file \<Rightarrow> group_dict list result" where
  "list_groups f =
     bind_result (load_groups f) (\<lambda>groups. Inr (map (\<lambda>(n, g). group_to_dict n g) groups))"

definition get_group :: "string \<Rightarrow> groups_file \<Rightarrow> group_dict option result" where
  "get_group n f =
     bind_result (load_groups f) (\<lambda>groups.
       case map_of groups n of
         None \<Rightarrow> Inr None
       | Some g \<Rightarrow> Inr (Some (group_to_dict n g)))"

definition create_group ::
  "string \<Rightarrow> string list option \<Rightarrow> string list option \<Rightarrow> string list option \<Rightarrow> bool
   \<Rightarrow> string list option \<Rightarrow> groups_file \<Rightarrow> (bool \<times> groups_file) result" where
  "create_group nm mems ads tabs restr adoms f =
     (let n = strip nm in
      if n = [] then Inl (ValueError ''Group name cannot be empty.'')
      else bind_result (load_groups f) (\<lambda>groups.
        if dict_has groups n then Inr (False, f)
        else
          (let entry = \<lparr>g_members = Some (or_default [] mems),
                        g_ad_groups = Some (or_default [] ads),
                        g_allowed_tabs = Some (or_default [] tabs),
                        g_adom_restrict = Some restr,
                        g_allowed_adoms = Some (or_default [] adoms)\<rparr>
           in Inr (True, Content (dict_set n entry groups)))))"

definition filter_tabs :: "string list \<Rightarrow> string list \<Rightarrow> string list" where
  "filter_tabs known tabs = (if known \<noteq> [] then filter (\<lambda>t. t \<in> set known) tabs else tabs)"

definition update_group ::
  "string list \<Rightarrow> string \<Rightarrow> string list \<Rightarrow> string list \<Rightarrow> bool \<Rightarrow> string list option
   \<Rightarrow> string list option \<Rightarrow> groups_file \<Rightarrow> (bool \<times> groups_file) result" where
  "update_group known n mems tabs restr adoms ads f =
     bind_result (load_groups f) (\<lambda>groups.
       case map_of groups n of
         None \<Rightarrow> Inr (False, f)
       | Some g \<Rightarrow>
           (let g' = g\<lparr>g_members := Some mems,
                       g_ad_groups := Some (or_default [] ads),
                       g_allowed_tabs := Some (filter_tabs known tabs),
                       g_adom_restrict := Some restr,
                       g_allowed_adoms := Some (or_default [] adoms)\<rparr>
            in Inr (True, Content (dict_set n g' groups))))"

text \<open>The two membership operations read the group, edit a set of names and write the
  sorted set back through \<^verbatim>\<open>update_group\<close>.\<close>

definition write_members ::
  "string list \<Rightarrow> group_dict \<Rightarrow> string \<Rightarrow> string set \<Rightarrow> groups_file \<Rightarrow> groups_file result" where
  "write_members known gd gname ms f =
     bind_result
       (update_group known gname (sorted_list_of_set ms) (allowed_tabs gd)
          (adom_restrict gd) (Some (allowed_adoms gd)) (Some (ad_groups gd)) f)
       (\<lambda>(_, f'). Inr f')"

definition add_group_member ::
  "string list \<Rightarrow> string \<Rightarrow> string \<Rightarrow> groups_file \<Rightarrow> groups_file result" where
  "add_group_member known gname username f =
     bind_result (get_group gname f) (\<lambda>r.
       case r of
         None \<Rightarrow> Inr f
       | Some gd \<Rightarrow> write_members known gd gname (insert username (set (members gd))) f)"

definition remove_group_member ::
  "string list \<Rightarrow> string \<Rightarrow> string \<Rightarrow> groups_file \<Rightarrow> groups_file result" where
  "remove_group_member known gname username f =
     bind_result (get_group gname f) (\<lambda>r.
       case r of
         None \<Rightarrow> Inr f
       | Some gd \<Rightarrow> write_members known gd gname (set (members gd) - {username}) f)"

definition delete_group :: "string \<Rightarrow> groups_file \<Rightarrow> (bool \<times> groups_file) result" where
  "delete_group n f =
     bind_result (load_groups f) (\<lambda>groups.
       if \<not> dict_has groups n then Inr (False, f)
       else Inr (True, Content (dict_del n groups)))"

section \<open>Access decisions\<close>

text \<open>Membership by name, or by an overlap of the user's directory groups with the
  group's.\<close>

definition belongs :: "string \<Rightarrow> string set \<Rightarrow> group \<Rightarrow> bool" where
  "belongs username ad_set g \<longleftrightarrow>
     username \<in> set (or_default [] (g_members g))
     \<or> ad_set \<inter> set (or_default [] (g_ad_groups g)) \<noteq> {}"

definition is_local_admin :: "users \<Rightarrow> string \<Rightarrow> bool" where
  "is_local_admin users username \<longleftrightarrow>
     (case map_of users username of None \<Rightarrow> False | Some e \<Rightarrow> user_role e = Some ''admin'')"

definition get_allowed_tabs ::
  "string list \<Rightarrow> string \<Rightarrow> string list option \<Rightarrow> string option \<Rightarrow> users_file \<Rightarrow> groups_file
   \<Rightarrow> string set result" where
  "get_allowed_tabs known username ads role uf gf =
     (if role = Some ''admin'' then Inr (set known)
      else bind_result (load_users uf) (\<lambda>users.
        if is_local_admin users username then Inr (set known)
        else bind_result (load_groups gf) (\<lambda>groups.
          let ad_set = set (or_default [] ads) in
          Inr (set (concat (map (\<lambda>g. or_default [] (g_allowed_tabs g))
                      (filter (belongs username ad_set) (dict_values groups))))))))"

definition user_can_access_tab ::
  "string list \<Rightarrow> string \<Rightarrow> string \<Rightarrow> users_file \<Rightarrow> groups_file \<Rightarrow> bool result" where
  "user_can_access_tab known username tab_key uf gf =
     bind_result (get_allowed_tabs known username None None uf gf) (\<lambda>tabs. Inr (tab_key \<in> tabs))"

text \<open>\<open>None\<close> is unrestricted.\<close>

definition get_allowed_adoms ::
  "string \<Rightarrow> string list option \<Rightarrow> string option \<Rightarrow> users_file \<Rightarrow> groups_file
   \<Rightarrow> string list option result" where
  "get_allowed_adoms username ads role uf gf =
     (if role = Some ''admin'' then Inr None
      else bind_result (load_users uf) (\<lambda>users.
        if is_local_admin users username then Inr None
        else bind_result (load_groups gf) (\<lambda>groups.
          let ad_set = set (or_default [] ads);
              user_groups = filter (belongs username ad_set) (dict_values groups)
          in
            if user_groups = [] then Inr (Some [])
            else if list_ex (\<lambda>g. \<not> or_default False (g_adom_restrict g)) user_groups
              then Inr None
            else Inr (Some (sorted_list_of_set
                   (set (concat (map (\<lambda>g. or_default [] (g_allowed_adoms g)) user_groups))))))))"

definition user_can_access_adom ::
  "string \<Rightarrow> string \<Rightarrow> string list option \<Rightarrow> users_file \<Rightarrow> groups_file \<Rightarrow> bool result" where
  "user_can_access_adom username adom ads uf gf =
     bind_result (get_allowed_adoms username ads None uf gf) (\<lambda>allowed.
       case allowed of None \<Rightarrow> Inr True | Some xs \<Rightarrow> Inr (adom \<in> set xs))"

section \<open>The group store\<close>

lemma load_groups_simps [simp]:
  "load_groups Absent = Inr []" "load_groups Unreadable = Inl JSONDecodeError"
  "load_groups (Content d) = Inr d"
  by (simp_all add: load_groups_def)

text \<open>The stored group of a name; a missing file holds none.\<close>

definition group_lookup :: "groups_file \<Rightarrow> string \<Rightarrow> group option" where
  "group_lookup f n = (case load_groups f of Inl _ \<Rightarrow> None | Inr d \<Rightarrow> map_of d n)"

text \<open>What the admin pages hand to a create or an update.\<close>

record group_args =
  a_members :: "string list"
  a_ad_groups :: "string list"
  a_tabs :: "string list"
  a_restrict :: bool
  a_adoms :: "string list"

definition group_of_args :: "group_args \<Rightarrow> group" where
  "group_of_args a =
     \<lparr>g_members = Some (a_members a), g_ad_groups = Some (a_ad_groups a),
      g_allowed_tabs = Some (a_tabs a), g_adom_restrict = Some (a_restrict a),
      g_allowed_adoms = Some (a_adoms a)\<rparr>"

definition changed :: "(bool \<times> 'f) result \<Rightarrow> 'f option" where
  "changed r = (case r of Inr (True, f) \<Rightarrow> Some f | _ \<Rightarrow> None)"

definition add_group :: "string \<Rightarrow> group_args \<Rightarrow> groups_file \<Rightarrow> groups_file option" where
  "add_group n a f =
     changed (create_group n (Some (a_members a)) (Some (a_ad_groups a)) (Some (a_tabs a))
       (a_restrict a) (Some (a_adoms a)) f)"

definition upd_group :: "string list \<Rightarrow> string \<Rightarrow> group_args \<Rightarrow> groups_file \<Rightarrow> groups_file option"
  where
  "upd_group known n a f =
     changed (update_group known n (a_members a) (a_tabs a) (a_restrict a) (Some (a_adoms a))
       (Some (a_ad_groups a)) f)"

definition clean_key :: "string \<Rightarrow> bool" where
  "clean_key k \<longleftrightarrow> k \<noteq> [] \<and> strip k = k"

lemmas group_store_defs = group_lookup_def add_group_def upd_group_def changed_def
  create_group_def update_group_def delete_group_def load_groups_def

interpretation group_store: crud_store
  clean_key readable group_lookup add_group "upd_group known"
  "\<lambda>n f. changed (delete_group n f)"
  "\<lambda>_. group_of_args"
  "\<lambda>_ a _. group_of_args (a\<lparr>a_tabs := filter_tabs known (a_tabs a)\<rparr>)"
  for known
  by unfold_locales
    (auto simp: group_store_defs clean_key_def readable_def group_of_args_def
          split: json_file.splits option.splits if_splits)

section \<open>Membership edits\<close>

lemma get_group_lookup:
  "get_group n f = Inr r \<Longrightarrow> r = map_option (group_to_dict n) (group_lookup f n)"
  by (cases f) (auto simp: get_group_def group_lookup_def split: option.splits)

lemma get_group_Inr: "readable f \<Longrightarrow>
  get_group n f = Inr (map_option (group_to_dict n) (group_lookup f n))"
  by (cases f) (auto simp: get_group_def group_lookup_def readable_def split: option.splits)

text \<open>The group a membership edit leaves behind: every field but the members and the
  filtered tabs is carried over.\<close>

definition with_members :: "string list \<Rightarrow> string set \<Rightarrow> group \<Rightarrow> group" where
  "with_members known ms g =
     \<lparr>g_members = Some (sorted_list_of_set ms),
      g_ad_groups = Some (or_default [] (g_ad_groups g)),
      g_allowed_tabs = Some (filter_tabs known (or_default [] (g_allowed_tabs g))),
      g_adom_restrict = Some (or_default False (g_adom_restrict g)),
      g_allowed_adoms = Some (or_default [] (g_allowed_adoms g))\<rparr>"

abbreviation member_set :: "group \<Rightarrow> string set" where
  "member_set g \<equiv> set (or_default [] (g_members g))"

lemma write_members_content:
  "map_of gs n = Some g \<Longrightarrow>
     write_members known (group_to_dict n g) n ms (Content gs) =
       Inr (Content (dict_set n (with_members known ms g) gs))"
  by (cases g) (simp add: write_members_def update_group_def group_to_dict_def with_members_def)

lemma members_group_to_dict [simp]: "members (group_to_dict n g) = or_default [] (g_members g)"
  by (simp add: group_to_dict_def)

lemma add_group_member_content:
  "add_group_member known n u (Content gs) =
     Inr (case map_of gs n of
            None \<Rightarrow> Content gs
          | Some g \<Rightarrow> Content (dict_set n (with_members known (insert u (member_set g)) g) gs))"
  by (simp add: add_group_member_def get_group_def write_members_content split: option.splits)

lemma remove_group_member_content:
  "remove_group_member known n u (Content gs) =
     Inr (case map_of gs n of
            None \<Rightarrow> Content gs
          | Some g \<Rightarrow> Content (dict_set n (with_members known (member_set g - {u}) g) gs))"
  by (simp add: remove_group_member_def get_group_def write_members_content split: option.splits)

lemma with_members_belongs:
  "v \<in> ms \<longleftrightarrow> v \<in> member_set g \<Longrightarrow> finite ms \<Longrightarrow>
     belongs v A (with_members known ms g) = belongs v A g"
  by (simp add: belongs_def with_members_def)

lemma filter_tabs_subset: "set (filter_tabs known ts) \<subseteq> set ts"
  by (auto simp: filter_tabs_def)

text \<open>The tabs a user draws from groups, as a set.\<close>

lemma group_tabs_set:
  "wf_dict gs \<Longrightarrow>
     t \<in> set (concat (map (\<lambda>g. or_default [] (g_allowed_tabs g))
           (filter (belongs v A) (dict_values gs)))) \<longleftrightarrow>
     (\<exists>n g. map_of gs n = Some g \<and> belongs v A g \<and> t \<in> set (or_default [] (g_allowed_tabs g)))"
  by (auto simp: dict_lookup_values)

lemma allowed_tabs_mem:
  assumes "wf_dict gs" and "get_allowed_tabs known v ads role (Content us) (Content gs) = Inr T"
  shows "t \<in> T \<longleftrightarrow>
    (if role = Some ''admin'' \<or> is_local_admin us v then t \<in> set known
     else \<exists>n g. map_of gs n = Some g \<and> belongs v (set (or_default [] ads)) g \<and>
            t \<in> set (or_default [] (g_allowed_tabs g)))"
  using assms(2)
  by (auto simp: get_allowed_tabs_def Let_def group_tabs_set [OF assms(1)] simp del: set_concat
           split: if_splits)

section \<open>Properties\<close>

text \<open>
  C39. Pushing a user into a group never widens anybody's permissions beyond that group: with
  the same role and directory groups, every tab a user may open after
  \<^verbatim>\<open>add_group_member\<close> they could open before, unless the user is the one added and the
  tab is one the group already granted.
\<close>

theorem add_group_member_no_escalation:
  assumes wf: "wf_dict gs"
    and add: "add_group_member known n u (Content gs) = Inr f'"
    and before: "get_allowed_tabs known v ads role (Content us) (Content gs) = Inr T"
    and after: "get_allowed_tabs known v ads role (Content us) f' = Inr T'"
    and t: "t \<in> T'"
  shows "t \<in> T \<or> v = u \<and> (\<exists>g. map_of gs n = Some g \<and> t \<in> set (or_default [] (g_allowed_tabs g)))"
proof (cases "map_of gs n")
  case None
  then show ?thesis using add before after t by (simp add: add_group_member_content)
next
  case (Some g)
  let ?g' = "with_members known (insert u (member_set g)) g"
  have f': "f' = Content (dict_set n ?g' gs)" using add Some by (simp add: add_group_member_content)
  have tabs': "t \<in> set (or_default [] (g_allowed_tabs ?g')) \<Longrightarrow>
      t \<in> set (or_default [] (g_allowed_tabs g))"
    using filter_tabs_subset by (fastforce simp: with_members_def)
  have bel: "v = u \<or> belongs v (set (or_default [] ads)) ?g' = belongs v (set (or_default [] ads)) g"
    using with_members_belongs [of v "insert u (member_set g)" g] by auto
  show ?thesis
    using t Some bel tabs' allowed_tabs_mem [OF wf before]
      allowed_tabs_mem [OF wf_dict_set [OF wf] after [unfolded f']]
    by (auto split: if_splits)
qed

theorem add_group_member_no_escalation_witness:
  "get_allowed_tabs [''dashboard''] ''bob'' None None (Content [])
     (Content [(''noc'', \<lparr>g_members = Some [''ann'', ''bob''], g_ad_groups = Some [],
        g_allowed_tabs = Some [''dashboard''], g_adom_restrict = Some False,
        g_allowed_adoms = Some []\<rparr>)]) = Inr {''dashboard''} \<and>
   (''dashboard'' \<in> {''dashboard'', ''old''} \<or> ''bob'' = ''ann'')"
proof -
  let ?gs = "[(''noc'', \<lparr>g_members = Some [''bob''], g_ad_groups = None,
     g_allowed_tabs = Some [''dashboard'', ''old''], g_adom_restrict = None,
     g_allowed_adoms = None\<rparr>)]"
  let ?f' = "Content [(''noc'', \<lparr>g_members = Some [''ann'', ''bob''], g_ad_groups = Some [],
     g_allowed_tabs = Some [''dashboard''], g_adom_restrict = Some False,
     g_allowed_adoms = Some []\<rparr>)]"
  have add: "add_group_member [''dashboard''] ''noc'' ''ann'' (Content ?gs) = Inr ?f'"
    by code_simp
  have before: "get_allowed_tabs [''dashboard''] ''bob'' None None (Content []) (Content ?gs)
      = Inr {''dashboard'', ''old''}"
    by code_simp
  have after: "get_allowed_tabs [''dashboard''] ''bob'' None None (Content []) ?f'
      = Inr {''dashboard''}"
    by code_simp
  show ?thesis
    using add_group_member_no_escalation [OF _ add before after, of "''dashboard''"] after by simp
qed

text \<open>
  Adding a user to a group and removing them again: for a user who was not a member, the
  group ends with exactly the members it had, sorted and without duplicates, its other
  fields as they were except that tabs the registry no longer knows are dropped, and every
  other group is untouched.
\<close>

theorem member_push_roundtrip:
  assumes "map_of gs n = Some g" and "u \<notin> member_set g"
    and add: "add_group_member known n u (Content gs) = Inr f1"
    and rem: "remove_group_member known n u f1 = Inr f2"
  shows "group_lookup f2 m =
    (if m = n then Some (with_members known (member_set g) g) else map_of gs m)"
proof -
  let ?g1 = "with_members known (insert u (member_set g)) g"
  have f1: "f1 = Content (dict_set n ?g1 gs)"
    using add assms(1) by (simp add: add_group_member_content)
  have "member_set ?g1 - {u} = member_set g"
    using assms(2) by (auto simp: with_members_def set_insort_key)
  moreover have "with_members known ms ?g1 = with_members known ms g" for ms
    by (simp add: with_members_def filter_tabs_def)
  ultimately have "f2 = Content (dict_set n (with_members known (member_set g) g)
      (dict_set n ?g1 gs))"
    using rem unfolding f1 by (simp add: remove_group_member_content)
  then show ?thesis by (simp add: group_lookup_def)
qed

theorem member_push_roundtrip_witness:
  "group_lookup (Content [(''noc'', \<lparr>g_members = Some [''bob'', ''zoe''], g_ad_groups = Some [],
      g_allowed_tabs = Some [], g_adom_restrict = Some False, g_allowed_adoms = Some []\<rparr>)])
    ''noc'' = Some (with_members [''dashboard''] {''bob'', ''zoe''}
      \<lparr>g_members = Some [''zoe'', ''bob''], g_ad_groups = None, g_allowed_tabs = Some [''old''],
       g_adom_restrict = None, g_allowed_adoms = None\<rparr>)"
proof -
  let ?g = "\<lparr>g_members = Some [''zoe'', ''bob''], g_ad_groups = None, g_allowed_tabs = Some [''old''],
       g_adom_restrict = None, g_allowed_adoms = None\<rparr>"
  have add: "add_group_member [''dashboard''] ''noc'' ''ann'' (Content [(''noc'', ?g)]) =
    Inr (Content [(''noc'', \<lparr>g_members = Some [''ann'', ''bob'', ''zoe''], g_ad_groups = Some [],
      g_allowed_tabs = Some [], g_adom_restrict = Some False, g_allowed_adoms = Some []\<rparr>)])"
    by code_simp
  have rem: "remove_group_member [''dashboard''] ''noc'' ''ann''
      (Content [(''noc'', \<lparr>g_members = Some [''ann'', ''bob'', ''zoe''], g_ad_groups = Some [],
      g_allowed_tabs = Some [], g_adom_restrict = Some False, g_allowed_adoms = Some []\<rparr>)]) =
    Inr (Content [(''noc'', \<lparr>g_members = Some [''bob'', ''zoe''], g_ad_groups = Some [],
      g_allowed_tabs = Some [], g_adom_restrict = Some False, g_allowed_adoms = Some []\<rparr>)])"
    by code_simp
  show ?thesis
    using member_push_roundtrip [OF _ _ add rem, of ?g "''noc''"] by (simp add: insert_commute)
qed

text \<open>
  ADOM access is granted by any one group: a user may use an ADOM exactly when they are a
  local administrator or belong to a group that is unrestricted or lists the ADOM. In
  particular a user of no group is refused, and the answer is defined for every pair of
  readable files.
\<close>

theorem adom_access_iff:
  assumes "wf_dict gs"
  shows "user_can_access_adom u adom ads (Content us) (Content gs) =
    Inr (is_local_admin us u \<or>
      (\<exists>n g. map_of gs n = Some g \<and> belongs u (set (or_default [] ads)) g \<and>
         (\<not> or_default False (g_adom_restrict g) \<or>
          adom \<in> set (or_default [] (g_allowed_adoms g)))))"
proof -
  let ?A = "set (or_default [] ads)"
  have vals: "(\<exists>n g. map_of gs n = Some g \<and> P g) \<longleftrightarrow> (\<exists>g \<in> set (dict_values gs). P g)" for P
    using dict_lookup_values [OF assms] by metis
  show ?thesis
    unfolding vals
    by (auto simp: user_can_access_adom_def get_allowed_adoms_def Let_def filter_empty_conv
          list_ex_iff)
qed

theorem adom_access_iff_witness:
  "user_can_access_adom ''ann'' ''root'' None (Content [])
     (Content [(''noc'', \<lparr>g_members = Some [''ann''], g_ad_groups = None, g_allowed_tabs = None,
        g_adom_restrict = Some True, g_allowed_adoms = Some [''root'']\<rparr>)]) = Inr True"
  by (subst adom_access_iff) (simp_all add: is_local_admin_def belongs_def)

text \<open>
  The admin group pages keep groups apart: after any sequence of create, update and delete
  requests, accepted or refused, a group none of them names is exactly as it was.
\<close>

theorem group_requests_frame:
  assumes "readable f" and "\<forall>x \<in> set xs. clean_key (op_key x)" and "m \<notin> op_key ` set xs"
  shows "group_lookup
    (fold (crud_step add_group (upd_group known) (\<lambda>n f. changed (delete_group n f))) xs f) m =
    group_lookup f m"
  using assms by (intro group_store.run_frame)

theorem group_requests_frame_witness:
  "group_lookup
    (fold (crud_step add_group (upd_group []) (\<lambda>n f. changed (delete_group n f)))
       [Del ''noc'', Del ''ops''] (Content [(''dev'', group_of_args (\<lparr>a_members = [''ann''],
         a_ad_groups = [], a_tabs = [], a_restrict = False, a_adoms = []\<rparr>)), (''noc'',
         group_of_args (\<lparr>a_members = [], a_ad_groups = [], a_tabs = [], a_restrict = False,
         a_adoms = []\<rparr>))])) ''dev'' =
   Some (group_of_args (\<lparr>a_members = [''ann''], a_ad_groups = [], a_tabs = [],
     a_restrict = False, a_adoms = []\<rparr>))"
proof -
  have k: "clean_key ''noc''" "clean_key ''ops''" by code_simp+
  show ?thesis
    by (subst group_requests_frame) (simp_all add: readable_def k group_lookup_def)
qed

end
