(* ===== verification/Sessions.thy ===== *)
theory Sessions
  imports AccessGroups
begin

text \<open>
  \<^verbatim>\<open>app/decorators.py\<close>: the checks every request makes on its session. The Flask
  session is a record whose fields are the keys the program stores; a key that is absent is
  \<open>None\<close>, and \<^verbatim>\<open>session.clear()\<close> is \<open>empty_session\<close>. What a request reads from
  its surroundings (clock, files, SSO session checker, configuration) is the record
  \<open>env\<close>. A check returns the answer to send instead of running the handler, or
  \<open>None\<close> to let it run, with the session it leaves.
\<close>

record session =
  s_user :: "string option"
  s_role :: "string option"
  s_ad_groups :: "string list option"
  s_auth_source :: "string option"
  s_allowed_tabs :: "string set option"
  s_login_at :: "int option"
  s_sso_login_at :: "rat option"
  s_csrf_token :: "string option"
  s_flashes :: "(string \<times> string) list"

definition empty_session :: session where
  "empty_session =
     \<lparr>s_user = None, s_role = None, s_ad_groups = None, s_auth_source = None,
      s_allowed_tabs = None, s_login_at = None, s_sso_login_at = None, s_csrf_token = None,
      s_flashes = []\<rparr>"

record env =
  now :: rat
  checker :: "(string \<Rightarrow> rat \<Rightarrow> bool) option"
  absolute_lifetime :: int
  users_json :: users_file
  groups_json :: groups_file
  known_tabs :: "string list"

datatype response =
    RedirectLogin
  | RedirectLoginNext string
  | JsonError string nat
  | Abort nat

definition is_api_path :: "string \<Rightarrow> bool" where
  "is_api_path path \<longleftrightarrow> startswith ''/api/'' path \<or> startswith ''/admin/api/'' path"

definition unauthenticated :: "string \<Rightarrow> string \<Rightarrow> response" where
  "unauthenticated message path = (if is_api_path path then JsonError message 401 else RedirectLogin)"

text \<open>The part of \<^verbatim>\<open>_revalidate_session\<close> that looks the user up again: it drops a
  session whose local account is gone, refreshes the role from the account, and recomputes the
  allowed tabs.\<close>

definition refresh_user ::
  "env \<Rightarrow> string \<Rightarrow> string \<Rightarrow> session \<Rightarrow> response option result \<times> session" where
  "refresh_user e path username s =
     (case load_users (users_json e) of
        Inl err \<Rightarrow> (Inl err, s)
      | Inr users \<Rightarrow>
          (let ads = or_default [] (s_ad_groups s);
               with_tabs = (\<lambda>s'.
                 case get_allowed_tabs (known_tabs e) username (Some ads) (s_role s')
                        (users_json e) (groups_json e) of
                   Inl err \<Rightarrow> (Inl err, s')
                 | Inr tabs \<Rightarrow> (Inr None, s'\<lparr>s_allowed_tabs := Some tabs\<rparr>))
           in case map_of users username of
                None \<Rightarrow>
                  if s_auth_source s = Some ''local'' \<or> or_default [] (s_role s) = []
                  then (Inr (Some (unauthenticated ''Not authenticated'' path)), empty_session)
                  else with_tabs s
              | Some entry \<Rightarrow> with_tabs (s\<lparr>s_role := Some (entry_role entry)\<rparr>)))"

definition revalidate_session :: "env \<Rightarrow> string \<Rightarrow> session \<Rightarrow> response option result \<times> session" where
  "revalidate_session e path s =
     (case s_login_at s of
        None \<Rightarrow> (Inr (Some RedirectLogin), empty_session)
      | Some login_at \<Rightarrow>
          (let username = or_default [] (s_user s) in
           if (case (s_sso_login_at s, checker e) of
                 (Some sso_at, Some valid) \<Rightarrow> \<not> valid username sso_at
               | _ \<Rightarrow> False)
             then (Inr (Some (unauthenticated ''Not authenticated'' path)), empty_session)
           else if now e - of_int login_at > of_int (absolute_lifetime e)
             then (Inr (Some (unauthenticated ''Session expired'' path)), empty_session)
           else if username \<noteq> [] then refresh_user e path username s
           else (Inr None, s)))"

definition no_user_response :: "string \<Rightarrow> response" where
  "no_user_response path =
     (if is_api_path path then JsonError ''Not authenticated'' 401 else RedirectLoginNext path)"

definition login_required :: "env \<Rightarrow> string \<Rightarrow> session \<Rightarrow> response option result \<times> session" where
  "login_required e path s =
     (if s_user s = None then (Inr (Some (no_user_response path)), s)
      else revalidate_session e path s)"

definition tab_required ::
  "string \<Rightarrow> env \<Rightarrow> string \<Rightarrow> session \<Rightarrow> response option result \<times> session" where
  "tab_required tab_key e path s =
     (if s_user s = None then (Inr (Some (no_user_response path)), s)
      else
        (case revalidate_session e path s of
           (Inr None, s') \<Rightarrow>
             if s_role s' \<noteq> Some ''admin'' \<and> tab_key \<notin> or_default {} (s_allowed_tabs s')
             then (Inr (Some (if is_api_path path then JsonError ''Access denied'' 403
                              else Abort 403)), s')
             else (Inr None, s')
         | r \<Rightarrow> r))"

definition admin_required :: "env \<Rightarrow> string \<Rightarrow> session \<Rightarrow> response option result \<times> session" where
  "admin_required e path s =
     (if s_user s = None then (Inr (Some (no_user_response path)), s)
      else
        (case revalidate_session e path s of
           (Inr None, s') \<Rightarrow>
             if s_role s' \<noteq> Some ''admin''
             then (Inr (Some (if is_api_path path then JsonError ''Admin role required'' 403
                              else Abort 403)), s')
             else (Inr None, s')
         | r \<Rightarrow> r))"

definition check_adom_access :: "env \<Rightarrow> string \<Rightarrow> session \<Rightarrow> response option result" where
  "check_adom_access e adom s =
     (if s_role s = Some ''admin'' then Inr None
      else bind_result
        (user_can_access_adom (or_default [] (s_user s)) adom (Some (or_default [] (s_ad_groups s)))
           (users_json e) (groups_json e))
        (\<lambda>ok. Inr (if ok then None
                   else Some (JsonError
                     (''Access to ADOM '' @ adom @ '' is not permitted for your account'') 403))))"

section \<open>Guarded API handlers\<close>

text \<open>What an API handler answers: its JSON, an error with its status, or the answer of a check;
  \<^verbatim>\<open>Unanswered\<close> is used where the fuel of a model's loop ran out.\<close>

datatype 'a api_response =
    ApiOk 'a
  | ApiError string nat
  | Guarded response
  | Unanswered

text \<open>A guarded handler: the tab check first, then the handler with the session it leaves. An
  exception of the guard is the left side.\<close>

definition behind_tab ::
  "string \<Rightarrow> env \<Rightarrow> string \<Rightarrow> (session \<Rightarrow> 'a api_response result) \<Rightarrow> session
   \<Rightarrow> 'a api_response result \<times> session" where
  "behind_tab tab e path handler s =
     (case tab_required tab e path s of
        (Inl err, s') \<Rightarrow> (Inl err, s')
      | (Inr (Some r), s') \<Rightarrow> (Inr (Guarded r), s')
      | (Inr None, s') \<Rightarrow> (handler s', s'))"

section \<open>What a passed check implies\<close>

lemma refresh_user_passes:
  assumes "refresh_user e path u s = (Inr None, s')"
  shows "\<exists>users. load_users (users_json e) = Inr users \<and>
    s_role s' = (case map_of users u of None \<Rightarrow> s_role s | Some x \<Rightarrow> Some (entry_role x)) \<and>
    (map_of users u = None \<longrightarrow> s_auth_source s \<noteq> Some ''local'' \<and> or_default [] (s_role s) \<noteq> []) \<and>
    get_allowed_tabs (known_tabs e) u (Some (or_default [] (s_ad_groups s))) (s_role s')
           (users_json e) (groups_json e) = Inr (or_default {} (s_allowed_tabs s')) \<and>
    s_user s' = s_user s \<and> s_auth_source s' = s_auth_source s \<and>
    s_login_at s' = s_login_at s \<and> s_sso_login_at s' = s_sso_login_at s"
  using assms
  by (auto simp: refresh_user_def Let_def split: sum.splits option.splits if_splits)

text \<open>The guards of \<^verbatim>\<open>_revalidate_session\<close> before the user is looked up again.\<close>

definition session_live :: "env \<Rightarrow> session \<Rightarrow> bool" where
  "session_live e s \<longleftrightarrow>
     (\<exists>t. s_login_at s = Some t \<and> now e - of_int t \<le> of_int (absolute_lifetime e)) \<and>
     (\<forall>sso_at valid. s_sso_login_at s = Some sso_at \<and> checker e = Some valid \<longrightarrow>
        valid (or_default [] (s_user s)) sso_at)"

lemma revalidate_not_live:
  "\<not> session_live e s \<Longrightarrow> \<exists>r. revalidate_session e path s = (Inr (Some r), empty_session)"
  by (auto simp: revalidate_session_def session_live_def Let_def split: option.splits)

lemma revalidate_live:
  "session_live e s \<Longrightarrow> revalidate_session e path s =
     (if or_default [] (s_user s) \<noteq> [] then refresh_user e path (or_default [] (s_user s)) s
      else (Inr None, s))"
  by (auto simp: revalidate_session_def session_live_def Let_def split: option.splits)

lemma guard_passes:
  "tab_required tab e path s = (Inr None, s') \<longleftrightarrow>
     s_user s \<noteq> None \<and> revalidate_session e path s = (Inr None, s') \<and>
     (s_role s' = Some ''admin'' \<or> tab \<in> or_default {} (s_allowed_tabs s'))"
  "admin_required e path s = (Inr None, s') \<longleftrightarrow>
     s_user s \<noteq> None \<and> revalidate_session e path s = (Inr None, s') \<and> s_role s' = Some ''admin''"
  "login_required e path s = (Inr None, s') \<longleftrightarrow>
     s_user s \<noteq> None \<and> revalidate_session e path s = (Inr None, s')"
  by (auto simp: tab_required_def admin_required_def login_required_def
       split: prod.splits sum.splits option.splits if_splits)

lemma revalidate_clears:
  assumes "revalidate_session e path s = (Inr (Some r), s')"
  shows "s' = empty_session"
  using assms
  by (auto simp: revalidate_session_def refresh_user_def Let_def
       split: option.splits sum.splits if_splits)

end
