(* ===== verification/RateLimiter.thy ===== *)
theory RateLimiter
  imports PyString
begin

text \<open>
  The sliding-window limiter of \<^verbatim>\<open>app/routes/auth_routes.py\<close>: two \<^verbatim>\<open>defaultdict\<close>s of
  failure times, by remote address and by normalised username. Reading a missing key of a
  \<^verbatim>\<open>defaultdict\<close> inserts it, so \<open>is_rate_limited\<close> leaves both keys behind. Every
  operation holds the lock for all of its reads and writes of the dictionaries, so each is one
  step; the clock reading is an argument.
\<close>

definition WINDOW_SECONDS :: rat where "WINDOW_SECONDS = 600"
definition IP_MAX :: nat where "IP_MAX = 10"
definition USER_MAX :: nat where "USER_MAX = 5"
definition USER_FAILURES_MAX_KEYS :: nat where "USER_FAILURES_MAX_KEYS = 10000"

record limiter =
  ip_failures :: "(string, rat list) dict"
  user_failures :: "(string, rat list) dict"

definition init_limiter :: limiter where
  "init_limiter = \<lparr>ip_failures = [], user_failures = []\<rparr>"

definition norm_username :: "string \<Rightarrow> string" where
  "norm_username username = lower (strip username)"

definition is_rate_limited :: "rat \<Rightarrow> string \<Rightarrow> string \<Rightarrow> limiter \<Rightarrow> bool \<times> limiter" where
  "is_rate_limited t ip username st =
     (let cutoff = t - WINDOW_SECONDS;
          nrm = norm_username username;
          ips = filter (\<lambda>x. x > cutoff) (dict_get (ip_failures st) ip []);
          us = filter (\<lambda>x. x > cutoff) (dict_get (user_failures st) nrm [])
      in (IP_MAX \<le> length ips \<or> USER_MAX \<le> length us,
          \<lparr>ip_failures = dict_set ip ips (ip_failures st),
           user_failures = dict_set nrm us (user_failures st)\<rparr>))"

text \<open>\<^verbatim>\<open>d[k].append(x)\<close> on a \<^verbatim>\<open>defaultdict(list)\<close>.\<close>

definition append_at :: "string \<Rightarrow> rat \<Rightarrow> (string, rat list) dict \<Rightarrow> (string, rat list) dict" where
  "append_at k t d = dict_set k (dict_get d k [] @ [t]) d"

definition evict_oldest :: "string \<Rightarrow> (string, rat list) dict \<Rightarrow> (string, rat list) dict" where
  "evict_oldest nrm d =
     (if USER_FAILURES_MAX_KEYS \<le> length d \<and> \<not> dict_has d nrm then dict_del (fst (hd d)) d else d)"

definition record_failure :: "rat \<Rightarrow> string \<Rightarrow> string \<Rightarrow> limiter \<Rightarrow> limiter" where
  "record_failure t ip username st =
     (let nrm = norm_username username
      in \<lparr>ip_failures = append_at ip t (ip_failures st),
          user_failures = append_at nrm t (evict_oldest nrm (user_failures st))\<rparr>)"

definition clear_failures :: "string \<Rightarrow> string \<Rightarrow> limiter \<Rightarrow> limiter" where
  "clear_failures ip username st =
     \<lparr>ip_failures = dict_del ip (ip_failures st),
      user_failures = dict_del (norm_username username) (user_failures st)\<rparr>"

section \<open>One login attempt\<close>

text \<open>What the login handler does to the limiter: check at time \<open>a\<close>; if the attempt is let
  through, either clear (right password) or record the failure at time \<open>b\<close>.\<close>

datatype outcome = Limited | Granted | Failed

record attempt =
  at_check :: rat
  at_record :: rat
  at_ip :: string
  at_user :: string
  at_right :: bool

definition attempt_step :: "attempt \<Rightarrow> limiter \<Rightarrow> outcome \<times> limiter" where
  "attempt_step a st =
     (case is_rate_limited (at_check a) (at_ip a) (at_user a) st of
        (True, st') \<Rightarrow> (Limited, st')
      | (False, st') \<Rightarrow>
          if at_right a then (Granted, clear_failures (at_ip a) (at_user a) st')
          else (Failed, record_failure (at_record a) (at_ip a) (at_user a) st'))"

fun run_attempts :: "attempt list \<Rightarrow> limiter \<Rightarrow> (attempt \<times> outcome) list \<times> limiter" where
  "run_attempts [] st = ([], st)"
| "run_attempts (a # as) st =
     (case attempt_step a st of
        (r, st') \<Rightarrow> (case run_attempts as st' of (trace, st'') \<Rightarrow> ((a, r) # trace, st'')))"

text \<open>The times of the failed attempts for which \<open>P\<close> holds, in order.\<close>

definition failure_times :: "(attempt \<Rightarrow> bool) \<Rightarrow> (attempt \<times> outcome) list \<Rightarrow> rat list" where
  "failure_times P trace = map (\<lambda>(a, _). at_record a) (filter (\<lambda>(a, r). P a \<and> r = Failed) trace)"

definition in_window :: "rat \<Rightarrow> rat list \<Rightarrow> nat" where
  "in_window t ts = length (filter (\<lambda>x. t - WINDOW_SECONDS < x \<and> x \<le> t) ts)"

text \<open>Attempts one after another on a clock that does not go back.\<close>

fun clock_ok :: "rat \<Rightarrow> attempt list \<Rightarrow> bool" where
  "clock_ok t [] = True"
| "clock_ok t (a # as) \<longleftrightarrow> t \<le> at_check a \<and> at_check a \<le> at_record a \<and> clock_ok (at_record a) as"

section \<open>The window of one key\<close>

lemma length_filter_imp: "(\<And>x. P x \<Longrightarrow> Q x) \<Longrightarrow> length (filter P xs) \<le> length (filter Q xs)"
  by (induction xs) auto

text \<open>The stored list of a key against the history of its recorded failures: they agree on
  everything newer than the window, and no window of the history exceeds the bound.\<close>

definition window_inv :: "nat \<Rightarrow> rat \<Rightarrow> rat list \<Rightarrow> rat list \<Rightarrow> bool" where
  "window_inv m now stored hist \<longleftrightarrow>
     filter (\<lambda>x. x > now - WINDOW_SECONDS) stored = filter (\<lambda>x. x > now - WINDOW_SECONDS) hist \<and>
     (\<forall>x \<in> set hist. x \<le> now) \<and> (\<forall>t. in_window t hist \<le> m)"

lemma filter_filter_later:
  "a \<le> (b::rat) \<Longrightarrow> filter (\<lambda>x. x > a - w) xs = filter (\<lambda>x. x > a - w) ys \<Longrightarrow>
     filter (\<lambda>x. x > b - w) xs = filter (\<lambda>x. x > b - w) ys"
proof -
  assume ab: "a \<le> b" and eq: "filter (\<lambda>x. x > a - w) xs = filter (\<lambda>x. x > a - w) ys"
  have "filter (\<lambda>x. x > b - w) zs = filter (\<lambda>x. x > b - w) (filter (\<lambda>x. x > a - w) zs)" for zs
    using ab by (auto intro: filter_cong)
  with eq show ?thesis by metis
qed

lemma window_inv_later:
  "window_inv m a stored hist \<Longrightarrow> a \<le> b \<Longrightarrow> window_inv m b stored hist"
  unfolding window_inv_def using filter_filter_later [of a b WINDOW_SECONDS stored hist] by auto

lemma window_inv_pruned:
  "window_inv m a stored hist \<Longrightarrow> a \<le> b \<Longrightarrow>
     window_inv m b (filter (\<lambda>x. x > b - WINDOW_SECONDS) stored) hist"
  using window_inv_later [of m a stored hist b] by (simp add: window_inv_def)

lemma window_inv_record:
  assumes inv: "window_inv m a stored hist" and "a \<le> b"
    and room: "length (filter (\<lambda>x. x > a - WINDOW_SECONDS) stored) < m"
  shows "window_inv m b (stored @ [b]) (hist @ [b])"
proof -
  have "in_window t (hist @ [b]) \<le> m" for t
  proof (cases "b \<le> t")
    case True
    have "in_window t hist \<le> length (filter (\<lambda>x. x > a - WINDOW_SECONDS) hist)"
      unfolding in_window_def
      using True \<open>a \<le> b\<close> by (intro length_filter_imp) auto
    with room inv show ?thesis by (simp add: in_window_def window_inv_def)
  next
    case False
    with inv show ?thesis by (simp add: in_window_def window_inv_def)
  qed
  moreover have "\<forall>x \<in> set (hist @ [b]). x \<le> b" using inv \<open>a \<le> b\<close> by (auto simp: window_inv_def)
  ultimately show ?thesis
    using inv filter_filter_later [OF \<open>a \<le> b\<close>, of WINDOW_SECONDS stored hist]
    by (simp add: window_inv_def)
qed


section \<open>Both keys of an attempt\<close>

text \<open>The check has just inserted the key of the user, so recording its failure never
  evicts.\<close>

lemma record_after_check:
  "record_failure b ip u (snd (is_rate_limited a ip u st)) =
     \<lparr>ip_failures = append_at ip b (ip_failures (snd (is_rate_limited a ip u st))),
      user_failures = append_at (norm_username u) b (user_failures (snd (is_rate_limited a ip u st)))\<rparr>"
  by (simp add: record_failure_def is_rate_limited_def Let_def evict_oldest_def)

definition user_list :: "limiter \<Rightarrow> string \<Rightarrow> rat list" where
  "user_list st nrm = dict_get (user_failures st) nrm []"

definition ip_list :: "limiter \<Rightarrow> string \<Rightarrow> rat list" where
  "ip_list st ip = dict_get (ip_failures st) ip []"

abbreviation of_user :: "string \<Rightarrow> attempt \<Rightarrow> bool" where
  "of_user nrm a \<equiv> norm_username (at_user a) = nrm"

abbreviation of_ip :: "string \<Rightarrow> attempt \<Rightarrow> bool" where
  "of_ip ip a \<equiv> at_ip a = ip"

text \<open>One attempt preserves the window invariant of a user's key unless that user logged in,
  and of an address's key unless somebody logged in from it.\<close>

definition attempt_failure :: "(attempt \<Rightarrow> bool) \<Rightarrow> attempt \<Rightarrow> outcome \<Rightarrow> rat list" where
  "attempt_failure P a r = (if P a \<and> r = Failed then [at_record a] else [])"

lemma attempt_user_inv:
  assumes "attempt_step a st = (r, st')" and "window_inv USER_MAX t (user_list st nrm) hist"
    and "t \<le> at_check a" and "at_check a \<le> at_record a" and "\<not> (of_user nrm a \<and> r = Granted)"
  shows "window_inv USER_MAX (at_record a) (user_list st' nrm) (hist @ attempt_failure (of_user nrm) a r)"
proof -
  let ?c = "at_check a" and ?us = "filter (\<lambda>x. x > at_check a - WINDOW_SECONDS) (user_list st nrm)"
  have pruned: "window_inv USER_MAX ?c ?us hist"
    using window_inv_pruned [OF assms(2, 3)] .
  have same: "window_inv USER_MAX (at_record a) (user_list st nrm) hist"
    using assms(2-4) by (blast intro: window_inv_later order_trans)
  have later: "window_inv USER_MAX (at_record a) ?us hist"
    using window_inv_later [OF pruned assms(4)] .
  have added: "length ?us < USER_MAX \<Longrightarrow> window_inv USER_MAX (at_record a) (?us @ [at_record a]) (hist @ [at_record a])"
    using window_inv_record [OF pruned assms(4)] by simp
  show ?thesis
  proof (cases "of_user nrm a")
    case True
    with assms(1, 5) later added show ?thesis
      by (auto simp: attempt_step_def is_rate_limited_def Let_def record_failure_def clear_failures_def
          append_at_def evict_oldest_def user_list_def attempt_failure_def split: if_splits bool.splits)
  next
    case False
    with assms(1) same show ?thesis
      by (auto simp: attempt_step_def is_rate_limited_def Let_def record_failure_def clear_failures_def
          append_at_def evict_oldest_def user_list_def attempt_failure_def split: if_splits bool.splits)
  qed
qed

lemma attempt_ip_inv:
  assumes "attempt_step a st = (r, st')" and "window_inv IP_MAX t (ip_list st ip) hist"
    and "t \<le> at_check a" and "at_check a \<le> at_record a" and "\<not> (of_ip ip a \<and> r = Granted)"
  shows "window_inv IP_MAX (at_record a) (ip_list st' ip) (hist @ attempt_failure (of_ip ip) a r)"
proof -
  let ?c = "at_check a" and ?us = "filter (\<lambda>x. x > at_check a - WINDOW_SECONDS) (ip_list st ip)"
  have pruned: "window_inv IP_MAX ?c ?us hist"
    using window_inv_pruned [OF assms(2, 3)] .
  have same: "window_inv IP_MAX (at_record a) (ip_list st ip) hist"
    using assms(2-4) by (blast intro: window_inv_later order_trans)
  have later: "window_inv IP_MAX (at_record a) ?us hist"
    using window_inv_later [OF pruned assms(4)] .
  have added: "length ?us < IP_MAX \<Longrightarrow> window_inv IP_MAX (at_record a) (?us @ [at_record a]) (hist @ [at_record a])"
    using window_inv_record [OF pruned assms(4)] by simp
  show ?thesis
  proof (cases "of_ip ip a")
    case True
    with assms(1, 5) later added show ?thesis
      by (auto simp: attempt_step_def is_rate_limited_def Let_def record_failure_def clear_failures_def
          append_at_def ip_list_def attempt_failure_def split: if_splits bool.splits)
  next
    case False
    with assms(1) same show ?thesis
      by (auto simp: attempt_step_def is_rate_limited_def Let_def record_failure_def clear_failures_def
          append_at_def ip_list_def attempt_failure_def split: if_splits bool.splits)
  qed
qed

section \<open>Runs of attempts\<close>

definition granted_to :: "(attempt \<Rightarrow> bool) \<Rightarrow> (attempt \<times> outcome) list \<Rightarrow> bool" where
  "granted_to P trace \<longleftrightarrow> (\<exists>(a, r) \<in> set trace. P a \<and> r = Granted)"

lemma failure_times_Cons: "failure_times P ((a, r) # trace) = attempt_failure P a r @ failure_times P trace"
  by (simp add: failure_times_def attempt_failure_def)

lemma granted_to_Cons: "granted_to P ((a, r) # trace) \<longleftrightarrow> P a \<and> r = Granted \<or> granted_to P trace"
  by (auto simp: granted_to_def)

lemma window_inv_init: "window_inv m t [] []"
  by (simp add: window_inv_def in_window_def)

text \<open>The contract both keys of an attempt satisfy: the stored list of the key keeps the window
  invariant over every attempt that does not clear it. The bound on runs follows once for
  both.\<close>

locale failure_window =
  fixes bound :: nat
    and stored :: "limiter \<Rightarrow> rat list"
    and counts :: "attempt \<Rightarrow> bool"
  assumes stored_init: "stored init_limiter = []"
    and step_inv: "attempt_step a st = (r, st') \<Longrightarrow> window_inv bound t (stored st) hist \<Longrightarrow>
      t \<le> at_check a \<Longrightarrow> at_check a \<le> at_record a \<Longrightarrow> \<not> (counts a \<and> r = Granted) \<Longrightarrow>
      window_inv bound (at_record a) (stored st') (hist @ attempt_failure counts a r)"
begin

lemma run_inv:
  assumes "run_attempts as st = (trace, st')" and "clock_ok t as"
    and "window_inv bound t (stored st) hist" and "\<not> granted_to counts trace"
  shows "\<exists>t'. window_inv bound t' (stored st') (hist @ failure_times counts trace)"
  using assms
proof (induction as arbitrary: st trace t hist)
  case Nil
  then show ?case by (auto simp: failure_times_def)
next
  case (Cons a as)
  obtain r st1 where s1: "attempt_step a st = (r, st1)" by (metis surj_pair)
  obtain trace1 st2 where r1: "run_attempts as st1 = (trace1, st2)" by (metis surj_pair)
  have tr: "trace = (a, r) # trace1" "st' = st2" using Cons.prems(1) s1 r1 by auto
  have "window_inv bound (at_record a) (stored st1) (hist @ attempt_failure counts a r)"
    using step_inv [OF s1 Cons.prems(3)] Cons.prems(2, 4) tr by (simp add: granted_to_Cons)
  with Cons.IH r1 Cons.prems(2, 4) tr
  have "\<exists>t'. window_inv bound t' (stored st2)
          ((hist @ attempt_failure counts a r) @ failure_times counts trace1)"
    by (metis clock_ok.simps(2) granted_to_Cons)
  then show ?case using tr by (simp add: failure_times_Cons)
qed

lemma run_bound:
  assumes "run_attempts as init_limiter = (trace, st')" and "clock_ok t0 as"
    and "\<not> granted_to counts trace"
  shows "in_window t (failure_times counts trace) \<le> bound"
proof -
  have "window_inv bound t0 (stored init_limiter) []" by (simp add: stored_init window_inv_init)
  with run_inv assms have "\<exists>t'. window_inv bound t' (stored st') ([] @ failure_times counts trace)" by blast
  then show ?thesis by (auto simp: window_inv_def)
qed

end

interpretation user_window: failure_window USER_MAX "\<lambda>st. user_list st nrm" "of_user nrm" for nrm
  by (unfold_locales, simp add: user_list_def init_limiter_def dict_get_def, rule attempt_user_inv)

interpretation ip_window: failure_window IP_MAX "\<lambda>st. ip_list st ip" "of_ip ip" for ip
  by (unfold_locales, simp add: ip_list_def init_limiter_def dict_get_def, rule attempt_ip_inv)

section \<open>The keys the limiter keeps\<close>

lemma attempt_keys:
  "\<not> at_right a \<Longrightarrow>
     fst ` set (user_failures (snd (attempt_step a st))) =
       insert (norm_username (at_user a)) (fst ` set (user_failures st)) \<and>
     fst ` set (ip_failures (snd (attempt_step a st))) = insert (at_ip a) (fst ` set (ip_failures st))"
  by (auto simp: attempt_step_def is_rate_limited_def Let_def record_failure_def append_at_def
      evict_oldest_def split: bool.splits)

text \<open>The bound of 10000 usernames is never applied: after any run of attempts that fail or are
  limited, the limiter holds one key for every distinct normalised username and every address
  tried, however many there were.\<close>

theorem limiter_keys_grow:
  assumes "list_all (\<lambda>a. \<not> at_right a) as"
  shows "fst ` set (user_failures (snd (run_attempts as init_limiter))) =
           (\<lambda>a. norm_username (at_user a)) ` set as \<and>
         fst ` set (ip_failures (snd (run_attempts as init_limiter))) = at_ip ` set as"
proof -
  have "fst ` set (user_failures (snd (run_attempts as st))) =
          fst ` set (user_failures st) \<union> (\<lambda>a. norm_username (at_user a)) ` set as \<and>
        fst ` set (ip_failures (snd (run_attempts as st))) =
          fst ` set (ip_failures st) \<union> at_ip ` set as" for st
    using assms
  proof (induction as arbitrary: st)
    case (Cons a as)
    have "snd (run_attempts (a # as) st) = snd (run_attempts as (snd (attempt_step a st)))"
      by (simp split: prod.splits)
    with Cons attempt_keys [of a st] show ?case by auto
  qed simp
  then show ?thesis by (simp add: init_limiter_def)
qed

definition guess :: "rat \<Rightarrow> string \<Rightarrow> string \<Rightarrow> attempt" where
  "guess t ip u = \<lparr>at_check = t, at_record = t, at_ip = ip, at_user = u, at_right = False\<rparr>"

lemma limiter_keys_grow_witness:
  "fst ` set (user_failures (snd (run_attempts
       (map (\<lambda>i. guess 0 (show_nat i) (show_nat i)) [0..<20000]) init_limiter))) =
     (\<lambda>i. norm_username (show_nat i)) ` {0..<20000}"
  using limiter_keys_grow [of "map (\<lambda>i. guess 0 (show_nat i) (show_nat i)) [0..<20000]"]
  by (simp add: list_all_iff guess_def image_image del: upt_conv_Cons)

section \<open>Attempts in parallel\<close>

text \<open>The lock is not held between the check and the record, so requests interleave: a check
  that passes puts the request in flight, and its record or its success takes it out. The state
  is the limiter and the number of requests in flight for one username, at most \<open>n\<close> at a time
  (the worker threads).\<close>

inductive conc_step :: "nat \<Rightarrow> string \<Rightarrow> limiter \<times> nat \<Rightarrow> limiter \<times> nat \<Rightarrow> bool"
  for n nrm where
    pass: "is_rate_limited t ip u st = (False, st') \<Longrightarrow> norm_username u = nrm \<Longrightarrow> k < n \<Longrightarrow>
      conc_step n nrm (st, k) (st', Suc k)"
  | limited: "is_rate_limited t ip u st = (True, st') \<Longrightarrow> conc_step n nrm (st, k) (st', k)"
  | other: "is_rate_limited t ip u st = (b, st') \<Longrightarrow> norm_username u \<noteq> nrm \<Longrightarrow>
      conc_step n nrm (st, k) (st', k)"
  | failed: "norm_username u = nrm \<Longrightarrow> conc_step n nrm (st, Suc k) (record_failure t ip u st, k)"
  | failed_other: "norm_username u \<noteq> nrm \<Longrightarrow> conc_step n nrm (st, k) (record_failure t ip u st, k)"
  | granted: "norm_username u = nrm \<Longrightarrow> conc_step n nrm (st, Suc k) (clear_failures ip u st, k)"
  | granted_other: "norm_username u \<noteq> nrm \<Longrightarrow> conc_step n nrm (st, k) (clear_failures ip u st, k)"

inductive_cases conc_stepE: "conc_step n nrm (st, k) s'"

lemma length_user_list_evict:
  "length (dict_get (evict_oldest nrm' d) nrm []) \<le> length (dict_get d nrm [])"
  by (simp add: evict_oldest_def)

definition conc_inv :: "nat \<Rightarrow> string \<Rightarrow> limiter \<times> nat \<Rightarrow> bool" where
  "conc_inv n nrm s \<longleftrightarrow>
     snd s \<le> n \<and> length (user_list (fst s) nrm) + snd s \<le> USER_MAX - 1 + n"

lemma conc_step_inv: "conc_step n nrm s s' \<Longrightarrow> conc_inv n nrm s \<Longrightarrow> conc_inv n nrm s'"
proof (induction rule: conc_step.induct)
  case (failed u st k t ip)
  then show ?case
    using length_user_list_evict [of nrm "user_failures st" nrm]
    by (simp add: conc_inv_def record_failure_def user_list_def append_at_def Let_def)
next
  case (failed_other u st k t ip)
  then show ?case
    using length_user_list_evict [of "norm_username u" "user_failures st" nrm]
    by (simp add: conc_inv_def record_failure_def user_list_def append_at_def Let_def)
qed (auto simp: conc_inv_def is_rate_limited_def user_list_def clear_failures_def Let_def USER_MAX_def
      split: if_splits intro: le_trans [OF add_right_mono [OF length_filter_le]])

text \<open>C40. Running the check and the record of several requests in any interleaving, with at most
  \<open>n\<close> requests of a user between the two at a time, never records more than \<open>n - 1\<close> failures
  beyond the limit of five: the list of the user together with the requests in flight stays
  within \<open>4 + n\<close>.\<close>

theorem concurrent_overshoot_bound:
  assumes "(conc_step n nrm)\<^sup>*\<^sup>* (init_limiter, 0) (st, k)"
  shows "length (user_list st nrm) + k \<le> USER_MAX - 1 + n"
proof -
  have "conc_inv n nrm (init_limiter, 0)"
    by (simp add: conc_inv_def user_list_def init_limiter_def dict_get_def)
  with assms have "conc_inv n nrm (st, k)"
    by (induction rule: rtranclp_induct) (auto intro: conc_step_inv)
  then show ?thesis by (simp add: conc_inv_def)
qed

lemma concurrent_overshoot_bound_witness:
  "length (user_list (record_failure 2 ''1'' ''ana'' (snd (is_rate_limited 1 ''1'' ''ana'' init_limiter))) ''ana'')
     + 0 \<le> USER_MAX - 1 + 1"
proof (rule concurrent_overshoot_bound)
  let ?st = "snd (is_rate_limited 1 ''1'' ''ana'' init_limiter)"
  have u: "norm_username ''ana'' = ''ana''" by code_simp
  have c: "is_rate_limited 1 ''1'' ''ana'' init_limiter = (False, ?st)" by code_simp
  have "conc_step 1 ''ana'' (init_limiter, 0) (?st, Suc 0)" by (rule pass [OF c u]) simp
  moreover have "conc_step 1 ''ana'' (?st, Suc 0) (record_failure 2 ''1'' ''ana'' ?st, 0)" by (rule failed [OF u])
  ultimately show "(conc_step 1 ''ana'')\<^sup>*\<^sup>* (init_limiter, 0) (record_failure 2 ''1'' ''ana'' ?st, 0)"
    by (meson converse_rtranclp_into_rtranclp rtranclp.rtrancl_refl)
qed

end
