(* ===== verification/AppLogger.thy ===== *)
theory AppLogger
  imports PyString
begin

text \<open>
  \<^verbatim>\<open>app/app_logger.py\<close>: the in-memory ring buffer of log entries. The module state (the
  \<^verbatim>\<open>deque\<close> with \<^verbatim>\<open>maxlen\<close> and the current level) is a record; the clock is the
  argument \<open>ts\<close>. An unknown level name has rank 0, as
  \<^verbatim>\<open>_LEVEL_RANK.get(level, 0)\<close> gives it.
\<close>

definition LEVELS :: "string list" where
  "LEVELS = [''TRACE'', ''DEBUG'', ''INFO'', ''WARN'', ''ERROR'']"

definition MAX_ENTRIES :: nat where
  "MAX_ENTRIES = 2000"

definition LEVEL_RANK :: "(string, nat) dict" where
  "LEVEL_RANK = zip LEVELS [0..<length LEVELS]"

definition level_rank :: "string \<Rightarrow> nat" where
  "level_rank lvl = dict_get LEVEL_RANK lvl 0"

record log_entry =
  log_ts :: string
  log_level :: string
  log_component :: string
  log_message :: string
  log_extra :: "(string, string) dict"

record logger =
  buffer :: "log_entry list"
  current_level :: string

definition init_logger :: logger where
  "init_logger = \<lparr>buffer = [], current_level = ''INFO''\<rparr>"

definition set_log_level :: "string \<Rightarrow> logger \<Rightarrow> logger result" where
  "set_log_level level st =
     (let lvl = upper level in
      if \<not> dict_has LEVEL_RANK lvl
        then Inl (ValueError (''Invalid log level '' @ lvl))
      else Inr (st\<lparr>current_level := lvl\<rparr>))"

text \<open>Appending to a \<^verbatim>\<open>deque(maxlen=m)\<close> drops the oldest entry when it is full.\<close>

definition deque_append :: "nat \<Rightarrow> 'a \<Rightarrow> 'a list \<Rightarrow> 'a list" where
  "deque_append m x xs = (let ys = xs @ [x] in drop (length ys - m) ys)"

definition app_log ::
  "string \<Rightarrow> string \<Rightarrow> string \<Rightarrow> string \<Rightarrow> (string, string) dict \<Rightarrow> logger \<Rightarrow> logger" where
  "app_log ts level component message extra st =
     (let lvl = upper level in
      if level_rank lvl < level_rank (current_level st) then st
      else
        (let entry = \<lparr>log_ts = ts, log_level = lvl, log_component = component,
                      log_message = message, log_extra = extra\<rparr>
         in st\<lparr>buffer := deque_append MAX_ENTRIES entry (buffer st)\<rparr>))"

text \<open>\<^verbatim>\<open>xs[-n:]\<close> for a positive \<open>n\<close>: the last \<open>n\<close> elements.\<close>

definition last_n :: "nat \<Rightarrow> 'a list \<Rightarrow> 'a list" where
  "last_n n xs = drop (length xs - n) xs"

definition get_log_entries :: "string option \<Rightarrow> string option \<Rightarrow> int \<Rightarrow> logger \<Rightarrow> log_entry list"
  where
  "get_log_entries level component n st =
     (let limit = max 1 (min n (int MAX_ENTRIES));
          entries = buffer st;
          by_level =
            (if or_default [] level \<noteq> []
             then filter (\<lambda>e. level_rank (upper (or_default [] level)) \<le> level_rank (log_level e))
                    entries
             else entries);
          by_component =
            (if or_default [] component \<noteq> []
             then filter (\<lambda>e. log_component e = or_default [] component) by_level
             else by_level)
      in last_n (nat limit) by_component)"

definition clear_log_entries :: "logger \<Rightarrow> logger" where
  "clear_log_entries st = st\<lparr>buffer := []\<rparr>"

datatype log_op =
    Log string string string string "(string, string) dict"
  | SetLevel string
  | Clear

fun log_step :: "log_op \<Rightarrow> logger \<Rightarrow> logger" where
  "log_step (Log ts level component message extra) st = app_log ts level component message extra st"
| "log_step (SetLevel level) st = (case set_log_level level st of Inl _ \<Rightarrow> st | Inr st' \<Rightarrow> st')"
| "log_step Clear st = clear_log_entries st"

section \<open>Lemmas\<close>

lemma length_deque_append: "length (deque_append m x xs) \<le> m"
  by (simp add: deque_append_def Let_def)

lemma deque_append_last_n: "0 < m \<Longrightarrow> deque_append m x (last_n m xs) = last_n m (xs @ [x])"
  by (cases "m \<le> length xs") (simp_all add: deque_append_def last_n_def Let_def Suc_diff_le)

lemma length_last_n: "length (last_n n xs) = min n (length xs)"
  by (simp add: last_n_def)

text \<open>The state invariant: the buffer is within its bound and the level is a known one.\<close>

definition logger_ok :: "logger \<Rightarrow> bool" where
  "logger_ok st \<longleftrightarrow> length (buffer st) \<le> MAX_ENTRIES \<and> current_level st \<in> set LEVELS"

lemma level_rank_known: "dict_has LEVEL_RANK lvl \<longleftrightarrow> lvl \<in> set LEVELS"
  by (simp add: LEVEL_RANK_def LEVELS_def)

lemma log_step_ok: "logger_ok st \<Longrightarrow> logger_ok (log_step x st)"
  by (cases x)
    (auto simp: logger_ok_def app_log_def set_log_level_def clear_log_entries_def Let_def
       length_deque_append level_rank_known simp del: dict_has_lookup split: if_splits)

section \<open>Properties\<close>

text \<open>
  The log buffer is bounded and its level is always a known one: after any sequence of log
  calls, level changes (accepted or refused) and clears from the initial state, at most 2000
  entries are held and the threshold is one of the five level names.
\<close>

theorem logger_invariant:
  "length (buffer (fold log_step xs init_logger)) \<le> 2000 \<and>
   current_level (fold log_step xs init_logger) \<in> set LEVELS"
proof -
  have "logger_ok st \<Longrightarrow> logger_ok (fold log_step xs st)" for st
    by (induction xs arbitrary: st) (auto simp: log_step_ok)
  moreover have "logger_ok init_logger"
    by (simp add: logger_ok_def init_logger_def LEVELS_def)
  ultimately show ?thesis by (auto simp: logger_ok_def MAX_ENTRIES_def)
qed

text \<open>
  The ring buffer is a sliding window: logging a sequence of messages that all pass the
  threshold leaves exactly the last 2000 of what was there followed by them, in order.
\<close>

theorem ring_buffer_window:
  assumes "\<forall>(ts, l, c, m, e) \<in> set ms. level_rank (current_level st) \<le> level_rank (upper l)"
    and "length (buffer st) \<le> 2000"
  shows "buffer (fold (\<lambda>(ts, l, c, m, e). app_log ts l c m e) ms st) =
    last_n 2000 (buffer st @ map (\<lambda>(ts, l, c, m, e).
      \<lparr>log_ts = ts, log_level = upper l, log_component = c, log_message = m, log_extra = e\<rparr>) ms)"
proof -
  have "buffer (fold (\<lambda>(ts, l, c, m, e). app_log ts l c m e) ms (st\<lparr>buffer := last_n 2000 b\<rparr>)) =
    last_n 2000 (b @ map (\<lambda>(ts, l, c, m, e).
      \<lparr>log_ts = ts, log_level = upper l, log_component = c, log_message = m, log_extra = e\<rparr>) ms)"
    for b
    using assms(1)
  proof (induction ms arbitrary: b)
    case (Cons x ms)
    obtain ts l c m e where x: "x = (ts, l, c, m, e)" by (cases x) auto
    let ?b = "b @ [\<lparr>log_ts = ts, log_level = upper l, log_component = c, log_message = m,
      log_extra = e\<rparr>]"
    have "app_log ts l c m e (st\<lparr>buffer := last_n 2000 b\<rparr>) = st\<lparr>buffer := last_n 2000 ?b\<rparr>"
      using Cons.prems x
      by (auto simp: app_log_def Let_def MAX_ENTRIES_def deque_append_last_n not_less [symmetric])
    then show ?case using Cons.IH [of ?b] Cons.prems x by simp
  qed simp
  from this [of "buffer st"] show ?thesis
    using assms(2) by (simp add: last_n_def)
qed

theorem ring_buffer_window_witness:
  "map log_message (buffer (fold (\<lambda>(ts, l, c, m, e). app_log ts l c m e)
     [(''t1'', ''info'', ''auth'', ''a'', []), (''t2'', ''error'', ''auth'', ''b'', [])] init_logger))
   = [''a'', ''b'']"
proof -
  have r: "level_rank ''INFO'' \<le> level_rank (upper ''info'')"
    "level_rank ''INFO'' \<le> level_rank (upper ''error'')" by code_simp+
  show ?thesis
    by (subst ring_buffer_window) (simp_all add: init_logger_def r last_n_def)
qed

text \<open>
  Reading the log always returns between zero and 2000 of the newest entries that pass the
  filters, in order, whatever limit the caller asks for: the limit is clamped to 1..2000, so
  zero and negative limits return one entry rather than the whole buffer.
\<close>

theorem log_entries_limit:
  "get_log_entries level component n st =
     last_n (nat (max 1 (min n 2000))) (filter (\<lambda>e.
        (or_default [] level = [] \<or>
           level_rank (upper (or_default [] level)) \<le> level_rank (log_level e)) \<and>
        (or_default [] component = [] \<or> log_component e = or_default [] component)) (buffer st))"
  by (simp add: get_log_entries_def Let_def MAX_ENTRIES_def conj_commute)

end
