(* ===== verification/IpAddress.thy ===== *)
theory IpAddress
  imports PyString
begin

text \<open>
  What the program uses of Python's \<^verbatim>\<open>ipaddress\<close> module: parsing IPv4 and IPv6
  addresses (IPv6 with its \<open>::\<close> abbreviation, embedded IPv4 suffix and scope
  identifier), networks with \<^verbatim>\<open>strict=False\<close>, comparison by integer value, and the
  canonical text of both, with the compression of the longest run of zero groups. A
  \<^verbatim>\<open>ValueError\<close> is \<open>None\<close>.
\<close>

datatype ip = V4 nat | V6 nat "string option"

fun ip_version :: "ip \<Rightarrow> nat" where
  "ip_version (V4 _) = 4"
| "ip_version (V6 _ _) = 6"

fun ip_int :: "ip \<Rightarrow> nat" where
  "ip_int (V4 n) = n"
| "ip_int (V6 n _) = n"

section \<open>IPv4\<close>

definition parse_octet :: "string \<Rightarrow> nat option" where
  "parse_octet s =
     (if s \<noteq> [] \<and> list_all ascii_digit s \<and> length s \<le> 3 \<and> (s = ''0'' \<or> hd s \<noteq> CHR ''0'')
         \<and> decimal_value s \<le> 255
      then Some (decimal_value s) else None)"

definition from_digits :: "nat \<Rightarrow> nat list \<Rightarrow> nat" where
  "from_digits b ds = foldl (\<lambda>n d. b * n + d) 0 ds"

definition parse_v4 :: "string \<Rightarrow> nat option" where
  "parse_v4 s =
     (let octets = map parse_octet (split_on (CHR ''.'') s) in
      if length octets = 4 \<and> list_all (\<lambda>x. x \<noteq> None) octets
      then Some (from_digits 256 (map the octets)) else None)"

text \<open>The digits of a number in a base, most significant first, at a fixed width.\<close>

fun to_digits :: "nat \<Rightarrow> nat \<Rightarrow> nat \<Rightarrow> nat list" where
  "to_digits b 0 n = []"
| "to_digits b (Suc k) n = to_digits b k (n div b) @ [n mod b]"

definition show_v4 :: "nat \<Rightarrow> string" where
  "show_v4 n = join_with ''.'' (map show_nat (to_digits 256 4 n))"

section \<open>IPv6\<close>

definition hex_digit_value :: "char \<Rightarrow> nat option" where
  "hex_digit_value c =
     (if ascii_digit c then Some (code c - 48)
      else if 97 \<le> code c \<and> code c \<le> 102 then Some (code c - 87)
      else if 65 \<le> code c \<and> code c \<le> 70 then Some (code c - 55)
      else None)"

definition parse_hextet :: "string \<Rightarrow> nat option" where
  "parse_hextet s =
     (let vs = map hex_digit_value s in
      if s \<noteq> [] \<and> list_all (\<lambda>v. v \<noteq> None) vs \<and> length s \<le> 4
      then Some (from_digits 16 (map the vs)) else None)"

definition hex_char :: "nat \<Rightarrow> char" where
  "hex_char n = (if n < 10 then char_of (48 + n) else char_of (87 + n))"

fun show_hex :: "nat \<Rightarrow> string" where
  "show_hex n = (if n < 16 then [hex_char n] else show_hex (n div 16) @ [hex_char (n mod 16)])"

declare show_hex.simps [simp del]

definition hextets_value :: "string list \<Rightarrow> nat option" where
  "hextets_value hs =
     (let vs = map parse_hextet hs in
      if list_all (\<lambda>v. v \<noteq> None) vs then Some (from_digits 65536 (map the vs)) else None)"

text \<open>The parts around the colons, with a trailing dotted IPv4 address turned into two
  groups.\<close>

definition v6_parts :: "string \<Rightarrow> string list option" where
  "v6_parts s =
     (let parts = split_on (CHR '':'') s in
      if length parts < 3 then None
      else if CHR ''.'' \<in> set (last parts) then
        (case parse_v4 (last parts) of
           None \<Rightarrow> None
         | Some v \<Rightarrow> Some (butlast parts @ [show_hex (v div 65536 mod 65536), show_hex (v mod 65536)]))
      else Some parts)"

definition parse_v6 :: "string \<Rightarrow> nat option" where
  "parse_v6 s =
     (if s = [] then None
      else case v6_parts s of
        None \<Rightarrow> None
      | Some parts \<Rightarrow>
          (let n = length parts;
               gaps = filter (\<lambda>i. parts ! i = []) [1..<n - 1]
           in
             if 9 < n then None
             else case gaps of
               [] \<Rightarrow>
                 if n \<noteq> 8 \<or> hd parts = [] \<or> last parts = [] then None else hextets_value parts
             | [skip] \<Rightarrow>
                 (let hi = (if hd parts = [] then skip - 1 else skip);
                      lo = (if last parts = [] then n - skip - 2 else n - skip - 1)
                  in if hd parts = [] \<and> hi \<noteq> 0 \<or> last parts = [] \<and> lo \<noteq> 0 \<or> 8 \<le> hi + lo
                     then None
                     else hextets_value
                       (take hi parts @ replicate (8 - (hi + lo)) ''0'' @ drop (n - lo) parts))
             | _ \<Rightarrow> None))"

text \<open>\<^verbatim>\<open>_compress_hextets\<close>: find the first longest run of \<open>0\<close> groups, then cut it
  out. The state is the best run so far and the current one.\<close>

fun zero_runs :: "nat \<Rightarrow> string list \<Rightarrow> nat \<times> nat \<Rightarrow> (nat \<times> nat) option \<Rightarrow> nat \<times> nat" where
  "zero_runs i [] best cur = best"
| "zero_runs i (h # hs) best cur =
     (if h = ''0'' then
        (let (start, len) = (case cur of None \<Rightarrow> (i, 1) | Some (s, l) \<Rightarrow> (s, Suc l));
             best' = (if snd best < len then (start, len) else best)
         in zero_runs (Suc i) hs best' (Some (start, len)))
      else zero_runs (Suc i) hs best None)"

definition compress_hextets :: "string list \<Rightarrow> string list" where
  "compress_hextets hs =
     (let (start, len) = zero_runs 0 hs (0, 0) None in
      if 1 < len then
        (let stop = start + len;
             hs1 = (if stop = length hs then hs @ [[]] else hs);
             hs2 = take start hs1 @ [[]] @ drop stop hs1
         in if start = 0 then [] # hs2 else hs2)
      else hs)"

definition show_v6 :: "nat \<Rightarrow> string" where
  "show_v6 n = join_with '':'' (compress_hextets (map show_hex (to_digits 65536 8 n)))"

text \<open>\<^verbatim>\<open>IPv6Address(s)\<close>: the text after the first \<open>%\<close> is a scope identifier of any
  characters but \<open>%\<close> itself and the slash.\<close>

definition parse_v6_scoped :: "string \<Rightarrow> ip option" where
  "parse_v6_scoped s =
     (if CHR ''/'' \<in> set s then None
      else
        (case partition_at (CHR ''%'') s of
           (hst, sep, scope) \<Rightarrow>
             if \<not> sep then map_option (\<lambda>n. V6 n None) (parse_v6 hst)
             else if scope = [] \<or> CHR ''%'' \<in> set scope then None
             else map_option (\<lambda>n. V6 n (Some scope)) (parse_v6 hst)))"

section \<open>Addresses and networks\<close>

definition ip_address :: "string \<Rightarrow> ip option" where
  "ip_address s =
     (case parse_v4 s of Some n \<Rightarrow> Some (V4 n) | None \<Rightarrow> parse_v6_scoped s)"

fun show_ip :: "ip \<Rightarrow> string" where
  "show_ip (V4 n) = show_v4 n"
| "show_ip (V6 n None) = show_v6 n"
| "show_ip (V6 n (Some scope)) = show_v6 n @ CHR ''%'' # scope"

definition prefix_from_string :: "nat \<Rightarrow> string \<Rightarrow> nat option" where
  "prefix_from_string maxlen s =
     (if s \<noteq> [] \<and> list_all ascii_digit s \<and> decimal_value s \<le> maxlen
      then Some (decimal_value s) else None)"

text \<open>\<^verbatim>\<open>_prefix_from_ip_int\<close>: a mask is ones followed by zeros.\<close>

definition prefix_from_mask :: "nat \<Rightarrow> nat option" where
  "prefix_from_mask m = find (\<lambda>p. m = (2 ^ p - 1) * 2 ^ (32 - p)) [0..<33]"

definition v4_prefix :: "string \<Rightarrow> nat option" where
  "v4_prefix s =
     (case prefix_from_string 32 s of
        Some p \<Rightarrow> Some p
      | None \<Rightarrow>
          (case parse_v4 s of
             None \<Rightarrow> None
           | Some m \<Rightarrow>
               (case prefix_from_mask m of
                  Some p \<Rightarrow> Some p
                | None \<Rightarrow> prefix_from_mask (2 ^ 32 - 1 - m))))"

definition mask_host_bits :: "nat \<Rightarrow> nat \<Rightarrow> nat" where
  "mask_host_bits bits n = n - n mod 2 ^ bits"

text \<open>\<^verbatim>\<open>str(ip_network(s, strict=False))\<close> of an entry with a slash. A scope identifier
  survives when the address has no host bits to clear.\<close>

definition network_string :: "string \<Rightarrow> string option" where
  "network_string s =
     (case split_on (CHR ''/'') s of
        [hst, plen] \<Rightarrow>
          (case (parse_v4 hst, v4_prefix plen) of
             (Some n, Some p) \<Rightarrow>
               Some (show_v4 (mask_host_bits (32 - p) n) @ ''/'' @ show_nat p)
           | _ \<Rightarrow>
               (case (parse_v6_scoped hst, prefix_from_string 128 plen) of
                  (Some (V6 n scope), Some p) \<Rightarrow>
                    (let m = mask_host_bits (128 - p) n
                     in Some (show_ip (V6 m (if m = n then scope else None)) @ ''/'' @ show_nat p))
                | _ \<Rightarrow> None))
      | _ \<Rightarrow> None)"

section \<open>Lemmas\<close>

lemma from_digits_snoc [simp]: "from_digits b (ds @ [d]) = b * from_digits b ds + d"
  by (simp add: from_digits_def)

lemma length_to_digits [simp]: "length (to_digits b k n) = k"
  by (induction k arbitrary: n) auto

lemma to_digits_bound: "0 < b \<Longrightarrow> d \<in> set (to_digits b k n) \<Longrightarrow> d < b"
  by (induction k arbitrary: n) auto

lemma from_to_digits: "0 < b \<Longrightarrow> n < b ^ k \<Longrightarrow> from_digits b (to_digits b k n) = n"
proof (induction k arbitrary: n)
  case 0
  then show ?case by (simp add: from_digits_def)
next
  case (Suc k)
  then have "n div b < b ^ k" by (simp add: less_mult_imp_div_less mult.commute)
  with Suc show ?case by simp
qed

lemma show_nat_small: "n < 10 \<Longrightarrow> show_nat n = [digit_char n]"
  by (subst show_nat.simps) simp

lemma show_nat_big: "10 \<le> n \<Longrightarrow> show_nat n = show_nat (n div 10) @ [digit_char (n mod 10)]"
  by (subst show_nat.simps) simp

lemma show_nat_hd: "0 < n \<Longrightarrow> hd (show_nat n) \<noteq> CHR ''0''"
proof (induction n rule: show_nat.induct)
  case (1 n)
  show ?case
  proof (cases "n < 10")
    case True
    then have "code (digit_char n) \<noteq> code (CHR ''0'')"
      using 1 by (simp add: digit_char_props)
    then show ?thesis using True by (auto simp: show_nat_small)
  next
    case False
    with 1 have "hd (show_nat (n div 10)) \<noteq> CHR ''0''" by simp
    with False show ?thesis by (simp add: show_nat_big show_nat_not_Nil)
  qed
qed

lemma length_show_octet: "n \<le> 255 \<Longrightarrow> length (show_nat n) \<le> 3"
  by (cases "n < 10"; cases "n div 10 < 10")
    (auto simp: show_nat_small show_nat_big show_nat_big [of "n div 10"] show_nat_small [of "n div 100"]
       div_mult2_eq [symmetric])

lemma parse_show_octet: "n \<le> 255 \<Longrightarrow> parse_octet (show_nat n) = Some n"
  using show_nat_hd [of n] length_show_octet [of n]
  using decimal_value_show_nat [of n]
  by (cases "n = 0")
    (simp_all add: parse_octet_def show_nat_digits show_nat_not_Nil show_nat_small digit_char_def
       ascii_digit_def)

lemma digits_no_dot: "list_all ascii_digit s \<Longrightarrow> CHR ''.'' \<notin> set s"
  by (auto simp: list_all_iff ascii_digit_def)

lemma parse_show_v4:
  assumes "n < 2 ^ 32"
  shows "parse_v4 (show_v4 n) = Some n"
proof -
  let ?ds = "to_digits 256 4 n"
  have b: "\<forall>d \<in> set ?ds. d \<le> 255"
    using to_digits_bound [of 256 _ 4 n] by fastforce
  have ne: "?ds \<noteq> []" by (metis length_0_conv length_to_digits zero_neq_numeral)
  have "split_on (CHR ''.'') (show_v4 n) = map show_nat ?ds"
    unfolding show_v4_def
    by (rule split_on_join) (use ne digits_no_dot show_nat_digits in auto)
  moreover have "map parse_octet (map show_nat ?ds) = map Some ?ds"
    using b by (simp add: parse_show_octet)
  ultimately have octets: "map parse_octet (split_on (CHR ''.'') (show_v4 n)) = map Some ?ds"
    by simp
  show ?thesis
    using from_to_digits [of 256 n 4] assms
    by (simp add: parse_v4_def octets list_all_iff comp_def Let_def del: to_digits.simps)
qed

lemma show_v4_chars: "set (show_v4 n) \<subseteq> {c. ascii_digit c} \<union> {CHR ''.''}"
  using set_join_with [of "''.''" "map show_nat (to_digits 256 4 n)"] show_nat_digits
  by (auto simp: show_v4_def list_all_iff)

definition hex_lower :: "char \<Rightarrow> bool" where
  "hex_lower c \<longleftrightarrow> ascii_digit c \<or> 97 \<le> code c \<and> code c \<le> 102"

lemma hex_char_lower: "n < 16 \<Longrightarrow> hex_lower (hex_char n)"
  by (auto simp: hex_char_def hex_lower_def ascii_digit_def)

lemma show_hex_chars: "c \<in> set (show_hex n) \<Longrightarrow> hex_lower c"
proof (induction n rule: show_hex.induct)
  case (1 n)
  then show ?case
    by (subst (asm) (2) show_hex.simps) (auto simp: hex_char_lower split: if_splits)
qed

lemma compress_set: "set (compress_hextets hs) \<subseteq> insert [] (set hs)"
  by (auto simp: compress_hextets_def Let_def split: prod.splits if_splits dest: in_set_takeD in_set_dropD)

lemma show_v6_chars: "set (show_v6 n) \<subseteq> {c. hex_lower c} \<union> {CHR '':''}"
proof -
  let ?hs = "compress_hextets (map show_hex (to_digits 65536 8 n))"
  have "\<forall>h \<in> set ?hs. \<forall>c \<in> set h. hex_lower c"
    using compress_set [of "map show_hex (to_digits 65536 8 n)"] show_hex_chars by fastforce
  then show ?thesis
    using set_join_with [of "'':''" ?hs] by (fastforce simp: show_v6_def)
qed

end
