(* ===== verification/Registry.thy ===== *)
theory Registry
  imports Prelude
begin

text \<open>
  \<^verbatim>\<open>app/registry.py\<close>: the navigation tabs in the order their blueprints registered them.
  The module-level dictionary is the argument and result of \<open>register\<close>.
\<close>

record tab_meta =
  tab_name :: string
  tab_endpoint :: string
  tab_icon :: string

type_synonym registry = "(string, tab_meta) dict"

definition register :: "string \<Rightarrow> string \<Rightarrow> string \<Rightarrow> string \<Rightarrow> registry \<Rightarrow> registry" where
  "register k nm endpoint icon r =
     dict_set k \<lparr>tab_name = nm, tab_endpoint = endpoint, tab_icon = icon\<rparr> r"

definition get_registry :: "registry \<Rightarrow> registry" where
  "get_registry r = r"

definition registry_tabs :: "registry \<Rightarrow> (string, string) dict" where
  "registry_tabs r = map (\<lambda>(k, v). (k, tab_name v)) r"

text \<open>The registrations of the three blueprints with a tab, in import order.\<close>

definition app_registry :: registry where
  "app_registry =
     register ''admin'' ''Admin'' ''admin.admin_page'' []
       (register ''log_search'' ''Log Search'' ''log_search.index'' []
         (register ''dashboard'' ''Dashboard'' ''dashboard.index'' [] []))"

lemma registry_tabs_keys: "map fst (registry_tabs r) = map fst r"
  by (simp add: registry_tabs_def split_def comp_def)

end
