(* ===== verification/AuthRoutes.thy ===== *)
theory AuthRoutes
  imports Sessions RateLimiter AppLogger IpAddress Registry
begin

text \<open>
  \<^verbatim>\<open>app/routes/auth_routes.py\<close>: the three handlers that establish and end sessions. The
  server's state is the limiter and the log; the session is the client's, an argument and a
  result of each handler. bcrypt and the token verifier are arguments; \<^verbatim>\<open>url_for\<close> is a
  function from endpoints to paths. An exception is the left side of the response, with the
  state and session it leaves.
\<close>

record server =
  srv_limiter :: limiter
  srv_log :: logger

record login_request =
  lr_post :: bool
  lr_username :: string
  lr_password :: string
  lr_remote :: "string option"
  lr_next :: string
  lr_check :: rat
  lr_record :: rat
  lr_stamp :: string

datatype auth_response =
    LoginPage nat
  | RedirectTo string
  | Forbid

section \<open>Redirect targets\<close>

definition ascii_alpha :: "char \<Rightarrow> bool" where
  "ascii_alpha c \<longleftrightarrow> ascii_upper c \<or> ascii_lower c"

text \<open>\<^verbatim>\<open>urlsplit\<close> first strips leading control characters and spaces and deletes tabs and
  line ends.\<close>

definition url_clean :: "string \<Rightarrow> string" where
  "url_clean url =
     filter (\<lambda>c. code c \<notin> {9, 10, 13}) (dropWhile (\<lambda>c. code c \<le> 32) url)"

definition split_scheme :: "string \<Rightarrow> string \<times> string" where
  "split_scheme u =
     (case partition_at (CHR '':'') u of
        (pre, sep, rest) \<Rightarrow>
          if sep \<and> pre \<noteq> [] \<and> ascii_alpha (hd pre) \<and>
             list_all (\<lambda>c. ascii_alnum c \<or> c \<in> set ''+-.'') pre
          then (lower pre, rest) else ([], u))"

definition split_netloc :: "string \<Rightarrow> string \<times> string" where
  "split_netloc u =
     (if startswith ''//'' u
      then (takeWhile (\<lambda>c. c \<notin> set ''/?#'') (drop 2 u), dropWhile (\<lambda>c. c \<notin> set ''/?#'') (drop 2 u))
      else ([], u))"

text \<open>The checks on a host in brackets, as in Python 3.12: an IPvFuture address or an IPv6
  address.\<close>

definition bracketed_host_ok :: "string \<Rightarrow> bool" where
  "bracketed_host_ok host =
     (if startswith ''v'' host then
        (let hexs = takeWhile (\<lambda>c. hex_digit_value c \<noteq> None) (drop 1 host);
             after = dropWhile (\<lambda>c. hex_digit_value c \<noteq> None) (drop 1 host)
         in hexs \<noteq> [] \<and> startswith ''.'' after \<and> length after > 1)
      else (case ip_address host of Some (V6 _ _) \<Rightarrow> True | _ \<Rightarrow> False))"

definition netloc_ok :: "string \<Rightarrow> bool" where
  "netloc_ok netloc =
     (let opens = CHR ''['' \<in> set netloc; closes = CHR '']'' \<in> set netloc in
      opens = closes \<and>
      (opens \<longrightarrow> bracketed_host_ok
        (fst (partition_at (CHR '']'') (snd (snd (partition_at (CHR ''['') netloc)))))))"

text \<open>Scheme, network location and path. The parameters \<^verbatim>\<open>urlparse\<close> splits off the last
  segment never reach the first character of the path, the only one looked at.\<close>

definition urlparse :: "string \<Rightarrow> (string \<times> string \<times> string) result" where
  "urlparse url =
     (case split_scheme (url_clean url) of
        (scheme, rest) \<Rightarrow>
          (case split_netloc rest of
             (netloc, tail) \<Rightarrow>
               if \<not> netloc_ok netloc then Inl (ValueError ''Invalid IPv6 URL'')
               else Inr (scheme, netloc, takeWhile (\<lambda>c. c \<notin> set ''?#'') tail)))"

definition safe_redirect :: "string \<Rightarrow> bool result" where
  "safe_redirect url =
     bind_result (urlparse url) (\<lambda>(scheme, netloc, path).
       Inr (scheme = [] \<and> netloc = [] \<and> startswith ''/'' path \<and> url \<noteq> ''/login''))"

definition first_allowed_url :: "(string \<Rightarrow> string) \<Rightarrow> registry \<Rightarrow> string set \<Rightarrow> string" where
  "first_allowed_url url_for reg allowed =
     (case find (\<lambda>(k, _). k \<in> allowed) (get_registry reg) of
        None \<Rightarrow> url_for ''auth.login''
      | Some (_, meta) \<Rightarrow> url_for (tab_endpoint meta))"

section \<open>The handlers\<close>

definition flash :: "string \<Rightarrow> string \<Rightarrow> session \<Rightarrow> session" where
  "flash message category s = s\<lparr>s_flashes := s_flashes s @ [(category, message)]\<rparr>"

definition auth_log ::
  "string \<Rightarrow> string \<Rightarrow> string \<Rightarrow> (string, string) dict \<Rightarrow> server \<Rightarrow> server" where
  "auth_log stamp level message extra st =
     st\<lparr>srv_log := app_log stamp level ''auth'' message extra (srv_log st)\<rparr>"

text \<open>What both ways in do once the user is known: a fresh session with the identity, the tabs of
  the groups, and the login time.\<close>

definition identity_session :: "string \<Rightarrow> string \<Rightarrow> string list \<Rightarrow> string \<Rightarrow> session" where
  "identity_session username role ads source =
     empty_session\<lparr>s_user := Some username, s_role := Some role, s_ad_groups := Some ads,
                   s_auth_source := Some source\<rparr>"

definition login ::
  "(string \<Rightarrow> string \<Rightarrow> bool result) \<Rightarrow> (string \<Rightarrow> string) \<Rightarrow> registry \<Rightarrow> env \<Rightarrow> login_request
   \<Rightarrow> server \<Rightarrow> session \<Rightarrow> auth_response result \<times> server \<times> session" where
  "login checkpw url_for reg e req st s =
     (if \<not> lr_post req then (Inr (LoginPage 200), st, s)
      else
        (let username = strip (lr_username req); password = lr_password req in
         if username = [] \<or> password = []
         then (Inr (LoginPage 400), st, flash ''Username and password are required.'' ''danger'' s)
         else
           (let ip = or_default [] (lr_remote req) in
            case is_rate_limited (lr_check req) ip username (srv_limiter st) of
              (True, lmt) \<Rightarrow>
                (Inr (LoginPage 429),
                 auth_log (lr_stamp req) ''WARN'' ''Login rate-limited''
                   [(''username'', username), (''remote'', ip)] (st\<lparr>srv_limiter := lmt\<rparr>),
                 flash ''Too many failed attempts. Please wait before trying again.'' ''danger'' s)
            | (False, lmt) \<Rightarrow>
                (case authenticate checkpw username password (users_json e) of
                   Inl err \<Rightarrow> (Inl err, st\<lparr>srv_limiter := lmt\<rparr>, s)
                 | Inr None \<Rightarrow>
                     (Inr (LoginPage 401),
                      auth_log (lr_stamp req) ''WARN'' ''Failed login attempt''
                        [(''username'', username), (''remote'', ip)]
                        (st\<lparr>srv_limiter := record_failure (lr_record req) ip username lmt\<rparr>),
                      flash ''Invalid credentials.'' ''danger'' s)
                 | Inr (Some (role, ads)) \<Rightarrow>
                     (let st1 = st\<lparr>srv_limiter := clear_failures ip username lmt\<rparr>;
                          s1 = identity_session username role ads ''local''
                      in case get_allowed_tabs (known_tabs e) username (Some ads) (Some role)
                                (users_json e) (groups_json e) of
                           Inl err \<Rightarrow> (Inl err, st1, s1)
                         | Inr allowed \<Rightarrow>
                             (let s2 = s1\<lparr>s_allowed_tabs := Some allowed,
                                          s_login_at := Some \<lfloor>now e\<rfloor>\<rparr>;
                                  st2 = auth_log (lr_stamp req) ''INFO'' ''Login successful''
                                          [(''username'', username), (''role'', role)] st1;
                                  next_url = strip (lr_next req);
                                  go_home =
                                    (Inr (RedirectTo (first_allowed_url url_for reg allowed)), st2,
                                     if allowed = {}
                                     then flash ''Your account has no tabs assigned. Contact an administrator.''
                                            ''warning'' s2
                                     else s2)
                              in if next_url = [] then go_home
                                 else (case safe_redirect next_url of
                                         Inl err \<Rightarrow> (Inl err, st2, s2)
                                       | Inr True \<Rightarrow> (Inr (RedirectTo next_url), st2, s2)
                                       | Inr False \<Rightarrow> go_home)))))))"

definition sso_login ::
  "(string \<Rightarrow> string option) \<Rightarrow> (string \<Rightarrow> string) \<Rightarrow> registry \<Rightarrow> env \<Rightarrow> string \<Rightarrow> string
   \<Rightarrow> server \<Rightarrow> session \<Rightarrow> auth_response result \<times> server \<times> session" where
  "sso_login verify url_for reg e token stamp st s =
     (case verify token of
        None \<Rightarrow> (Inr Forbid, st, s)
      | Some username \<Rightarrow>
          (let s1 = identity_session username ''sso'' [] ''sso'' in
           case get_allowed_tabs (known_tabs e) username (Some []) (Some ''sso'')
                  (users_json e) (groups_json e) of
             Inl err \<Rightarrow> (Inl err, st, s1)
           | Inr allowed \<Rightarrow>
               (let s2 = s1\<lparr>s_allowed_tabs := Some allowed, s_login_at := Some \<lfloor>now e\<rfloor>,
                            s_sso_login_at := Some (now e)\<rparr>
                in (Inr (RedirectTo (first_allowed_url url_for reg allowed)),
                    auth_log stamp ''INFO'' ''SSO login successful'' [(''username'', username)] st,
                    if allowed = {}
                    then flash ''Your account has no tabs assigned. Contact an administrator.''
                           ''warning'' s2
                    else s2))))"

definition logout ::
  "(string \<Rightarrow> string) \<Rightarrow> string \<Rightarrow> server \<Rightarrow> session \<Rightarrow> auth_response result \<times> server \<times> session" where
  "logout url_for stamp st s =
     (Inr (RedirectTo (url_for ''auth.login'')),
      auth_log stamp ''INFO'' ''Logout'' [(''username'', or_default ''unknown'' (s_user s))] st,
      empty_session)"

section \<open>Redirect targets, characterised\<close>

lemma startswith_Cons [simp]: "startswith (c # p) s \<longleftrightarrow> (case s of [] \<Rightarrow> False | d # t \<Rightarrow> d = c \<and> startswith p t)"
  by (cases s) (auto simp: startswith_def)

lemma startswith_Nil [simp]: "startswith [] s"
  by (simp add: startswith_def)

lemma split_scheme_slash: "split_scheme (CHR ''/'' # r) = ([], CHR ''/'' # r)"
  by (auto simp: split_scheme_def partition_at_def ascii_alpha_def ascii_upper_def ascii_lower_def)

lemma split_scheme_none: "split_scheme u = ([], t) \<Longrightarrow> t = u"
  by (auto simp: split_scheme_def partition_at_def lower_def split: if_splits)

lemma netloc_ok_Nil: "netloc_ok []"
  by (simp add: netloc_ok_def)

text \<open>\<open>_safe_redirect\<close> accepts a target exactly when, after the cleaning \<^verbatim>\<open>urlsplit\<close> does, it
  begins with one slash or with three, and it is not \<^verbatim>\<open>/login\<close>. So an absolute URL, a scheme
  or \<open>//host\<close> is never followed, but three or more slashes before a host are, although a
  browser reads them as \<open>//host\<close>.\<close>

theorem safe_redirect_iff:
  "safe_redirect url = Inr True \<longleftrightarrow>
     (let u = url_clean url in
      url \<noteq> ''/login'' \<and> startswith ''/'' u \<and> (startswith ''//'' u = startswith ''///'' u))"
proof (cases "url_clean url")
  case Nil
  then show ?thesis
    by (simp add: safe_redirect_def urlparse_def split_scheme_def partition_at_def split_netloc_def
        netloc_ok_Nil)
next
  case (Cons c r)
  show ?thesis
  proof (cases "c = CHR ''/''")
    case True
    then show ?thesis
      using Cons
      by (auto simp: safe_redirect_def urlparse_def split_scheme_slash split_netloc_def netloc_ok_Nil
          split: list.splits)
  next
    case False
    then have "split_netloc (url_clean url) = ([], url_clean url)"
      using Cons by (simp add: split_netloc_def)
    moreover have "\<not> startswith ''/'' (takeWhile (\<lambda>x. x \<notin> set ''?#'') (url_clean url))"
      using False Cons by simp
    ultimately have "safe_redirect url \<noteq> Inr True"
      using split_scheme_none [of "url_clean url"]
      by (auto simp: safe_redirect_def urlparse_def split: prod.splits if_splits)
    with False Cons show ?thesis by (simp add: Let_def)
  qed
qed

section \<open>Rate limiting of logins\<close>

text \<open>What a login request does to the limiter, as an attempt: it counts when the form is
  filled in, and it is right when the account file accepts it.\<close>

definition counted :: "login_request \<Rightarrow> bool" where
  "counted req \<longleftrightarrow> lr_post req \<and> strip (lr_username req) \<noteq> [] \<and> lr_password req \<noteq> []"

definition attempt_of ::
  "(string \<Rightarrow> string \<Rightarrow> bool result) \<Rightarrow> env \<Rightarrow> login_request \<Rightarrow> attempt" where
  "attempt_of checkpw e req =
     \<lparr>at_check = lr_check req, at_record = lr_record req, at_ip = or_default [] (lr_remote req),
      at_user = strip (lr_username req),
      at_right = (case authenticate checkpw (strip (lr_username req)) (lr_password req) (users_json e)
                    of Inr (Some _) \<Rightarrow> True | _ \<Rightarrow> False)\<rparr>"

text \<open>The account file can be read and bcrypt answers, so no request ends in an exception
  before the password is judged.\<close>

definition judges :: "(string \<Rightarrow> string \<Rightarrow> bool result) \<Rightarrow> env \<Rightarrow> login_request \<Rightarrow> bool" where
  "judges checkpw e req \<longleftrightarrow>
     (case authenticate checkpw (strip (lr_username req)) (lr_password req) (users_json e) of
        Inr _ \<Rightarrow> True | Inl _ \<Rightarrow> False)"

lemma login_limiter:
  assumes "counted req" and "judges checkpw e req"
    and "login checkpw url_for reg e req st s = (r, st', s')"
  shows "\<exists>out. attempt_step (attempt_of checkpw e req) (srv_limiter st) = (out, srv_limiter st') \<and>
           (r = Inr (LoginPage 401) \<longleftrightarrow> out = Failed) \<and> (r = Inr (LoginPage 429) \<longleftrightarrow> out = Limited)"
  using assms
  by (auto simp: counted_def judges_def login_def attempt_of_def attempt_step_def Let_def auth_log_def
      split: bool.splits option.splits sum.splits prod.splits if_splits)

lemma login_not_counted:
  "\<not> counted req \<Longrightarrow> login checkpw url_for reg e req st s = (r, st', s') \<Longrightarrow>
     srv_limiter st' = srv_limiter st \<and> r \<noteq> Inr (LoginPage 401) \<and> r \<noteq> Inr (LoginPage 429)"
  by (auto simp: counted_def login_def Let_def split: if_splits)

text \<open>A server answering login requests one after another, each with the files and the session
  it finds.\<close>

fun run_logins ::
  "(string \<Rightarrow> string \<Rightarrow> bool result) \<Rightarrow> (string \<Rightarrow> string) \<Rightarrow> registry
   \<Rightarrow> (env \<times> login_request \<times> session) list \<Rightarrow> server
   \<Rightarrow> (login_request \<times> auth_response result) list \<times> server" where
  "run_logins checkpw url_for reg [] st = ([], st)"
| "run_logins checkpw url_for reg ((e, req, s) # xs) st =
     (case login checkpw url_for reg e req st s of
        (r, st1, _) \<Rightarrow>
          (case run_logins checkpw url_for reg xs st1 of (trace, st2) \<Rightarrow> ((req, r) # trace, st2)))"

fun login_clock :: "rat \<Rightarrow> login_request list \<Rightarrow> bool" where
  "login_clock t [] = True"
| "login_clock t (req # reqs) \<longleftrightarrow>
     t \<le> lr_check req \<and> lr_check req \<le> lr_record req \<and> login_clock (lr_record req) reqs"

definition wrong_in_window ::
  "(login_request \<Rightarrow> bool) \<Rightarrow> rat \<Rightarrow> (login_request \<times> auth_response result) list \<Rightarrow> nat" where
  "wrong_in_window P t trace =
     length (filter (\<lambda>(req, r). P req \<and> r = Inr (LoginPage 401) \<and>
       t - WINDOW_SECONDS < lr_record req \<and> lr_record req \<le> t) trace)"

text \<open>No counted request for which \<open>P\<close> holds got past the password check.\<close>

definition none_passed ::
  "(login_request \<Rightarrow> bool) \<Rightarrow> (login_request \<times> auth_response result) list \<Rightarrow> bool" where
  "none_passed P trace =
     list_all (\<lambda>(req, r). \<not> (P req \<and> counted req) \<or> r = Inr (LoginPage 401) \<or> r = Inr (LoginPage 429)) trace"

lemma clock_ok_mono: "clock_ok t as \<Longrightarrow> t' \<le> t \<Longrightarrow> clock_ok t' as"
  by (cases as) auto

abbreviation attempts_of ::
  "(string \<Rightarrow> string \<Rightarrow> bool result) \<Rightarrow> (env \<times> login_request \<times> session) list \<Rightarrow> attempt list" where
  "attempts_of checkpw xs \<equiv>
     map (\<lambda>(e, req, _). attempt_of checkpw e req) (filter (\<lambda>(_, req, _). counted req) xs)"

lemma login_clock_attempts:
  "login_clock t (map (\<lambda>(_, req, _). req) xs) \<Longrightarrow> clock_ok t (attempts_of checkpw xs)"
  by (induction xs arbitrary: t) (auto simp: attempt_of_def intro: clock_ok_mono)

lemma in_window_Cons: "in_window t (x # xs) = (if t - WINDOW_SECONDS < x \<and> x \<le> t then 1 else 0) + in_window t xs"
  by (simp add: in_window_def)

lemma run_logins_attempts:
  assumes "run_logins checkpw url_for reg xs st = (trace, st')"
    and "list_all (\<lambda>(e, req, _). judges checkpw e req) xs"
    and PQ: "\<And>e req. Q (attempt_of checkpw e req) = P req"
  shows "\<exists>tr. run_attempts (attempts_of checkpw xs) (srv_limiter st) = (tr, srv_limiter st') \<and>
           in_window t (failure_times Q tr) = wrong_in_window P t trace \<and>
           (none_passed P trace \<longrightarrow> \<not> granted_to Q tr)"
  using assms(1, 2)
proof (induction xs arbitrary: st trace)
  case Nil
  then show ?case
    by (simp add: failure_times_def in_window_def wrong_in_window_def granted_to_def)
next
  case (Cons x xs)
  obtain e req s where x: "x = (e, req, s)" by (metis prod_cases3)
  obtain r st1 s1 where l: "login checkpw url_for reg e req st s = (r, st1, s1)" by (metis prod_cases3)
  obtain trace1 where r1: "run_logins checkpw url_for reg xs st1 = (trace1, st')"
    and tr: "trace = (req, r) # trace1"
    using Cons.prems(1) x l by (auto split: prod.splits)
  from Cons.IH [OF r1] Cons.prems(2) obtain tr1 where
    tr1: "run_attempts (attempts_of checkpw xs) (srv_limiter st1) = (tr1, srv_limiter st')"
    "in_window t (failure_times Q tr1) = wrong_in_window P t trace1"
    "none_passed P trace1 \<longrightarrow> \<not> granted_to Q tr1" by auto
  show ?case
  proof (cases "counted req")
    case True
    have "judges checkpw e req" using Cons.prems(2) x by simp
    from login_limiter [OF True this l] obtain out where
      out: "attempt_step (attempt_of checkpw e req) (srv_limiter st) = (out, srv_limiter st1)"
      "r = Inr (LoginPage 401) \<longleftrightarrow> out = Failed" "r = Inr (LoginPage 429) \<longleftrightarrow> out = Limited" by blast
    have rec: "at_record (attempt_of checkpw e req) = lr_record req" by (simp add: attempt_of_def)
    have "none_passed P trace \<longrightarrow> \<not> granted_to Q ((attempt_of checkpw e req, out) # tr1)"
      using tr1(3) out True tr PQ by (auto simp: none_passed_def granted_to_Cons)
    moreover have "in_window t (failure_times Q ((attempt_of checkpw e req, out) # tr1)) =
        wrong_in_window P t trace"
      using tr1(2) out tr PQ
      by (auto simp: failure_times_Cons attempt_failure_def wrong_in_window_def in_window_Cons rec)
    ultimately show ?thesis using True x out(1) tr1(1) by simp
  next
    case False
    from login_not_counted [OF False l] tr tr1 x False show ?thesis
      by (auto simp: wrong_in_window_def none_passed_def)
  qed
qed

text \<open>C3. Password guessing is bounded: over any sequence of login requests on one server, with
  any account files and sessions, as long as a username's password is not guessed, at most five
  requests for it (however it is spelled in case and surrounding white space) are answered
  \<open>401\<close> within any 600 seconds; and as long as nobody logs in from an address, at most ten
  requests from it are. Every other request is refused before the password is looked at.\<close>

theorem login_guesses_bounded:
  assumes "run_logins checkpw url_for reg xs \<lparr>srv_limiter = init_limiter, srv_log = lg\<rparr> = (trace, st')"
    and "list_all (\<lambda>(e, req, _). judges checkpw e req) xs"
    and "login_clock t0 (map (\<lambda>(_, req, _). req) xs)"
  shows "(none_passed (\<lambda>req. norm_username (lr_username req) = u) trace \<longrightarrow>
            wrong_in_window (\<lambda>req. norm_username (lr_username req) = u) t trace \<le> 5) \<and>
         (none_passed (\<lambda>req. or_default [] (lr_remote req) = ip) trace \<longrightarrow>
            wrong_in_window (\<lambda>req. or_default [] (lr_remote req) = ip) t trace \<le> 10)"
proof -
  have clk: "clock_ok t0 (attempts_of checkpw xs)" by (rule login_clock_attempts [OF assms(3)])
  have u: "of_user u (attempt_of checkpw e req) = (norm_username (lr_username req) = u)" for e req
    by (simp add: attempt_of_def norm_username_def)
  have i: "of_ip ip (attempt_of checkpw e req) = (or_default [] (lr_remote req) = ip)" for e req
    by (simp add: attempt_of_def)
  show ?thesis
    using run_logins_attempts [where Q = "of_user u", OF assms(1, 2) u, of t]
      run_logins_attempts [where Q = "of_ip ip", OF assms(1, 2) i, of t]
      user_window.run_bound [OF _ clk, of _ _ u t] ip_window.run_bound [OF _ clk, of _ _ ip t]
    by (auto simp: USER_MAX_def IP_MAX_def)
qed

definition sample_users :: users_file where
  "sample_users = Content [(''ana'', \<lparr>password_hash = Some ''h'', user_role = Some ''admin''\<rparr>)]"

definition sample_env :: "rat \<Rightarrow> users_file \<Rightarrow> env" where
  "sample_env t us =
     \<lparr>now = t, checker = None, absolute_lifetime = 36000, users_json = us, groups_json = Absent,
      known_tabs = [''dashboard'', ''log_search'', ''admin'']\<rparr>"

definition login_try :: "nat \<Rightarrow> string \<Rightarrow> string \<Rightarrow> login_request" where
  "login_try i u p =
     \<lparr>lr_post = True, lr_username = u, lr_password = p, lr_remote = Some ''10.0.0.9'', lr_next = [],
      lr_check = of_nat i, lr_record = of_nat i, lr_stamp = []\<rparr>"

definition guessing :: "(env \<times> login_request \<times> session) list" where
  "guessing = map (\<lambda>i. (sample_env 0 sample_users, login_try i '' Ana'' ''x'', empty_session)) [1..<7]"

lemma login_guesses_bounded_witness:
  "wrong_in_window (\<lambda>req. norm_username (lr_username req) = ''ana'') 10
     (fst (run_logins (\<lambda>_ _. Inr False) id [] guessing
       \<lparr>srv_limiter = init_limiter, srv_log = init_logger\<rparr>)) \<le> 5"
proof -
  let ?run = "run_logins (\<lambda>_ _. Inr False) id [] guessing
                \<lparr>srv_limiter = init_limiter, srv_log = init_logger\<rparr>"
  have j: "list_all (\<lambda>(e, req, _). judges (\<lambda>_ _. Inr False) e req) guessing" by code_simp
  have c: "login_clock 0 (map (\<lambda>(_, req, _). req) guessing)" by code_simp
  have n: "none_passed (\<lambda>req. norm_username (lr_username req) = ''ana'') (fst ?run)" by code_simp
  show ?thesis
    using login_guesses_bounded [of "\<lambda>_ _. Inr False" id "[]" guessing init_logger "fst ?run" "snd ?run" 0
        "''ana''" 10 "[]"] j c n
    by simp
qed

section \<open>What a login leaves behind\<close>

text \<open>A limited login reveals nothing and costs nothing: the answer, the server state and the
  session after a request the limiter stops are the same whatever the password, the account and
  group files, the clock and bcrypt are.\<close>

theorem limited_login_is_blind:
  assumes "fst (is_rate_limited (lr_check req) (or_default [] (lr_remote req)) (strip (lr_username req))
             (srv_limiter st))"
    and "lr_password req \<noteq> []" and "p \<noteq> []"
  shows "login checkpw url_for reg e req st s =
         login checkpw' url_for reg' e' (req\<lparr>lr_password := p\<rparr>) st s"
  using assms by (auto simp: login_def Let_def split: prod.splits bool.splits)

definition busy_limiter :: limiter where
  "busy_limiter = \<lparr>ip_failures = [], user_failures = [(''ana'', [1, 2, 3, 4, 5])]\<rparr>"

lemma limited_login_is_blind_witness:
  "login (\<lambda>_ _. Inr True) id [] (sample_env 0 sample_users) (login_try 9 ''ana'' ''right'')
       \<lparr>srv_limiter = busy_limiter, srv_log = init_logger\<rparr> empty_session =
     login (\<lambda>_ _. Inr False) id [] (sample_env 5 Absent) ((login_try 9 ''ana'' ''right'')\<lparr>lr_password := ''y''\<rparr>)
       \<lparr>srv_limiter = busy_limiter, srv_log = init_logger\<rparr> empty_session"
  by (rule limited_login_is_blind) (code_simp+)

text \<open>The session a successful local login establishes.\<close>

definition login_session :: "env \<Rightarrow> string \<Rightarrow> string \<Rightarrow> string list \<Rightarrow> string set \<Rightarrow> session" where
  "login_session e username role ads allowed =
     (identity_session username role ads ''local'')
       \<lparr>s_allowed_tabs := Some allowed, s_login_at := Some \<lfloor>now e\<rfloor>\<rparr>"

definition no_tabs_flash :: "session \<Rightarrow> session" where
  "no_tabs_flash =
     flash ''Your account has no tabs assigned. Contact an administrator.'' ''warning''"

lemma login_redirect_cases:
  assumes "login checkpw url_for reg e req st s = (Inr (RedirectTo loc), st', s')"
  obtains role ads allowed where
    "authenticate checkpw (strip (lr_username req)) (lr_password req) (users_json e) = Inr (Some (role, ads))"
    and "get_allowed_tabs (known_tabs e) (strip (lr_username req)) (Some ads) (Some role)
           (users_json e) (groups_json e) = Inr allowed"
    and "strip (lr_username req) \<noteq> []"
    and "loc = strip (lr_next req) \<and> safe_redirect loc = Inr True \<and>
           s' = login_session e (strip (lr_username req)) role ads allowed \<or>
         loc = first_allowed_url url_for reg allowed \<and>
           s' = (if allowed = {} then no_tabs_flash else id)
                  (login_session e (strip (lr_username req)) role ads allowed)"
    and "\<And>s0. login checkpw url_for reg e req st s0 = (Inr (RedirectTo loc), st', s')"
  using assms
  by (auto simp: login_def Let_def login_session_def no_tabs_flash_def
      split: if_splits prod.splits bool.splits sum.splits option.splits)

text \<open>C35. A successful login carries nothing over: when a request is answered with a redirect, its
  credentials authenticated, the session is the fresh one of that account (role from the account
  file, tabs recomputed, no CSRF token, no earlier SSO login) whatever session came with the
  request, and the target is a path \<open>_safe_redirect\<close> accepted or the page of the first
  registered tab the account may open.\<close>

theorem login_session_fresh:
  assumes "login checkpw url_for reg e req st s = (Inr (RedirectTo loc), st', s')"
  shows "\<exists>role ads allowed.
           authenticate checkpw (strip (lr_username req)) (lr_password req) (users_json e) =
             Inr (Some (role, ads)) \<and>
           get_allowed_tabs (known_tabs e) (strip (lr_username req)) (Some ads) (Some role)
             (users_json e) (groups_json e) = Inr allowed \<and>
           s'\<lparr>s_flashes := []\<rparr> = login_session e (strip (lr_username req)) role ads allowed \<and>
           s_csrf_token s' = None \<and> s_sso_login_at s' = None \<and>
           (safe_redirect loc = Inr True \<or> loc = first_allowed_url url_for reg allowed) \<and>
           (\<forall>s0. login checkpw url_for reg e req st s0 = (Inr (RedirectTo loc), st', s'))"
  using assms
  by (rule login_redirect_cases)
    (auto simp: login_session_def no_tabs_flash_def flash_def identity_session_def empty_session_def)

lemma login_session_fresh_witness:
  "\<exists>role ads allowed.
     authenticate (\<lambda>_ _. Inr True) ''ana'' ''x'' sample_users = Inr (Some (role, ads)) \<and>
     allowed = {''dashboard'', ''log_search'', ''admin''} \<and>
     safe_redirect ''/log-search'' = Inr True"
proof -
  let ?req = "(login_try 9 ''ana'' ''x'')\<lparr>lr_next := ''/log-search''\<rparr>"
  let ?st = "\<lparr>srv_limiter = init_limiter, srv_log = init_logger\<rparr>"
  obtain r st' s' where l: "login (\<lambda>_ _. Inr True) id app_registry (sample_env 7 sample_users) ?req ?st
      empty_session = (r, st', s')" by (metis prod_cases3)
  moreover have "fst (login (\<lambda>_ _. Inr True) id app_registry (sample_env 7 sample_users) ?req ?st
      empty_session) = Inr (RedirectTo ''/log-search'')" by code_simp
  ultimately have "login (\<lambda>_ _. Inr True) id app_registry (sample_env 7 sample_users) ?req ?st
      empty_session = (Inr (RedirectTo ''/log-search''), st', s')" by simp
  from login_session_fresh [OF this] have
    "\<exists>role ads. authenticate (\<lambda>_ _. Inr True) (strip ''ana'') ''x'' sample_users = Inr (Some (role, ads))"
    by (auto simp: login_try_def sample_env_def)
  moreover have "strip ''ana'' = ''ana''" "safe_redirect ''/log-search'' = Inr True" by code_simp+
  ultimately show ?thesis by simp
qed

end
