(* ===== verification/Security.thy ===== *)
theory Security
  imports Sessions
begin

text \<open>
  \<^verbatim>\<open>app/security.py\<close> and the request filter of \<^verbatim>\<open>app/__init__.py\<close>: the CSRF token of
  the session and the check every state-changing request passes before its handler runs.
  \<^verbatim>\<open>secrets.token_urlsafe\<close> and \<^verbatim>\<open>uuid4\<close> are arguments (the token, the error id).
\<close>

record http_request =
  rq_method :: string
  rq_path :: string
  rq_endpoint :: string
  rq_header_token :: "string option"
  rq_form_token :: "string option"

definition ensure_csrf_token :: "string \<Rightarrow> session \<Rightarrow> string \<times> session" where
  "ensure_csrf_token fresh s =
     (if or_default [] (s_csrf_token s) = [] then (fresh, s\<lparr>s_csrf_token := Some fresh\<rparr>)
      else (or_default [] (s_csrf_token s), s))"

text \<open>\<^verbatim>\<open>hmac.compare_digest\<close> of two strings: a \<^verbatim>\<open>TypeError\<close> unless both are ASCII.\<close>

definition compare_digest :: "string \<Rightarrow> string \<Rightarrow> bool result" where
  "compare_digest a b =
     (if list_all (\<lambda>c. code c < 128) a \<and> list_all (\<lambda>c. code c < 128) b then Inr (a = b)
      else Inl (TypeError ''comparing strings with non-ASCII characters is not supported''))"

definition provided_token :: "http_request \<Rightarrow> string" where
  "provided_token rq =
     (if or_default [] (rq_header_token rq) \<noteq> [] then or_default [] (rq_header_token rq)
      else or_default [] (rq_form_token rq))"

definition validate_csrf_request :: "http_request \<Rightarrow> session \<Rightarrow> bool result" where
  "validate_csrf_request rq s =
     (let expected = or_default [] (s_csrf_token s) in
      if expected = [] then Inr False else compare_digest expected (provided_token rq))"

text \<open>The two forms of the refusal, JSON for the API paths and plain text otherwise.\<close>

datatype refusal = JsonRefusal string nat | TextRefusal string nat

definition csrf_error_response :: "string \<Rightarrow> refusal" where
  "csrf_error_response path =
     (if is_api_path path then JsonRefusal ''CSRF validation failed'' 400
      else TextRefusal ''CSRF validation failed'' 400)"

definition file_too_large :: "string \<Rightarrow> refusal" where
  "file_too_large path =
     (if is_api_path path then JsonRefusal ''Uploaded file is too large'' 413
      else TextRefusal ''Uploaded file is too large'' 413)"

definition state_changing :: "string \<Rightarrow> bool" where
  "state_changing method \<longleftrightarrow> method \<in> {''POST'', ''PUT'', ''PATCH'', ''DELETE''}"

definition csrf_exempt :: "http_request \<Rightarrow> bool" where
  "csrf_exempt rq \<longleftrightarrow> rq_endpoint rq = ''static'' \<or>
     startswith ''/external/api/'' (rq_path rq) \<or> startswith ''/4tsuite/'' (rq_path rq)"

text \<open>\<^verbatim>\<open>_security_filters\<close>: \<open>None\<close> lets the handler run.\<close>

definition security_filters ::
  "string \<Rightarrow> http_request \<Rightarrow> session \<Rightarrow> refusal option result \<times> session" where
  "security_filters fresh rq s =
     (let s' = snd (ensure_csrf_token fresh s) in
      (if state_changing (rq_method rq) then
         (if csrf_exempt rq then Inr None
          else bind_result (validate_csrf_request rq s')
            (\<lambda>ok. Inr (if ok then None else Some (csrf_error_response (rq_path rq)))))
       else Inr None, s'))"

text \<open>\<^verbatim>\<open>internal_api_error\<close> and \<^verbatim>\<open>upstream_api_error\<close>: the answer carries an
  identifier, the details go to the log only.\<close>

record api_error =
  err_text :: string
  err_id :: string
  err_status :: nat

definition internal_api_error :: "string \<Rightarrow> nat \<Rightarrow> api_error" where
  "internal_api_error eid status =
     \<lparr>err_text = ''Internal server error'', err_id = take 12 eid, err_status = status\<rparr>"

definition upstream_api_error :: "string \<Rightarrow> api_error" where
  "upstream_api_error eid =
     \<lparr>err_text = ''Upstream request failed'', err_id = take 12 eid, err_status = 502\<rparr>"

text \<open>What the templates are given: an administrator sees every tab, whatever the session
  holds.\<close>

definition visible_tabs :: "string list \<Rightarrow> session \<Rightarrow> string set" where
  "visible_tabs known s =
     (if or_default ''viewer'' (s_role s) = ''admin'' then set known
      else or_default {} (s_allowed_tabs s))"

section \<open>Properties\<close>


end
