(* ===== verification/SsoVerify.thy ===== *)
theory SsoVerify
  imports PyString
begin

text \<open>
  \<^verbatim>\<open>app/sso_verify.py\<close>: the trust boundary with 4tSuite. PyJWT, the key loader of
  \<^verbatim>\<open>cryptography\<close> and SHA-256 are third-party code and are arguments, gathered in the
  record \<open>crypto\<close>: \<open>raw_public_bytes\<close> answers \<open>None\<close> for a block the loader
  rejects, \<open>unverified_header\<close> answers \<open>None\<close> for \<^verbatim>\<open>InvalidTokenError\<close>, and
  \<open>jwt_decode\<close> tells a bad signature from every other \<^verbatim>\<open>PyJWTError\<close>. The audience,
  issuer, leeway and required claims the code passes are fixed, so they are part of
  \<open>jwt_decode\<close>.
\<close>

type_synonym claims = "(string, json) dict"

datatype decoded = BadSignature | Rejected | Verified claims

record crypto =
  raw_public_bytes :: "string \<Rightarrow> string option"
  sha256_hex :: "string \<Rightarrow> string"
  unverified_header :: "string \<Rightarrow> claims option"
  jwt_decode :: "string \<Rightarrow> string \<Rightarrow> decoded"

section \<open>The key bundle\<close>

definition PEM_BEGIN :: string where
  "PEM_BEGIN = ''-----BEGIN PUBLIC KEY-----''"

definition PEM_END :: string where
  "PEM_END = ''-----END PUBLIC KEY-----''"

text \<open>\<^verbatim>\<open>s.find(pat)\<close> as the text before the first occurrence and the text after it.\<close>

fun cut_at :: "string \<Rightarrow> string \<Rightarrow> (string \<times> string) option" where
  "cut_at pat [] = (if pat = [] then Some ([], []) else None)"
| "cut_at pat (c # s) =
     (if startswith pat (c # s) then Some ([], drop (length pat) (c # s))
      else map_option (\<lambda>(a, b). (c # a, b)) (cut_at pat s))"

lemma cut_at_parts: "cut_at pat s = Some (a, b) \<Longrightarrow> s = a @ pat @ b"
proof (induction pat s arbitrary: a b rule: cut_at.induct)
  case (2 pat c s)
  then show ?case
    by (auto simp: startswith_def split: if_splits) (metis append_take_drop_id)
qed (auto split: if_splits)

lemma cut_at_length: "cut_at pat s = Some (a, b) \<Longrightarrow> length b + length pat \<le> length s"
  by (drule cut_at_parts) simp

text \<open>\<^verbatim>\<open>_PEM_RE.findall\<close>: the blocks from a begin marker to the next end marker, with at
  least one character between the two.\<close>

function pem_blocks :: "string \<Rightarrow> string list" where
  "pem_blocks s =
     (case cut_at PEM_BEGIN s of
        None \<Rightarrow> []
      | Some (_, []) \<Rightarrow> []
      | Some (_, c # body) \<Rightarrow>
          (case cut_at PEM_END body of
             None \<Rightarrow> []
           | Some (inner, rest) \<Rightarrow> (PEM_BEGIN @ c # inner @ PEM_END) # pem_blocks rest))"
  by pat_completeness auto
termination
  by (relation "measure length") (auto dest!: cut_at_length simp: PEM_BEGIN_def PEM_END_def)

declare pem_blocks.simps [simp del]

text \<open>A block the loader accepts is stored under the fingerprint of its raw key.\<close>

definition add_key :: "crypto \<Rightarrow> string \<Rightarrow> (string, string) dict \<Rightarrow> (string, string) dict" where
  "add_key cr block found =
     (case raw_public_bytes cr block of
        None \<Rightarrow> found
      | Some raw \<Rightarrow> dict_set (take 16 (sha256_hex cr raw)) block found)"

text \<open>The file is missing or not a regular file, cannot be read, or holds bytes.\<close>

definition load_keys :: "crypto \<Rightarrow> string json_file \<Rightarrow> (string, string) dict" where
  "load_keys cr f =
     (case f of
        Absent \<Rightarrow> []
      | Unreadable \<Rightarrow> []
      | Content data \<Rightarrow> fold (add_key cr) (pem_blocks data) [])"

section \<open>Verifying a token\<close>

text \<open>Try the candidates in order: a bad signature moves to the next key, any other failure
  ends the search.\<close>

fun try_keys :: "(string \<Rightarrow> decoded) \<Rightarrow> string list \<Rightarrow> claims option" where
  "try_keys dec [] = None"
| "try_keys dec (pem # pems) =
     (case dec pem of
        Verified c \<Rightarrow> Some c
      | BadSignature \<Rightarrow> try_keys dec pems
      | Rejected \<Rightarrow> None)"

definition candidate_keys :: "claims \<Rightarrow> (string, string) dict \<Rightarrow> string list" where
  "candidate_keys header ks =
     (case map_of header ''kid'' of
        Some (JStr kid) \<Rightarrow> (case map_of ks kid of Some pem \<Rightarrow> [pem] | None \<Rightarrow> dict_values ks)
      | _ \<Rightarrow> dict_values ks)"

definition decode_token :: "crypto \<Rightarrow> string json_file \<Rightarrow> string \<Rightarrow> claims option" where
  "decode_token cr f token =
     (let ks = load_keys cr f in
      if ks = [] then None
      else
        (case unverified_header cr token of
           None \<Rightarrow> None
         | Some header \<Rightarrow> try_keys (jwt_decode cr token) (candidate_keys header ks)))"

text \<open>PyJWT rejects a token whose \<^verbatim>\<open>sub\<close> is not a string, so a verified one is a
  \<open>JStr\<close>.\<close>

definition verify_token :: "crypto \<Rightarrow> string json_file \<Rightarrow> string \<Rightarrow> string option" where
  "verify_token cr f token =
     (case decode_token cr f token of
        None \<Rightarrow> None
      | Some c \<Rightarrow>
          if dict_has c ''scope'' then None
          else (case map_of c ''sub'' of
                  Some (JStr sub) \<Rightarrow> if sub = [] then None else Some sub
                | _ \<Rightarrow> None))"

definition verify_service_token ::
  "crypto \<Rightarrow> string json_file \<Rightarrow> string \<Rightarrow> string \<Rightarrow> claims option" where
  "verify_service_token cr f token expected_scope =
     (case decode_token cr f token of
        None \<Rightarrow> None
      | Some c \<Rightarrow> if map_of c ''scope'' \<noteq> Some (JStr expected_scope) then None else Some c)"

section \<open>Lemmas\<close>

lemma try_keys_Some:
  "try_keys dec pems = Some c \<Longrightarrow>
     \<exists>pre pem post. pems = pre @ pem # post \<and> dec pem = Verified c \<and> (\<forall>p \<in> set pre. dec p = BadSignature)"
proof (induction pems)
  case (Cons pem pems)
  show ?case
  proof (cases "dec pem")
    case BadSignature
    with Cons obtain pre p post where
      "pems = pre @ p # post" "dec p = Verified c" "\<forall>q \<in> set pre. dec q = BadSignature" by auto
    with BadSignature have "pem # pems = (pem # pre) @ p # post" "\<forall>q \<in> set (pem # pre). dec q = BadSignature"
      by auto
    with \<open>dec p = Verified c\<close> show ?thesis by blast
  next
    case (Verified c')
    with Cons.prems have "pem # pems = [] @ pem # pems \<and> dec pem = Verified c" by simp
    then show ?thesis by (metis empty_iff empty_set)
  qed (use Cons.prems in simp)
qed simp

lemma try_keys_hit:
  "dec pem = Verified c \<Longrightarrow> pem \<in> set pems \<Longrightarrow> \<forall>p \<in> set pems. p = pem \<or> dec p = BadSignature
     \<Longrightarrow> try_keys dec pems = Some c"
  by (induction pems) (auto split: decoded.splits)

lemma wf_load_keys: "wf_dict (load_keys cr f)"
proof -
  have "wf_dict d \<Longrightarrow> wf_dict (fold (add_key cr) bs d)" for d bs
    by (induction bs arbitrary: d) (auto simp: add_key_def split: option.splits)
  then show ?thesis by (simp add: load_keys_def split: json_file.splits)
qed

lemma add_keys_lookup:
  "map_of (fold (add_key cr) bs d) kid = Some pem \<Longrightarrow>
     map_of d kid = Some pem \<or>
     (\<exists>raw. pem \<in> set bs \<and> raw_public_bytes cr pem = Some raw \<and> kid = take 16 (sha256_hex cr raw))"
proof (induction bs arbitrary: d)
  case (Cons b bs)
  then have "map_of (add_key cr b d) kid = Some pem \<or>
     (\<exists>raw. pem \<in> set bs \<and> raw_public_bytes cr pem = Some raw \<and> kid = take 16 (sha256_hex cr raw))"
    by simp
  then show ?case by (auto simp: add_key_def split: option.splits if_splits)
qed simp

lemma load_keys_fingerprint:
  assumes "map_of (load_keys cr f) kid = Some pem"
  shows "\<exists>data raw. f = Content data \<and> pem \<in> set (pem_blocks data) \<and>
           raw_public_bytes cr pem = Some raw \<and> kid = take 16 (sha256_hex cr raw)"
  using assms add_keys_lookup [of cr _ "[]" kid pem]
  by (cases f) (auto simp: load_keys_def)

lemma candidate_keys_subset: "set (candidate_keys h ks) \<subseteq> set (dict_values ks)"
  by (auto simp: candidate_keys_def dict_values_def dest!: map_of_SomeD split: option.splits json.splits)
    (metis image_eqI snd_conv)+

lemma decode_token_Some:
  assumes "decode_token cr f token = Some c"
  obtains header pem where "unverified_header cr token = Some header"
    and "pem \<in> set (candidate_keys header (load_keys cr f))" and "jwt_decode cr token pem = Verified c"
  using assms that
  by (fastforce simp: decode_token_def Let_def split: if_splits option.splits dest!: try_keys_Some)

text \<open>C6. A token is accepted as a login, or as a service call, only when PyJWT verified it
  under a key whose PEM block stands in the key file and whose fingerprint is its kid; and
  when the token names a key of the file in its header, only that key can have verified it.
  The username is then the token's own non-empty subject.\<close>

theorem verified_by_bundle_key:
  assumes "verify_token cr f token = Some u \<or> verify_service_token cr f token sc = Some c"
  shows "\<exists>data header kid pem raw cl. f = Content data \<and> unverified_header cr token = Some header \<and>
           map_of (load_keys cr f) kid = Some pem \<and> pem \<in> set (pem_blocks data) \<and>
           raw_public_bytes cr pem = Some raw \<and> kid = take 16 (sha256_hex cr raw) \<and>
           jwt_decode cr token pem = Verified cl \<and>
           (case map_of header ''kid'' of
              Some (JStr k) \<Rightarrow> map_of (load_keys cr f) k = None \<or> k = kid | _ \<Rightarrow> True) \<and>
           (verify_token cr f token = Some u \<and> map_of cl ''sub'' = Some (JStr u) \<and> u \<noteq> [] \<or>
            verify_service_token cr f token sc = Some cl)"
proof -
  let ?ks = "load_keys cr f"
  from assms obtain cl where dec: "decode_token cr f token = Some cl"
    by (auto simp: verify_token_def verify_service_token_def split: option.splits)
  then obtain header pem where h: "unverified_header cr token = Some header"
    and pem: "pem \<in> set (candidate_keys header ?ks)" and v: "jwt_decode cr token pem = Verified cl"
    by (rule decode_token_Some)
  have "\<exists>kid. map_of ?ks kid = Some pem \<and> (case map_of header ''kid'' of
              Some (JStr k) \<Rightarrow> map_of ?ks k = None \<or> k = kid | _ \<Rightarrow> True)"
    using pem dict_lookup_values [OF wf_load_keys, of pem cr f]
    by (auto simp: candidate_keys_def split: option.splits json.splits)
  then obtain kid where kid: "map_of ?ks kid = Some pem" and named: "case map_of header ''kid'' of
              Some (JStr k) \<Rightarrow> map_of ?ks k = None \<or> k = kid | _ \<Rightarrow> True" by blast
  have out: "verify_token cr f token = Some u \<and> map_of cl ''sub'' = Some (JStr u) \<and> u \<noteq> [] \<or>
            verify_service_token cr f token sc = Some cl"
    using assms dec
    by (auto simp: verify_token_def verify_service_token_def split: option.splits json.splits if_splits)
  show ?thesis using load_keys_fingerprint [OF kid] h kid v named out by blast
qed

text \<open>A concrete bundle: one block, whose raw bytes are its own text and whose fingerprint
  is a constant.\<close>

definition sample_crypto :: "(string \<Rightarrow> string \<Rightarrow> decoded) \<Rightarrow> claims \<Rightarrow> crypto" where
  "sample_crypto dec header =
     \<lparr>raw_public_bytes = (\<lambda>b. Some b), sha256_hex = (\<lambda>_. ''0123456789abcdef0123''),
      unverified_header = (\<lambda>_. Some header), jwt_decode = dec\<rparr>"

definition sample_bundle :: string where
  "sample_bundle = PEM_BEGIN @ ''A'' @ PEM_END"

lemma sample_bundle_token:
  "verify_token (sample_crypto (\<lambda>_ _. Verified [(''sub'', JStr ''ana'')]) [])
     (Content sample_bundle) ''t'' = Some ''ana''"
  by code_simp

lemma verified_by_bundle_key_witness:
  "let cr = sample_crypto (\<lambda>_ _. Verified [(''sub'', JStr ''ana'')]) []
   in \<exists>kid pem cl. map_of (load_keys cr (Content sample_bundle)) kid = Some pem \<and>
        jwt_decode cr ''t'' pem = Verified cl"
  using verified_by_bundle_key [OF disjI1, OF sample_bundle_token] by (simp add: Let_def) blast

text \<open>A token never works for two purposes: whatever PyJWT and the key file say, a token
  accepted as a login is refused as a service token of every scope, and a token accepted for
  one scope is refused for every other. Without a usable key file every token is refused for
  everything.\<close>

theorem token_purposes_disjoint:
  "(verify_token cr f token = None \<or> verify_service_token cr f token sc = None) \<and>
   (if sc = sc' then True
    else verify_service_token cr f token sc = None \<or> verify_service_token cr f token sc' = None) \<and>
   (if load_keys cr f = []
    then verify_token cr f token = None \<and> verify_service_token cr f token sc = None else True)"
  by (auto simp: verify_token_def verify_service_token_def decode_token_def split: option.splits if_splits)

text \<open>During a key rotation nothing is locked out: when the file holds the key that signed a
  token and PyJWT reports a bad signature for every other key of it, a token that carries no
  kid, or that key's own kid, is decoded to the claims verified under that key, wherever the
  key stands in the file.\<close>

theorem rotation_accepts:
  assumes "map_of (load_keys cr f) kid = Some pem" and "jwt_decode cr token pem = Verified c"
    and "\<forall>k p. map_of (load_keys cr f) k = Some p \<longrightarrow> p = pem \<or> jwt_decode cr token p = BadSignature"
    and "unverified_header cr token = Some header"
    and "map_of header ''kid'' = None \<or> map_of header ''kid'' = Some (JStr kid)"
  shows "verify_service_token cr f token sc =
           (if map_of c ''scope'' = Some (JStr sc) then Some c else None) \<and>
         verify_token cr f token =
           (if map_of c ''scope'' = None
            then (case map_of c ''sub'' of Some (JStr u) \<Rightarrow> if u = [] then None else Some u | _ \<Rightarrow> None)
            else None)"
proof -
  let ?ks = "load_keys cr f"
  have ne: "?ks \<noteq> []" using assms(1) by auto
  have "try_keys (jwt_decode cr token) (candidate_keys header ?ks) = Some c"
  proof (rule try_keys_hit)
    show "jwt_decode cr token pem = Verified c" by (rule assms(2))
    show "pem \<in> set (candidate_keys header ?ks)"
      using assms(1, 5) dict_lookup_values [OF wf_load_keys, of pem cr f]
      by (auto simp: candidate_keys_def)
    show "\<forall>p \<in> set (candidate_keys header ?ks). p = pem \<or> jwt_decode cr token p = BadSignature"
      using assms(3) candidate_keys_subset [of header ?ks] dict_lookup_values [OF wf_load_keys, of _ cr f]
      by blast
  qed
  then have d: "decode_token cr f token = Some c" using ne assms(4) by (simp add: decode_token_def)
  show ?thesis using d by (simp add: verify_service_token_def verify_token_def)
qed

lemma rotation_accepts_witness:
  "verify_token (sample_crypto (\<lambda>_ _. Verified [(''sub'', JStr ''ana'')]) [])
     (Content sample_bundle) ''t'' = Some ''ana''"
proof -
  let ?cr = "sample_crypto (\<lambda>_ _. Verified [(''sub'', JStr ''ana'')]) []"
  have ks: "load_keys ?cr (Content sample_bundle) = [(''0123456789abcdef'', sample_bundle)]" by code_simp
  show ?thesis
    using rotation_accepts [of ?cr "Content sample_bundle" "''0123456789abcdef''" sample_bundle "''t''"
        "[(''sub'', JStr ''ana'')]" "[]"]
    by (simp add: ks) (simp add: sample_crypto_def)
qed

end
