(* ===== verification/SessionMachine.thy ===== *)
theory SessionMachine
  imports AuthRoutes Security SsoVerify
begin

text \<open>
  The life of one client's session as a state machine: the handlers of
  \<^verbatim>\<open>auth_routes.py\<close>, the guards of \<^verbatim>\<open>decorators.py\<close> and the CSRF filter are its
  steps, each in the surroundings (\<open>env\<close>) it finds. Reachability records those
  surroundings, so an invariant can say what the account file once contained.
\<close>

inductive session_step ::
  "(string \<Rightarrow> string \<Rightarrow> bool result) \<Rightarrow> (string \<Rightarrow> string option) \<Rightarrow> env \<Rightarrow> session \<Rightarrow> session \<Rightarrow> bool"
  for checkpw verify e where
    by_login: "login checkpw url_for reg e req st s = (r, st', s') \<Longrightarrow> session_step checkpw verify e s s'"
  | by_sso: "sso_login verify url_for reg e token stamp st s = (r, st', s') \<Longrightarrow>
      session_step checkpw verify e s s'"
  | by_logout: "logout url_for stamp st s = (r, st', s') \<Longrightarrow> session_step checkpw verify e s s'"
  | by_login_guard: "login_required e path s = (r, s') \<Longrightarrow> session_step checkpw verify e s s'"
  | by_tab_guard: "tab_required tab e path s = (r, s') \<Longrightarrow> session_step checkpw verify e s s'"
  | by_admin_guard: "admin_required e path s = (r, s') \<Longrightarrow> session_step checkpw verify e s s'"
  | by_filter: "security_filters fresh rq s = (r, s') \<Longrightarrow> session_step checkpw verify e s s'"

inductive session_reachable ::
  "(string \<Rightarrow> string \<Rightarrow> bool result) \<Rightarrow> (string \<Rightarrow> string option) \<Rightarrow> env list \<Rightarrow> session \<Rightarrow> bool"
  for checkpw verify where
    start: "session_reachable checkpw verify [] empty_session"
  | step: "session_reachable checkpw verify es s \<Longrightarrow> session_step checkpw verify e s s' \<Longrightarrow>
      session_reachable checkpw verify (e # es) s'"

section \<open>The invariant\<close>

definition lists_admin :: "env \<Rightarrow> string \<Rightarrow> bool" where
  "lists_admin e u \<longleftrightarrow>
     (case load_users (users_json e) of
        Inl _ \<Rightarrow> False
      | Inr us \<Rightarrow> (case map_of us u of None \<Rightarrow> False | Some x \<Rightarrow> entry_role x = ''admin''))"

text \<open>Either nobody is logged in, or the identity is complete, the times fit the source, and an
  administrator's role was read from the account file at some step.\<close>

definition session_ok :: "env list \<Rightarrow> session \<Rightarrow> bool" where
  "session_ok es s \<longleftrightarrow>
     (case s_user s of
        None \<Rightarrow> s_role s = None \<and> s_auth_source s = None \<and> s_allowed_tabs s = None \<and>
          s_login_at s = None \<and> s_sso_login_at s = None
      | Some u \<Rightarrow>
          u \<noteq> [] \<and> s_role s \<noteq> None \<and> s_ad_groups s \<noteq> None \<and>
          (s_auth_source s = Some ''local'' \<and> s_sso_login_at s = None \<or>
           s_auth_source s = Some ''sso'' \<and> (s_login_at s \<noteq> None \<longrightarrow> s_sso_login_at s \<noteq> None)) \<and>
          (s_role s = Some ''admin'' \<longrightarrow> (\<exists>e \<in> set es. lists_admin e u)))"

lemma session_ok_mono: "session_ok es s \<Longrightarrow> set es \<subseteq> set es' \<Longrightarrow> session_ok es' s"
  by (fastforce simp: session_ok_def split: option.splits)

lemma session_ok_Cons: "session_ok es s \<Longrightarrow> session_ok (e # es) s"
  by (rule session_ok_mono) auto

lemma session_ok_empty: "session_ok es empty_session"
  by (simp add: session_ok_def empty_session_def)

lemma session_ok_flash: "session_ok es (flash m c s) = session_ok es s"
  by (simp add: session_ok_def flash_def split: option.split)

lemma session_ok_csrf: "session_ok es (s\<lparr>s_csrf_token := t\<rparr>) = session_ok es s"
  by (simp add: session_ok_def split: option.split)

lemma session_ok_tabs: "s_user s \<noteq> None \<Longrightarrow> session_ok es (s\<lparr>s_allowed_tabs := t\<rparr>) = session_ok es s"
  by (auto simp: session_ok_def split: option.split)

lemma authenticate_role:
  assumes "authenticate checkpw u p f = Inr (Some (role, ads))"
  obtains us x where "load_users f = Inr us" and "map_of us u = Some x" and "role = entry_role x"
    and "ads = []"
proof -
  obtain us where us: "load_users f = Inr us"
    using assms by (cases "load_users f") (auto simp: authenticate_def)
  obtain x where x: "map_of us u = Some x"
    using assms us by (cases "map_of us u") (auto simp: authenticate_def)
  show thesis
  proof (rule that [OF us x])
    show "role = entry_role x" and "ads = []"
      using assms us x
      by (auto simp: authenticate_def Let_def split: sum.splits if_splits py_error.splits)
  qed
qed

lemma identity_ok:
  assumes "authenticate checkpw u p (users_json e) = Inr (Some (role, ads))" and "u \<noteq> []"
  shows "session_ok (e # es) (identity_session u role ads ''local'')"
    and "session_ok (e # es) (login_session e u role ads allowed)"
  by (rule authenticate_role [OF assms(1)],
      use assms(2) in \<open>auto simp: session_ok_def identity_session_def login_session_def empty_session_def lists_admin_def\<close>)+

lemma login_ok:
  assumes "session_ok es s" and "login checkpw url_for reg e req st s = (r, st', s')"
  shows "session_ok (e # es) s'"
proof -
  have ok: "session_ok (e # es) s" by (rule session_ok_Cons [OF assms(1)])
  from assms(2) consider
      "s' = s" | m c where "s' = flash m c s"
    | role ads where "authenticate checkpw (strip (lr_username req)) (lr_password req) (users_json e) = Inr (Some (role, ads))"
        "strip (lr_username req) \<noteq> []" "s' = identity_session (strip (lr_username req)) role ads ''local''"
    | role ads allowed where "authenticate checkpw (strip (lr_username req)) (lr_password req) (users_json e) = Inr (Some (role, ads))"
        "strip (lr_username req) \<noteq> []"
        "s' = login_session e (strip (lr_username req)) role ads allowed \<or>
         s' = no_tabs_flash (login_session e (strip (lr_username req)) role ads allowed)"
    by (auto simp: login_def Let_def login_session_def no_tabs_flash_def
        split: if_splits prod.splits bool.splits sum.splits option.splits)
  then show ?thesis
    by cases (use ok identity_ok in \<open>auto simp: session_ok_flash no_tabs_flash_def\<close>)
qed

lemma sso_ok:
  assumes "session_ok es s" and "sso_login verify url_for reg e token stamp st s = (r, st', s')"
    and "\<And>t. verify t \<noteq> Some []"
  shows "session_ok (e # es) s'"
proof -
  have ok: "session_ok (e # es) s" by (rule session_ok_Cons [OF assms(1)])
  have fresh: "u \<noteq> [] \<Longrightarrow> session_ok es' (identity_session u ''sso'' [] ''sso'')"
    "u \<noteq> [] \<Longrightarrow> session_ok es' ((identity_session u ''sso'' [] ''sso'')
      \<lparr>s_allowed_tabs := Some a, s_login_at := Some t, s_sso_login_at := Some t'\<rparr>)" for u a t t' es'
    by (simp_all add: session_ok_def identity_session_def empty_session_def)
  from assms(2, 3) ok show ?thesis
    by (auto simp: sso_login_def Let_def session_ok_flash intro!: fresh split: option.splits sum.splits if_splits)
qed

lemma refresh_ok:
  assumes ok: "session_ok es s" and u: "s_user s = Some u" and r: "refresh_user e path u s = (r, s')"
  shows "session_ok (e # es) s'"
proof -
  have keep: "session_ok (e # es) s" by (rule session_ok_Cons [OF ok])
  show ?thesis
  proof (cases "load_users (users_json e)")
    case (Inl err)
    with r keep show ?thesis by (simp add: refresh_user_def)
  next
    case (Inr us)
    show ?thesis
    proof (cases "map_of us u")
      case None
      with r Inr keep u show ?thesis
        by (auto simp: refresh_user_def Let_def session_ok_empty session_ok_tabs split: if_splits sum.splits)
    next
      case (Some x)
      have "session_ok (e # es) (s\<lparr>s_role := Some (entry_role x)\<rparr>)"
        using keep u Inr Some by (auto simp: session_ok_def lists_admin_def)
      with r Inr Some u show ?thesis
        by (auto simp: refresh_user_def Let_def session_ok_tabs split: sum.splits)
    qed
  qed
qed

lemma revalidate_ok:
  assumes "session_ok es s" and "revalidate_session e path s = (r, s')"
  shows "session_ok (e # es) s'"
proof (cases "session_live e s")
  case False
  then show ?thesis using assms(2) revalidate_not_live [of e s path] by (auto simp: session_ok_empty)
next
  case True
  have "session_ok (e # es) s" by (rule session_ok_Cons [OF assms(1)])
  moreover have "s_user s = Some (or_default [] (s_user s))" if "or_default [] (s_user s) \<noteq> []"
    using that by (cases "s_user s") auto
  ultimately show ?thesis
    using assms(2) revalidate_live [OF True, of path] refresh_ok [OF assms(1)] by (auto split: if_splits)
qed

lemma guards_ok:
  assumes "session_ok es s"
  shows "login_required e path s = (r, s') \<Longrightarrow> session_ok (e # es) s'"
    and "tab_required tab e path s = (r, s') \<Longrightarrow> session_ok (e # es) s'"
    and "admin_required e path s = (r, s') \<Longrightarrow> session_ok (e # es) s'"
  using assms session_ok_Cons [OF assms] revalidate_ok [OF assms, of e path]
  by (auto simp: login_required_def tab_required_def admin_required_def
      split: if_splits prod.splits sum.splits option.splits)

lemma session_step_ok:
  assumes "session_step checkpw verify e s s'" and "\<And>t. verify t \<noteq> Some []" and "session_ok es s"
  shows "session_ok (e # es) s'"
  using assms(1)
proof cases
  case (by_filter fresh rq r)
  then have "s' = s \<or> (\<exists>t. s' = s\<lparr>s_csrf_token := t\<rparr>)"
    by (auto simp: security_filters_def ensure_csrf_token_def Let_def split: if_splits)
  then show ?thesis using session_ok_Cons [OF assms(3)] by (auto simp: session_ok_csrf)
qed (use assms(2, 3) in \<open>auto simp: logout_def session_ok_empty intro: login_ok sso_ok guards_ok\<close>)

lemma session_reachable_ok:
  "session_reachable checkpw verify es s \<Longrightarrow> (\<And>t. verify t \<noteq> Some []) \<Longrightarrow> session_ok es s"
  by (induction rule: session_reachable.induct) (auto simp: session_ok_empty intro: session_step_ok)

section \<open>Properties\<close>

lemma verify_token_nonempty: "verify_token cr f t \<noteq> Some []"
  by (auto simp: verify_token_def split: option.splits json.splits if_splits)

text \<open>C9. Whatever requests a client makes, in any order and with any files, tokens and passwords, its
  session is either empty of identity (no user, role, tabs or login time) or complete: a
  non-empty user with a role, groups and a source, an SSO session with its login time being
  dated for the revocation check and a local one never, and the role \<open>admin\<close> only for a user
  the account file listed as administrator during one of the client's own requests.\<close>

theorem session_invariant:
  assumes "session_reachable checkpw (verify_token cr f) es s"
  shows "session_ok es s"
  using session_reachable_ok [OF assms] verify_token_nonempty by blast

definition sample_sso :: "string \<Rightarrow> string option" where
  "sample_sso = verify_token (sample_crypto (\<lambda>_ _. Verified [(''sub'', JStr ''ana'')]) []) (Content sample_bundle)"

lemma sample_sso_ana: "sample_sso ''t'' = Some ''ana''"
  unfolding sample_sso_def by (rule sample_bundle_token)

lemma sample_env_fields [simp]:
  "now (sample_env t us) = t" "checker (sample_env t us) = None"
  "absolute_lifetime (sample_env t us) = 36000" "users_json (sample_env t us) = us"
  "groups_json (sample_env t us) = Absent"
  "known_tabs (sample_env t us) = [''dashboard'', ''log_search'', ''admin'']"
  by (simp_all add: sample_env_def)

lemma sample_admin_tabs:
  "get_allowed_tabs known ''ana'' ads role sample_users Absent = Inr (set known)"
  by (simp add: get_allowed_tabs_def sample_users_def is_local_admin_def entry_role_def)

definition sso_session :: session where
  "sso_session = (identity_session ''ana'' ''sso'' [] ''sso'')
     \<lparr>s_allowed_tabs := Some (set (known_tabs (sample_env 7 sample_users))), s_login_at := Some 7,
      s_sso_login_at := Some 7\<rparr>"

lemma sso_session_by_login:
  "\<exists>r st'. sso_login sample_sso id app_registry (sample_env 7 sample_users) ''t'' []
     \<lparr>srv_limiter = init_limiter, srv_log = init_logger\<rparr> empty_session = (r, st', sso_session)"
  by (simp add: sso_login_def sample_sso_ana sso_session_def sample_admin_tabs)

lemma sample_live:
  "s_login_at s = Some 7 \<Longrightarrow> t \<le> 36007 \<Longrightarrow> session_live (sample_env t us) s"
  by (simp add: session_live_def)

lemma sample_user_loaded:
  "load_users sample_users = Inr [(''ana'', \<lparr>password_hash = Some ''h'', user_role = Some ''admin''\<rparr>)]"
  by (simp add: sample_users_def)

lemma sample_revalidate:
  assumes "s_user s = Some ''ana''" and "session_live (sample_env t sample_users) s"
  shows "revalidate_session (sample_env t sample_users) path s =
    (Inr None, s\<lparr>s_role := Some ''admin'', s_allowed_tabs := Some {''dashboard'', ''log_search'', ''admin''}\<rparr>)"
  using assms(1)
  by (simp add: revalidate_live [OF assms(2)] refresh_user_def Let_def entry_role_def
      sample_user_loaded sample_admin_tabs)

lemma sso_session_reachable:
  "session_reachable checkpw sample_sso [sample_env 7 sample_users] sso_session"
proof -
  have "session_step checkpw sample_sso (sample_env 7 sample_users) empty_session sso_session"
    using sso_session_by_login by (blast intro: by_sso)
  with start show ?thesis by (rule session_reachable.step)
qed

lemma session_invariant_witness: "session_ok [sample_env 7 sample_users] sso_session"
  using session_invariant sso_session_reachable [unfolded sample_sso_def] by blast

lemma revalidate_passes:
  assumes "revalidate_session e path s = (Inr None, s')" and "s_user s = Some u" and "u \<noteq> []"
  shows "session_live e s \<and> refresh_user e path u s = (Inr None, s')"
proof (cases "session_live e s")
  case True
  with assms show ?thesis by (simp add: revalidate_live)
next
  case False
  with assms(1) revalidate_not_live [OF False, of path] show ?thesis by auto
qed

lemma admin_guard_facts:
  assumes ok: "session_ok es s" and "admin_required e path s = (Inr None, s')"
  shows "session_live e s \<and>
         (\<exists>u. s_user s = Some u \<and>
            (if s_auth_source s = Some ''local'' then lists_admin e u
             else \<exists>e' \<in> set (e # es). lists_admin e' u))"
proof -
  from assms(2) have pass: "revalidate_session e path s = (Inr None, s')" "s_role s' = Some ''admin''"
    and "s_user s \<noteq> None" by (auto simp: guard_passes)
  then obtain u where u: "s_user s = Some u" "u \<noteq> []" using ok by (auto simp: session_ok_def)
  from revalidate_passes [OF pass(1) u] have live: "session_live e s"
    and r: "refresh_user e path u s = (Inr None, s')" by auto
  from refresh_user_passes [OF r] obtain us where "load_users (users_json e) = Inr us"
    and role: "s_role s' = (case map_of us u of None \<Rightarrow> s_role s | Some x \<Rightarrow> Some (entry_role x))"
    and "map_of us u = None \<longrightarrow> s_auth_source s \<noteq> Some ''local'' \<and> or_default [] (s_role s) \<noteq> []"
    by (elim exE conjE) (rule that; assumption)
  then show ?thesis
    using live u pass(2) ok
    by (cases "map_of us u") (auto simp: lists_admin_def session_ok_def)
qed

text \<open>C2. Passing the administrator check needs a live session (established within the absolute
  lifetime, not revoked by 4tSuite) and, for a local session, the account file listing the user
  as an administrator at this very request; for an SSO session it needs such a listing at this or
  an earlier request of the client.\<close>

theorem admin_guard_sound:
  assumes "session_reachable checkpw (verify_token cr f) es s"
    and "admin_required e path s = (Inr None, s')"
  shows "session_live e s \<and>
         (\<exists>u. s_user s = Some u \<and>
            (if s_auth_source s = Some ''local'' then lists_admin e u
             else \<exists>e' \<in> set (e # es). lists_admin e' u))"
  using session_reachable_ok [OF assms(1)] verify_token_nonempty
  by (intro admin_guard_facts [OF _ assms(2)]) blast

lemma admin_guard_sound_witness:
  "session_live (sample_env 9 sample_users) sso_session \<and>
     (\<exists>u. s_user sso_session = Some u \<and>
        (if s_auth_source sso_session = Some ''local'' then lists_admin (sample_env 9 sample_users) u
         else \<exists>e' \<in> set [sample_env 9 sample_users, sample_env 7 sample_users]. lists_admin e' u))"
proof -
  have "session_live (sample_env 9 sample_users) sso_session"
    by (simp add: sample_live sso_session_def)
  then have "admin_required (sample_env 9 sample_users) ''/admin'' sso_session =
      (Inr None, snd (admin_required (sample_env 9 sample_users) ''/admin'' sso_session))"
    by (simp add: admin_required_def sample_revalidate sso_session_def identity_session_def)
  from admin_guard_sound [OF sso_session_reachable [unfolded sample_sso_def] this] show ?thesis .
qed

text \<open>C16. A handler behind a tab check runs only in a live session, and for a local session only
  when the account still exists and, with the role it has in the file now, is an administrator or
  the group files as they are now grant it the tab: a change of role, membership or group tabs
  holds from the next request on.\<close>

theorem tab_guard_current:
  assumes "s_user s = Some u" and "u \<noteq> []" and "s_auth_source s = Some ''local''"
    and "tab_required tab e path s = (Inr None, s')"
  shows "session_live e s \<and>
         (\<exists>us x T. load_users (users_json e) = Inr us \<and> map_of us u = Some x \<and>
            s_role s' = Some (entry_role x) \<and>
            get_allowed_tabs (known_tabs e) u (Some (or_default [] (s_ad_groups s))) (Some (entry_role x))
              (users_json e) (groups_json e) = Inr T \<and>
            (entry_role x = ''admin'' \<or> tab \<in> T))"
proof -
  from assms(4) have pass: "revalidate_session e path s = (Inr None, s')"
    and tab: "s_role s' = Some ''admin'' \<or> tab \<in> or_default {} (s_allowed_tabs s')"
    by (auto simp: guard_passes)
  from revalidate_passes [OF pass assms(1, 2)] have live: "session_live e s"
    and r: "refresh_user e path u s = (Inr None, s')" by auto
  from refresh_user_passes [OF r] obtain us where us: "load_users (users_json e) = Inr us"
    and role: "s_role s' = (case map_of us u of None \<Rightarrow> s_role s | Some x \<Rightarrow> Some (entry_role x))"
    and gone: "map_of us u = None \<longrightarrow> s_auth_source s \<noteq> Some ''local'' \<and> or_default [] (s_role s) \<noteq> []"
    and tabs: "get_allowed_tabs (known_tabs e) u (Some (or_default [] (s_ad_groups s))) (s_role s')
           (users_json e) (groups_json e) = Inr (or_default {} (s_allowed_tabs s'))"
    by (elim exE conjE) (rule that; assumption)
  obtain x where x: "map_of us u = Some x" using gone assms(3) by (cases "map_of us u") auto
  with role have "s_role s' = Some (entry_role x)" by simp
  with live us x tabs tab show ?thesis by auto
qed

definition ana_session :: session where
  "ana_session = login_session (sample_env 7 sample_users) ''ana'' ''admin'' [] {}"

lemma tab_guard_current_witness:
  "session_live (sample_env 9 sample_users) ana_session \<and>
     (\<exists>us x T. load_users sample_users = Inr us \<and> map_of us ''ana'' = Some x \<and>
        s_role (snd (tab_required ''dashboard'' (sample_env 9 sample_users) ''/dashboard'' ana_session)) =
          Some (entry_role x) \<and>
        get_allowed_tabs [''dashboard'', ''log_search'', ''admin''] ''ana'' (Some []) (Some (entry_role x))
          sample_users Absent = Inr T \<and> (entry_role x = ''admin'' \<or> ''dashboard'' \<in> T))"
proof -
  let ?r = "tab_required ''dashboard'' (sample_env 9 sample_users) ''/dashboard'' ana_session"
  have "s_user ana_session = Some ''ana''" "s_auth_source ana_session = Some ''local''"
    "s_ad_groups ana_session = Some []"
    by (simp_all add: ana_session_def login_session_def identity_session_def)
  moreover have "session_live (sample_env 9 sample_users) ana_session"
    by (simp add: sample_live ana_session_def login_session_def)
  ultimately have "?r = (Inr None, snd ?r)" by (simp add: tab_required_def sample_revalidate)
  from tab_guard_current [OF \<open>s_user ana_session = Some ''ana''\<close> _ \<open>s_auth_source ana_session = Some ''local''\<close> this]
  show ?thesis using \<open>s_ad_groups ana_session = Some []\<close> by simp
qed

text \<open>A session that is no longer live answers every guarded request without running the handler,
  and leaves nothing of the session behind: an expired or revoked login cannot be revived by
  sending it again.\<close>

theorem dead_session_cleared:
  assumes "\<not> session_live e s" and "s_user s \<noteq> None"
  shows "(\<exists>r. login_required e path s = (Inr (Some r), empty_session)) \<and>
         (\<exists>r. tab_required tab e path s = (Inr (Some r), empty_session)) \<and>
         (\<exists>r. admin_required e path s = (Inr (Some r), empty_session))"
  using assms revalidate_not_live [OF assms(1), of path]
  by (auto simp: login_required_def tab_required_def admin_required_def)

lemma dead_session_cleared_witness:
  "(\<exists>r. login_required (sample_env 36008 sample_users) ''/'' ana_session = (Inr (Some r), empty_session)) \<and>
   (\<exists>r. tab_required ''admin'' (sample_env 36008 sample_users) ''/'' ana_session = (Inr (Some r), empty_session)) \<and>
   (\<exists>r. admin_required (sample_env 36008 sample_users) ''/'' ana_session = (Inr (Some r), empty_session))"
  by (rule dead_session_cleared)
    (simp_all add: session_live_def ana_session_def login_session_def identity_session_def)

text \<open>A live SSO session that once took the role \<open>admin\<close> from the account file keeps it after the
  account is deleted: with the user absent from the file the administrator check still passes,
  on every request until the session ends.\<close>

theorem sso_admin_outlives_account:
  assumes "session_live e s" and "s_user s = Some u" and "u \<noteq> []" and "s_auth_source s = Some ''sso''"
    and "s_role s = Some ''admin''" and "load_users (users_json e) = Inr us" and "map_of us u = None"
  shows "\<exists>s'. admin_required e path s = (Inr None, s') \<and> s_role s' = Some ''admin''"
  using assms
  by (simp add: admin_required_def revalidate_live refresh_user_def Let_def get_allowed_tabs_def)

lemma sso_admin_outlives_account_witness:
  "\<exists>s'. admin_required (sample_env 20 (Content [])) ''/admin''
          (snd (admin_required (sample_env 9 sample_users) ''/admin'' sso_session)) = (Inr None, s') \<and>
        s_role s' = Some ''admin''"
proof -
  let ?s = "snd (admin_required (sample_env 9 sample_users) ''/admin'' sso_session)"
  have f: "s_user ?s = Some ''ana''" "s_role ?s = Some ''admin''" "s_auth_source ?s = Some ''sso''"
    "s_login_at ?s = Some 7" "s_sso_login_at ?s = Some 7"
  proof -
    have "session_live (sample_env 9 sample_users) sso_session"
      by (simp add: sample_live sso_session_def)
    then show "s_user ?s = Some ''ana''" "s_role ?s = Some ''admin''" "s_auth_source ?s = Some ''sso''"
      "s_login_at ?s = Some 7" "s_sso_login_at ?s = Some 7"
      by (simp_all add: admin_required_def sample_revalidate sso_session_def identity_session_def)
  qed
  then have "session_live (sample_env 20 (Content [])) ?s" by (simp add: sample_live)
  then show ?thesis
    by (rule sso_admin_outlives_account [of _ _ "''ana''" "[]"]) (simp_all add: f)
qed

end
