(* ===== verification/TsuiteAdapter.thy ===== *)
theory TsuiteAdapter
  imports AccessGroups SsoVerify
begin

text \<open>
  \<^verbatim>\<open>app/tsuite_adapter.py\<close> and \<^verbatim>\<open>app/routes/sync_routes.py\<close>: the plugin protocol
  with 4tSuite. The closure of \<^verbatim>\<open>make_session_checker\<close> is a record of its four state
  variables; each call takes the clock reading and what \<^verbatim>\<open>fetch()\<close> would return if it
  is called (\<open>None\<close> for any exception). The group push writes \<^verbatim>\<open>groups.json\<close> through
  the functions of \<^theory_text>\<open>AccessGroups\<close>.
\<close>

section \<open>The revocation list\<close>

fun parse_entries :: "(string \<times> json) list \<Rightarrow> (string, rat) dict \<Rightarrow> (string, rat) dict result" where
  "parse_entries [] parsed = Inr parsed"
| "parse_entries ((n, ts) # xs) parsed =
     (case json_number ts of
        None \<Rightarrow> Inl (ValueError ''revocations payload has a bad entry'')
      | Some t \<Rightarrow> parse_entries xs (dict_set n t parsed))"

definition parse_revocations :: "json \<Rightarrow> ((string, rat) dict \<times> rat) result" where
  "parse_revocations payload =
     (case payload of
        JObj d \<Rightarrow>
          (case (map_of d ''users'', Option.bind (map_of d ''server_time'') json_number) of
             (Some (JObj us), Some server_time) \<Rightarrow>
               bind_result (parse_entries us []) (\<lambda>parsed. Inr (parsed, server_time))
           | _ \<Rightarrow> Inl (ValueError ''revocations payload has the wrong shape''))
      | _ \<Rightarrow> Inl (ValueError ''revocations payload must be an object''))"

section \<open>The session checker\<close>

definition GRACE_SECONDS :: rat where "GRACE_SECONDS = 300"
definition CACHE_SECONDS :: rat where "CACHE_SECONDS = 30"
definition RETRY_SECONDS :: rat where "RETRY_SECONDS = 5"

record checker_state =
  revoked_users :: "(string, rat) dict"
  clock_offset :: rat
  fetched_at :: "rat option"
  last_good :: rat

definition make_session_checker :: "rat \<Rightarrow> checker_state" where
  "make_session_checker created =
     \<lparr>revoked_users = [], clock_offset = 0, fetched_at = None, last_good = created\<rparr>"

definition fetch_result :: "json option \<Rightarrow> ((string, rat) dict \<times> rat) option" where
  "fetch_result fetched =
     (case fetched of
        None \<Rightarrow> None
      | Some payload \<Rightarrow> (case parse_revocations payload of Inl _ \<Rightarrow> None | Inr r \<Rightarrow> Some r))"

definition refresh :: "rat \<Rightarrow> rat \<Rightarrow> json option \<Rightarrow> rat \<Rightarrow> checker_state \<Rightarrow> checker_state" where
  "refresh cache grace fetched t st =
     (case fetch_result fetched of
        None \<Rightarrow>
          (let retry = (if t - last_good st > grace then min cache RETRY_SECONDS else cache)
           in st\<lparr>fetched_at := Some (t - cache + retry)\<rparr>)
      | Some (us, server_time) \<Rightarrow>
          st\<lparr>revoked_users := us, clock_offset := server_time - t, fetched_at := Some t,
             last_good := t\<rparr>)"

definition stale :: "rat \<Rightarrow> rat \<Rightarrow> checker_state \<Rightarrow> bool" where
  "stale cache t st = (case fetched_at st of None \<Rightarrow> True | Some a \<Rightarrow> t - a \<ge> cache)"

definition not_revoked :: "(string, rat) dict \<Rightarrow> rat \<Rightarrow> string \<Rightarrow> rat \<Rightarrow> bool" where
  "not_revoked us off username login =
     (case map_of us username of None \<Rightarrow> True | Some out \<Rightarrow> \<not> out > login + off)"

definition sso_session_valid ::
  "rat \<Rightarrow> rat \<Rightarrow> rat \<Rightarrow> string \<Rightarrow> rat \<Rightarrow> json option \<Rightarrow> checker_state \<Rightarrow> bool \<times> checker_state"
  where
  "sso_session_valid cache grace t username login fetched st =
     (let st' = (if stale cache t st then refresh cache grace fetched t st else st) in
      if t - last_good st' > grace then (False, st')
      else (not_revoked (revoked_users st') (clock_offset st') username login, st'))"

text \<open>One call of the checker: the clock, the user, the login time and the answer of the
  server.\<close>

type_synonym check = "rat \<times> string \<times> rat \<times> json option"

fun check_step :: "rat \<Rightarrow> rat \<Rightarrow> check \<Rightarrow> checker_state \<Rightarrow> checker_state" where
  "check_step cache grace (t, u, login, fetched) st =
     snd (sso_session_valid cache grace t u login fetched st)"

section \<open>The body of the revocation response\<close>

definition MAX_BODY :: nat where "MAX_BODY = 1024 * 1024"
definition CHUNK :: nat where "CHUNK = 8192"

datatype fetch_error = TooSlow | TooLarge

text \<open>The read loop of \<^verbatim>\<open>make_http_fetch\<close>. The response is a function from how much was
  asked for and how much was read before to the clock and the bytes, empty at the end; the
  fuel bounds the number of reads. \<open>None\<close> is out of fuel.\<close>

fun read_body ::
  "nat \<Rightarrow> (nat \<Rightarrow> nat \<Rightarrow> rat \<times> string) \<Rightarrow> rat \<Rightarrow> string list \<Rightarrow> nat \<Rightarrow> (fetch_error + string) option"
  where
  "read_body 0 response deadline chunks sofar = None"
| "read_body (Suc fuel) response deadline chunks sofar =
     (let result = (if MAX_BODY < sofar then Inl TooLarge else Inr (concat chunks)) in
      if sofar \<le> MAX_BODY then
        (case response (min CHUNK (MAX_BODY + 1 - sofar)) sofar of
           (t, chunk) \<Rightarrow>
             if t > deadline then Some (Inl TooSlow)
             else if chunk = [] then Some result
             else read_body fuel response deadline (chunks @ [chunk]) (sofar + length chunk))
      else Some result)"

definition session_checker_configured :: "(string, string) dict \<Rightarrow> (string \<times> string \<times> bool) option" where
  "session_checker_configured environ =
     (let url = strip (dict_get environ ''TSUITE_REVOCATIONS_URL'' []);
          token = strip (dict_get environ ''TSUITE_REVOCATIONS_TOKEN'' []);
          verify = lower (strip (dict_get environ ''TSUITE_REVOCATIONS_VERIFY_TLS'' ''true''))
                     \<notin> {''false'', ''0'', ''no''}
      in if url = [] \<or> token = [] then None else Some (url, token, verify))"

section \<open>The plugin routes\<close>

datatype tsuite_response =
    Forbidden
  | BadRequest string
  | NoContent
  | Reply "(string \<times> json) list"

definition ADAPTER_VERSION :: string where "ADAPTER_VERSION = ''1.2.0''"
definition PROTOCOL_VERSION :: int where "PROTOCOL_VERSION = 1"

definition bearer :: "string \<Rightarrow> string" where
  "bearer header = (if startswith ''Bearer '' header then drop 7 header else header)"

text \<open>\<^verbatim>\<open>require_scope\<close>: whatever the verifier raises or returns, only a dictionary with
  the scope itself passes.\<close>

definition require_scope :: "(string \<Rightarrow> string \<Rightarrow> claims option result) \<Rightarrow> string \<Rightarrow> string \<Rightarrow> bool" where
  "require_scope verify header scope =
     (case verify (bearer header) scope of
        Inr (Some c) \<Rightarrow> map_of c ''scope'' = Some (JStr scope)
      | _ \<Rightarrow> False)"

definition group_names :: "groups_file \<Rightarrow> string list result" where
  "group_names f = bind_result (list_groups f) (\<lambda>gs. Inr (map name gs))"

definition manifest ::
  "(string \<Rightarrow> string \<Rightarrow> claims option result) \<Rightarrow> string list \<Rightarrow> bool \<Rightarrow> string \<Rightarrow> groups_file
   \<Rightarrow> tsuite_response result" where
  "manifest verify known has_checker header f =
     (if \<not> require_scope verify header ''manifest_read'' then Inr Forbidden
      else bind_result (group_names f) (\<lambda>gs.
        Inr (Reply
          [(''protocol_version'', JInt PROTOCOL_VERSION), (''adapter_version'', JStr ADAPTER_VERSION),
           (''app_id'', JStr ''4tlog''), (''display_name'', JStr ''4tLog''), (''health_path'', JStr ''/login''),
           (''tabs'', JList (map JStr (sort known))), (''groups'', JList (map JStr gs)),
           (''capabilities'', JList (if has_checker then [JStr ''revocations''] else []))])))"

definition health :: "(string \<Rightarrow> string \<Rightarrow> claims option result) \<Rightarrow> string \<Rightarrow> tsuite_response" where
  "health verify header =
     (if require_scope verify header ''health_read''
      then Reply [(''status'', JStr ''ok''), (''protocol_version'', JInt PROTOCOL_VERSION)] else Forbidden)"

definition apply_group_change ::
  "string list \<Rightarrow> string \<Rightarrow> string \<Rightarrow> bool \<Rightarrow> groups_file \<Rightarrow> groups_file result" where
  "apply_group_change known username gname is_member f =
     (if is_member then add_group_member known gname username f
      else remove_group_member known gname username f)"

definition push_args :: "json option \<Rightarrow> string + (string \<times> string \<times> bool)" where
  "push_args body =
     (case body of
        Some (JObj d) \<Rightarrow>
          (case map_of d ''username'' of
             Some (JStr username) \<Rightarrow>
               if username = [] then Inl ''username must be a non-empty string''
               else (case map_of d ''group'' of
                  Some (JStr gname) \<Rightarrow>
                    if gname = [] then Inl ''group must be a non-empty string''
                    else (case map_of d ''member'' of
                       Some (JBool m) \<Rightarrow>
                         if startswith ''_service:'' username
                         then Inl ''cannot grant group membership to a service sentinel username''
                         else Inr (username, gname, m)
                     | _ \<Rightarrow> Inl ''member must be true or false'')
                | _ \<Rightarrow> Inl ''group must be a non-empty string'')
           | _ \<Rightarrow> Inl ''username must be a non-empty string'')
      | _ \<Rightarrow> Inl ''body must be a JSON object'')"

definition receive_group_push ::
  "(string \<Rightarrow> string \<Rightarrow> claims option result) \<Rightarrow> string list \<Rightarrow> string \<Rightarrow> json option \<Rightarrow> groups_file
   \<Rightarrow> tsuite_response result \<times> groups_file" where
  "receive_group_push verify known header body f =
     (if \<not> require_scope verify header ''groups_push'' then (Inr Forbidden, f)
      else
        (case push_args body of
           Inl message \<Rightarrow> (Inr (BadRequest message), f)
         | Inr (username, gname, is_member) \<Rightarrow>
             (case group_names f of
                Inl e \<Rightarrow> (Inl e, f)
              | Inr gs \<Rightarrow>
                  if gname \<notin> set gs then (Inr (BadRequest (''no such group: '' @ gname)), f)
                  else
                    (case apply_group_change known username gname is_member f of
                       Inl e \<Rightarrow> (Inl e, f)
                     | Inr f' \<Rightarrow> (Inr NoContent, f')))))"

section \<open>What the checker knows\<close>

text \<open>\<open>knows c0 xs g us off\<close>: the list \<open>us\<close> with offset \<open>off\<close> was obtained at
  time \<open>g\<close>, either by a call in \<open>xs\<close> whose fetch succeeded or, empty, when the checker
  was created at \<open>c0\<close>.\<close>

definition knows :: "rat \<Rightarrow> check list \<Rightarrow> rat \<Rightarrow> (string, rat) dict \<Rightarrow> rat \<Rightarrow> bool" where
  "knows c0 xs g us off \<longleftrightarrow>
     g = c0 \<and> us = [] \<and> off = 0 \<or>
     (\<exists>u login fetched. (g, u, login, fetched) \<in> set xs \<and> fetch_result fetched = Some (us, off + g))"

lemma knows_mono: "knows c0 xs g us off \<Longrightarrow> knows c0 (xs @ ys) g us off"
  by (auto simp: knows_def)

lemma refresh_knows:
  assumes "knows c0 xs (last_good st) (revoked_users st) (clock_offset st)"
  shows "let st' = refresh cache grace fetched t st
         in knows c0 (xs @ [(t, u, login, fetched)]) (last_good st') (revoked_users st') (clock_offset st')"
  using assms
  by (auto simp: refresh_def Let_def knows_def split: option.splits)

lemma check_knows:
  assumes "knows c0 xs (last_good st) (revoked_users st) (clock_offset st)"
    and "sso_session_valid cache grace t u login fetched st = (b, st')"
  shows "knows c0 (xs @ [(t, u, login, fetched)]) (last_good st') (revoked_users st') (clock_offset st')"
  using assms refresh_knows [OF assms(1)] knows_mono [OF assms(1)]
  by (auto simp: sso_session_valid_def Let_def split: if_splits)

lemma checks_know:
  "knows c0 pre (last_good st) (revoked_users st) (clock_offset st) \<Longrightarrow>
     let st' = fold (check_step cache grace) xs st
     in knows c0 (pre @ xs) (last_good st') (revoked_users st') (clock_offset st')"
proof (induction xs arbitrary: st pre)
  case (Cons x xs)
  obtain t u login fetched where x: "x = (t, u, login, fetched)" by (metis prod_cases4)
  obtain b st' where v: "sso_session_valid cache grace t u login fetched st = (b, st')"
    by (metis surj_pair)
  from check_knows [OF Cons.prems v] Cons.IH [of "pre @ [x]" st'] show ?case
    by (simp add: x v)
qed simp

text \<open>C21. A session is accepted only on a revocation list obtained at most \<open>grace\<close> seconds
  ago: whatever calls were made before, when the checker answers that the session of
  \<open>u\<close> is valid at time \<open>t\<close>, then the list it used was fetched successfully by one of the
  calls (or the checker was created) no earlier than \<open>t - grace\<close>, and that list holds no
  logout of \<open>u\<close> later than the login. When 4tSuite stays unreachable longer than the
  grace, every session is refused.\<close>

theorem valid_needs_recent_list:
  assumes "fst (sso_session_valid cache grace t u login fetched
             (fold (check_step cache grace) xs (make_session_checker c0)))"
  shows "\<exists>g us off. t - grace \<le> g \<and> knows c0 (xs @ [(t, u, login, fetched)]) g us off \<and>
           not_revoked us off u login"
proof -
  let ?st = "fold (check_step cache grace) xs (make_session_checker c0)"
  have "knows c0 [] (last_good (make_session_checker c0)) (revoked_users (make_session_checker c0))
          (clock_offset (make_session_checker c0))"
    by (simp add: knows_def make_session_checker_def)
  from checks_know [OF this, of cache grace xs]
  have k: "knows c0 xs (last_good ?st) (revoked_users ?st) (clock_offset ?st)" by (simp add: Let_def)
  obtain b st' where v: "sso_session_valid cache grace t u login fetched ?st = (b, st')"
    by (metis surj_pair)
  with assms have "t - grace \<le> last_good st'"
    and "not_revoked (revoked_users st') (clock_offset st') u login"
    by (auto simp: sso_session_valid_def Let_def algebra_simps split: if_splits)
  with check_knows [OF k v] show ?thesis by blast
qed

lemma valid_needs_recent_list_witness:
  "\<exists>g us off. (400::rat) - 300 \<le> g \<and>
     knows 0 ([(130, ''ana'', 20, Some (JObj [(''users'', JObj []), (''server_time'', JInt 131)])),
               (200, ''ana'', 20, None)] @ [(400, ''ana'', 20, None)]) g us off \<and>
     not_revoked us off ''ana'' 20"
  by (rule valid_needs_recent_list [of 30 300 400 "''ana''" 20 None]) code_simp

section \<open>Logouts take effect\<close>

text \<open>The server's side of the protocol: its clock runs \<open>d\<close> ahead, its answers carry that
  clock, and from real time \<open>lo\<close> on they list a logout of \<open>u\<close> at or after that time.\<close>

definition serves :: "string \<Rightarrow> rat \<Rightarrow> rat \<Rightarrow> check \<Rightarrow> bool" where
  "serves u lo d = (\<lambda>(t, _, _, fetched).
     case fetch_result fetched of
       None \<Rightarrow> False
     | Some (us, server_time) \<Rightarrow>
         server_time = t + d \<and> (lo \<le> t \<longrightarrow> (case map_of us u of None \<Rightarrow> False | Some out \<Rightarrow> lo + d \<le> out)))"

text \<open>What the checker's state satisfies under such a server.\<close>

definition synced :: "string \<Rightarrow> rat \<Rightarrow> rat \<Rightarrow> checker_state \<Rightarrow> bool" where
  "synced u lo d st \<longleftrightarrow>
     (case fetched_at st of
        None \<Rightarrow> True
      | Some a \<Rightarrow> clock_offset st = d \<and>
          (lo \<le> a \<longrightarrow> (case map_of (revoked_users st) u of None \<Rightarrow> False | Some out \<Rightarrow> lo + d \<le> out)))"

lemma synced_check:
  assumes "synced u lo d st" and "serves u lo d (t, v, l, fetched)"
  shows "synced u lo d (snd (sso_session_valid cache grace t v l fetched st))"
proof -
  obtain us where "fetch_result fetched = Some (us, t + d)"
    and "lo \<le> t \<Longrightarrow> (case map_of us u of None \<Rightarrow> False | Some out \<Rightarrow> lo + d \<le> out)"
    using assms(2) by (auto simp: serves_def split: option.splits)
  then have "synced u lo d (refresh cache grace fetched t st)"
    by (simp add: synced_def refresh_def)
  with assms(1) show ?thesis by (simp add: sso_session_valid_def Let_def)
qed

lemma synced_checks:
  "synced u lo d st \<Longrightarrow> \<forall>x \<in> set xs. serves u lo d x \<Longrightarrow>
     synced u lo d (fold (check_step cache grace) xs st)"
proof (induction xs arbitrary: st)
  case (Cons x xs)
  obtain t v l f where x: "x = (t, v, l, f)" by (metis prod_cases4)
  with Cons.prems synced_check have "synced u lo d (check_step cache grace x st)" by simp
  with Cons show ?case by simp
qed simp


definition sample_answer :: "rat \<Rightarrow> rat \<Rightarrow> json option" where
  "sample_answer out server_time =
     Some (JObj [(''users'', JObj [(''ana'', JFloat out)]), (''server_time'', JFloat server_time)])"


section \<open>Recovery\<close>

text \<open>An outage ends promptly: when a probe at time \<open>t\<close> failed with the grace already over,
  that call refuses, and the first call five seconds or more later asks 4tSuite again; if it
  answers, the session is judged by the fresh list and by nothing older.\<close>

theorem outage_recovery:
  assumes "stale cache t st" and "fetch_result bad = None" and "grace < t - last_good st"
    and "t + RETRY_SECONDS \<le> t'" and "fetch_result good = Some (us, server_time)" and "0 \<le> grace"
  shows "fst (sso_session_valid cache grace t u login bad st) = False \<and>
         fst (sso_session_valid cache grace t' v login' good
               (snd (sso_session_valid cache grace t u login bad st))) =
           not_revoked us (server_time - t') v login'"
proof -
  let ?st = "snd (sso_session_valid cache grace t u login bad st)"
  have st: "?st = st\<lparr>fetched_at := Some (t - cache + min cache RETRY_SECONDS)\<rparr>"
    using assms(1-3) by (simp add: sso_session_valid_def Let_def refresh_def)
  then have "stale cache t' ?st" using assms(4) by (simp add: stale_def min_def)
  moreover have "fst (sso_session_valid cache grace t u login bad st) = False"
    using assms(1-3) by (simp add: sso_session_valid_def Let_def refresh_def)
  ultimately show ?thesis
    using assms(5, 6) by (simp add: sso_session_valid_def Let_def refresh_def)
qed

lemma outage_recovery_witness:
  "let st = make_session_checker 0; r = sso_session_valid 30 300 400 ''ana'' 90 None st
   in fst r = False \<and>
      fst (sso_session_valid 30 300 405 ''ana'' 90 (sample_answer 50 1405) (snd r)) =
        not_revoked [(''ana'', 50)] (1405 - 405) ''ana'' 90"
  using outage_recovery [of 30 400 "make_session_checker 0" None 300 405 "sample_answer 50 1405"
      "[(''ana'', 50)]" 1405 "''ana''" 90 "''ana''" 90]
  by (simp add: stale_def make_session_checker_def fetch_result_def sample_answer_def
      parse_revocations_def RETRY_SECONDS_def dict_set_def)

section \<open>The body reader\<close>

lemma read_body_bounded:
  assumes "\<And>n k. length (snd (response n k)) \<le> n" and "sofar = length (concat chunks)"
    and "sofar \<le> MAX_BODY + 1" and "MAX_BODY + 2 - sofar < fuel"
  shows "\<exists>r. read_body fuel response deadline chunks sofar = Some r \<and>
           (\<forall>body. r = Inr body \<longrightarrow> length body \<le> MAX_BODY)"
  using assms(2-)
proof (induction fuel arbitrary: chunks sofar)
  case (Suc fuel)
  obtain t chunk where r: "response (min CHUNK (MAX_BODY + 1 - sofar)) sofar = (t, chunk)"
    by (metis surj_pair)
  with assms(1) have "length chunk \<le> min CHUNK (MAX_BODY + 1 - sofar)" by (metis snd_conv)
  then have "length chunk \<le> MAX_BODY + 1 - sofar" by simp
  moreover have "chunk = [] \<or> 0 < length chunk" by simp
  ultimately have "sofar \<le> MAX_BODY \<Longrightarrow> chunk = [] \<or>
      sofar + length chunk \<le> MAX_BODY + 1 \<and> MAX_BODY + 2 - (sofar + length chunk) < fuel"
    using Suc.prems(2, 3) by linarith
  then show ?case
    using Suc.prems r Suc.IH [of "sofar + length chunk" "chunks @ [chunk]"]
    by (auto simp: Let_def)
qed simp

text \<open>Reading the revocation response is bounded: when each read returns at most what was
  asked for, the loop ends within \<open>MAX_BODY + 3\<close> reads whatever the server sends, and a body
  it returns has at most \<open>MAX_BODY\<close> bytes.\<close>

theorem read_body_terminates:
  assumes "\<And>n k. length (snd (response n k)) \<le> n"
  shows "\<exists>r. read_body (MAX_BODY + 3) response deadline [] 0 = Some r \<and>
           (case r of Inl _ \<Rightarrow> True | Inr body \<Rightarrow> length body \<le> MAX_BODY)"
  using read_body_bounded [of response 0 "[]" "MAX_BODY + 3" deadline] assms
  by (auto split: sum.split)

lemma read_body_terminates_witness:
  "\<exists>r. read_body (MAX_BODY + 3) (\<lambda>n k. (0, replicate (min n 7) (CHR ''x''))) 6 [] 0 = Some r \<and>
     (case r of Inl _ \<Rightarrow> True | Inr body \<Rightarrow> length body \<le> MAX_BODY)"
  by (rule read_body_terminates) simp

section \<open>Group pushes\<close>

lemma group_names_content: "group_names (Content gs) = Inr (map fst gs)"
  by (simp add: group_names_def list_groups_def group_to_dict_def split_def comp_def)

lemma apply_group_change_content:
  "map_of gs g = Some grp \<Longrightarrow>
     apply_group_change known u g m (Content gs) =
       Inr (Content (dict_set g
         (with_members known (if m then insert u (member_set grp) else member_set grp - {u}) grp) gs))"
  by (simp add: apply_group_change_def add_group_member_content remove_group_member_content)


end
