(* ===== verification/SuiteFetch.thy ===== *)
theory SuiteFetch
  imports TsuiteAdapter
begin

text \<open>
  \<^verbatim>\<open>make_http_fetch\<close> of \<^verbatim>\<open>app/tsuite_adapter.py\<close>: the request for 4tSuite's
  revocation list, through an opener that follows no redirect, and the session checker on top of it. A
  server is a function from the address and the \<^verbatim>\<open>Authorization\<close> header to its answer, none
  for a failed connection; \<^verbatim>\<open>json.loads\<close> and the clocks are arguments. The opener is the
  part of \<^verbatim>\<open>urllib.request\<close> that decides which requests are sent; TLS contexts and proxies
  are not modelled.
\<close>

section \<open>Opening an address\<close>

record http_answer =
  ha_status :: nat
  ha_location :: "string option"
  ha_read :: "nat \<Rightarrow> nat \<Rightarrow> rat \<times> string"

type_synonym web_server = "string \<Rightarrow> string \<Rightarrow> http_answer option"
type_synonym sent_request = "string \<times> string"

text \<open>\<^verbatim>\<open>opener.open\<close> with \<^verbatim>\<open>redirect_request\<close> as an argument: the requests it sends,
  and the answer it returns or no answer when it raises. A redirect with an address goes to
  \<^verbatim>\<open>redirect_request\<close>, which keeps the headers; when that gives nothing, and for every
  other status outside 200 to 299, it raises. The number bounds the redirects, as the library's
  \<^verbatim>\<open>max_redirections\<close> does.\<close>

fun open_url ::
  "(string \<Rightarrow> string option) \<Rightarrow> nat \<Rightarrow> web_server \<Rightarrow> string \<Rightarrow> string \<Rightarrow> sent_request list \<times> http_answer option" where
  "open_url redirect_request n server url auth =
     (case server url auth of
        None \<Rightarrow> ([(url, auth)], None)
      | Some a \<Rightarrow>
          if 200 \<le> ha_status a \<and> ha_status a < 300 then ([(url, auth)], Some a)
          else if ha_status a \<in> {301, 302, 303, 307, 308} then
            (case (n, Option.bind (ha_location a) redirect_request) of
               (Suc k, Some url') \<Rightarrow>
                 (case open_url redirect_request k server url' auth of (sent, r) \<Rightarrow> ((url, auth) # sent, r))
             | _ \<Rightarrow> ([(url, auth)], None))
          else ([(url, auth)], None))"

declare open_url.simps [simp del]

definition MAX_REDIRECTIONS :: nat where "MAX_REDIRECTIONS = 10"

text \<open>\<^verbatim>\<open>_NoRedirect\<close>\<close>

definition no_redirect :: "string \<Rightarrow> string option" where
  "no_redirect location = None"

section \<open>The fetch and the checker\<close>

definition revocations_url :: "string \<Rightarrow> string" where
  "revocations_url suite_url = rev (dropWhile (\<lambda>c. c = CHR ''/'') (rev suite_url)) @ ''/revocations''"

text \<open>\<^verbatim>\<open>fetch()\<close>: the requests sent and the payload, or none for any exception. \<open>start\<close> is
  the monotonic clock before the request.\<close>

definition http_fetch ::
  "(string \<Rightarrow> json option) \<Rightarrow> rat \<Rightarrow> string \<Rightarrow> string \<Rightarrow> web_server \<Rightarrow> rat \<Rightarrow> sent_request list \<times> json option" where
  "http_fetch loads timeout suite_url tok server start =
     (case open_url no_redirect MAX_REDIRECTIONS server (revocations_url suite_url) (''Bearer '' @ tok) of
        (sent, None) \<Rightarrow> (sent, None)
      | (sent, Some a) \<Rightarrow>
          (sent,
           case read_body (MAX_BODY + 3) (ha_read a) (start + 2 * timeout) [] 0 of
             Some (Inr body) \<Rightarrow> loads body
           | _ \<Rightarrow> None))"

text \<open>\<^verbatim>\<open>session_checker_from_env\<close>: the checker with the fetch it was made with, none when the
  environment does not name both the address and the token.\<close>

record suite_checker =
  sk_url :: string
  sk_token :: string
  sk_verify_tls :: bool
  sk_state :: checker_state

definition session_checker_from_env :: "(string, string) dict \<Rightarrow> rat \<Rightarrow> suite_checker option" where
  "session_checker_from_env environ created =
     map_option (\<lambda>(url, tok, verify).
       \<lparr>sk_url = url, sk_token = tok, sk_verify_tls = verify, sk_state = make_session_checker created\<rparr>)
     (session_checker_configured environ)"

definition FETCH_TIMEOUT :: rat where "FETCH_TIMEOUT = 3"

text \<open>One call of the checker, at a wall clock and a monotonic clock, with the server as it is then.\<close>

record suite_call =
  sc_now :: rat
  sc_start :: rat
  sc_user :: string
  sc_login :: rat
  sc_server :: web_server

definition suite_check ::
  "(string \<Rightarrow> json option) \<Rightarrow> suite_call \<Rightarrow> suite_checker \<Rightarrow> (rat \<times> sent_request) list \<times> bool \<times> suite_checker" where
  "suite_check loads c k =
     (case http_fetch loads FETCH_TIMEOUT (sk_url k) (sk_token k) (sc_server c) (sc_start c) of
        (sent, fetched) \<Rightarrow>
          (case sso_session_valid CACHE_SECONDS GRACE_SECONDS (sc_now c) (sc_user c) (sc_login c) fetched (sk_state k) of
             (valid, st) \<Rightarrow>
               (if stale CACHE_SECONDS (sc_now c) (sk_state k) then map (Pair (sc_now c)) sent else [],
                valid, k\<lparr>sk_state := st\<rparr>)))"

fun suite_checks ::
  "(string \<Rightarrow> json option) \<Rightarrow> suite_call list \<Rightarrow> suite_checker \<Rightarrow> (rat \<times> sent_request) list \<times> suite_checker" where
  "suite_checks loads [] k = ([], k)"
| "suite_checks loads (c # cs) k =
     (case suite_check loads c k of
        (sent, _, k') \<Rightarrow> (case suite_checks loads cs k' of (later, k'') \<Rightarrow> (sent @ later, k'')))"

section \<open>Which requests are sent\<close>

lemma open_url_no_redirect:
  "open_url no_redirect n server url auth =
     ([(url, auth)],
      Option.bind (server url auth) (\<lambda>a. if 200 \<le> ha_status a \<and> ha_status a < 300 then Some a else None))"
proof -
  have "Option.bind x no_redirect = None" for x by (cases x) (simp_all add: no_redirect_def)
  then show ?thesis by (subst open_url.simps) (simp split: option.split nat.split)
qed

lemma http_fetch_sent:
  "fst (http_fetch loads timeout url tok server start) = [(revocations_url url, ''Bearer '' @ tok)]"
  by (simp add: http_fetch_def open_url_no_redirect split: option.split)

text \<open>A payload is what one answer with a status of success, read in time and within the limit,
  decodes to.\<close>

lemma http_fetch_payload:
  assumes "snd (http_fetch loads timeout url tok server start) = Some p"
  obtains a body where "server (revocations_url url) (''Bearer '' @ tok) = Some a"
    "200 \<le> ha_status a" "ha_status a < 300"
    "read_body (MAX_BODY + 3) (ha_read a) (start + 2 * timeout) [] 0 = Some (Inr body)" "loads body = Some p"
  using assms
  by (auto simp: http_fetch_def open_url_no_redirect bind_eq_Some_conv split: option.splits sum.splits if_splits)

text \<open>The next request waits for what is left of the cache time, or of the retry time after a failure.\<close>

definition quiet_until :: "suite_checker \<Rightarrow> rat option" where
  "quiet_until k = map_option (\<lambda>a. a + CACHE_SECONDS) (fetched_at (sk_state k))"

lemma suite_check_sent:
  assumes "suite_check loads c k = (sent, v, k')"
  shows "sk_url k' = sk_url k \<and> sk_token k' = sk_token k \<and>
    (sent = [] \<and> quiet_until k' = quiet_until k \<or>
     sent = [(sc_now c, revocations_url (sk_url k), ''Bearer '' @ sk_token k)] \<and>
     (case quiet_until k of None \<Rightarrow> True | Some q \<Rightarrow> q \<le> sc_now c) \<and>
     (case quiet_until k' of None \<Rightarrow> False | Some q \<Rightarrow> sc_now c + RETRY_SECONDS \<le> q))"
proof -
  obtain fetched where f: "http_fetch loads FETCH_TIMEOUT (sk_url k) (sk_token k) (sc_server c) (sc_start c) =
      ([(revocations_url (sk_url k), ''Bearer '' @ sk_token k)], fetched)"
    by (metis http_fetch_sent prod.collapse)
  show ?thesis
    using assms
    by (auto simp: suite_check_def f sso_session_valid_def refresh_def stale_def quiet_until_def Let_def
        CACHE_SECONDS_def RETRY_SECONDS_def split: prod.splits option.splits if_splits)
qed

lemma suite_checks_sent:
  "list_all (\<lambda>(t, url, auth). url = revocations_url (sk_url k) \<and> auth = ''Bearer '' @ sk_token k)
     (fst (suite_checks loads cs k)) \<and>
   successively (\<lambda>(t, _) (t', _). t + RETRY_SECONDS \<le> t') (fst (suite_checks loads cs k)) \<and>
   (case (fst (suite_checks loads cs k), quiet_until k) of ((t, _) # _, Some q) \<Rightarrow> q \<le> t | _ \<Rightarrow> True)"
proof (induction cs arbitrary: k)
  case (Cons c cs)
  obtain sent v k' where s: "suite_check loads c k = (sent, v, k')" by (metis prod_cases3)
  define rest where "rest = fst (suite_checks loads cs k')"
  have all: "fst (suite_checks loads (c # cs) k) = sent @ rest" by (simp add: s rest_def split_beta)
  note IH = Cons.IH [of k', folded rest_def]
  have k': "sk_url k' = sk_url k" "sk_token k' = sk_token k" using suite_check_sent [OF s] by simp_all
  from suite_check_sent [OF s] consider
      (fresh) "sent = []" "quiet_until k' = quiet_until k"
    | (asked) "sent = [(sc_now c, revocations_url (sk_url k), ''Bearer '' @ sk_token k)]"
        "case quiet_until k' of None \<Rightarrow> False | Some q \<Rightarrow> sc_now c + RETRY_SECONDS \<le> q"
        "case quiet_until k of None \<Rightarrow> True | Some q \<Rightarrow> q \<le> sc_now c"
    by blast
  then show ?case
  proof cases
    case fresh
    with IH k' show ?thesis unfolding all by simp
  next
    case asked
    with IH k' show ?thesis unfolding all by (cases rest) (auto split: option.splits)
  qed
qed simp

text \<open>C22. The token for 4tSuite goes to one place, and not too often. Whatever the servers answer,
  redirects to another host, failures and refused connections included, every request that any sequence
  of checks sends goes to \<^verbatim>\<open>/revocations\<close> below the configured address, with the configured
  token, and two requests are at least five seconds apart, so a server that is down is not hammered.
  A process without both settings has no checker.\<close>

theorem suite_requests_confined:
  "let address = strip (dict_get environ ''TSUITE_REVOCATIONS_URL'' []);
       tok = strip (dict_get environ ''TSUITE_REVOCATIONS_TOKEN'' [])
   in case session_checker_from_env environ created of
        None \<Rightarrow> address = [] \<or> tok = []
      | Some k \<Rightarrow>
          (case suite_checks loads calls k of
             (sent, _) \<Rightarrow>
               list_all (\<lambda>(t, url, auth). url = revocations_url address \<and> auth = ''Bearer '' @ tok) sent \<and>
               successively (\<lambda>(t, _) (t', _). t + 5 \<le> t') sent)"
proof (cases "session_checker_from_env environ created")
  case None
  then show ?thesis
    by (auto simp: session_checker_from_env_def session_checker_configured_def Let_def split: if_splits)
next
  case (Some k)
  then have "sk_url k = strip (dict_get environ ''TSUITE_REVOCATIONS_URL'' [])"
    "sk_token k = strip (dict_get environ ''TSUITE_REVOCATIONS_TOKEN'' [])"
    by (auto simp: session_checker_from_env_def session_checker_configured_def Let_def split: if_splits)
  with suite_checks_sent [of k loads calls] Some show ?thesis
    by (simp add: Let_def RETRY_SECONDS_def split_beta)
qed

text \<open>With an opener that follows redirects, the same server would get the token sent elsewhere.\<close>

lemma followed_redirect_leaks:
  "fst (open_url Some MAX_REDIRECTIONS
          (\<lambda>url auth. if url = ''https://suite/revocations''
                      then Some \<lparr>ha_status = 302, ha_location = Some ''https://other/'', ha_read = \<lambda>_ _. (0, [])\<rparr>
                      else None)
          ''https://suite/revocations'' ''Bearer t'') =
     [(''https://suite/revocations'', ''Bearer t''), (''https://other/'', ''Bearer t'')]"
  by (simp add: open_url.simps MAX_REDIRECTIONS_def numeral_eq_Suc)

end
