(* ===== verification/FazTargets.thy ===== *)
theory FazTargets
  imports Stores PyString
begin

text \<open>
  \<^verbatim>\<open>app/faz_targets.py\<close>: the FortiAnalyzer appliances of \<^verbatim>\<open>faz_targets.json\<close>, a
  JSON array in which the label is the key. Every field of an entry may be missing from a
  hand-edited file. \<^verbatim>\<open>_load\<close> sets \<^verbatim>\<open>threat_poll_enabled\<close> where it is absent and
  reads an unreadable file as the empty list (it logs the failure, which is not modelled
  here); the SNMP overrides are a dictionary over the five names of
  \<^verbatim>\<open>_SNMP_FIELDS\<close>.
\<close>

datatype snmp_field = Snmp_user | Snmp_auth_key | Snmp_priv_key | Snmp_auth_protocol
  | Snmp_priv_protocol | Other_field string

definition SNMP_FIELDS :: "snmp_field list" where
  "SNMP_FIELDS =
     [Snmp_user, Snmp_auth_key, Snmp_priv_key, Snmp_auth_protocol, Snmp_priv_protocol]"

record target =
  label :: "string option"
  host :: "string option"
  adom :: "string option"
  token :: "string option"
  threat_poll_enabled :: "bool option"
  snmp :: "(snmp_field, string) dict"

type_synonym targets_file = "target list json_file"

definition setdefault_poll :: "target \<Rightarrow> target" where
  "setdefault_poll t =
     (case threat_poll_enabled t of
        None \<Rightarrow> t\<lparr>threat_poll_enabled := Some True\<rparr>
      | Some _ \<Rightarrow> t)"

definition load_targets :: "targets_file \<Rightarrow> target list" where
  "load_targets f =
     (case f of Absent \<Rightarrow> [] | Unreadable \<Rightarrow> [] | Content ts \<Rightarrow> map setdefault_poll ts)"

definition list_targets :: "targets_file \<Rightarrow> target list" where
  "list_targets f = load_targets f"

definition get_target :: "string \<Rightarrow> targets_file \<Rightarrow> target option" where
  "get_target l f = find (\<lambda>t. label t = Some l) (load_targets f)"

text \<open>\<^verbatim>\<open>_build_entry\<close> keeps an override when its name is an SNMP field and its value
  is not empty.\<close>

definition build_entry ::
  "string \<Rightarrow> string \<Rightarrow> string \<Rightarrow> string \<Rightarrow> (snmp_field, string) dict option \<Rightarrow> bool \<Rightarrow> target" where
  "build_entry l h a tok overrides poll =
     \<lparr>label = Some l, host = Some h, adom = Some a, token = Some tok,
      threat_poll_enabled = Some poll,
      snmp = fold (\<lambda>(k, v) e. if k \<in> set SNMP_FIELDS \<and> v \<noteq> [] then dict_set k v e else e)
               (case overrides of None \<Rightarrow> [] | Some d \<Rightarrow> d) []\<rparr>"

definition create_target ::
  "string \<Rightarrow> string \<Rightarrow> string \<Rightarrow> string \<Rightarrow> (snmp_field, string) dict option \<Rightarrow> bool
   \<Rightarrow> targets_file \<Rightarrow> (bool \<times> targets_file) result" where
  "create_target lbl h a tok overrides poll f =
     (let l = strip lbl in
      if l = [] then Inl (ValueError ''Target label cannot be empty.'')
      else
        (let targets = load_targets f in
         if list_ex (\<lambda>t. label t = Some l) targets then Inr (False, f)
         else Inr (True, Content (targets @ [build_entry l h a tok overrides poll]))))"

text \<open>The stored overrides, then the caller's on top (\<^verbatim>\<open>dict.update\<close>).\<close>

definition merged_overrides ::
  "target \<Rightarrow> (snmp_field, string) dict option \<Rightarrow> (snmp_field, string) dict" where
  "merged_overrides t overrides =
     dict_update
       (concat (map (\<lambda>key. case map_of (snmp t) key of None \<Rightarrow> [] | Some v \<Rightarrow> [(key, v)])
          SNMP_FIELDS))
       (case overrides of None \<Rightarrow> [] | Some d \<Rightarrow> d)"

definition updated_entry ::
  "string \<Rightarrow> string \<Rightarrow> string \<Rightarrow> string \<Rightarrow> (snmp_field, string) dict option \<Rightarrow> bool \<Rightarrow> target
   \<Rightarrow> target" where
  "updated_entry l h a tok overrides poll t =
     (let effective_token = (if tok \<noteq> [] then tok else (case token t of None \<Rightarrow> [] | Some s \<Rightarrow> s))
      in build_entry l h a effective_token (Some (merged_overrides t overrides)) poll)"

text \<open>The loop of \<^verbatim>\<open>update_target\<close>: it rewrites the first entry with the label and
  returns.\<close>

fun replace_first :: "string \<Rightarrow> (target \<Rightarrow> target) \<Rightarrow> target list \<Rightarrow> target list option" where
  "replace_first l g [] = None"
| "replace_first l g (t # ts) =
     (if label t = Some l then Some (g t # ts) else map_option ((#) t) (replace_first l g ts))"

definition update_target ::
  "string \<Rightarrow> string \<Rightarrow> string \<Rightarrow> string \<Rightarrow> (snmp_field, string) dict option \<Rightarrow> bool
   \<Rightarrow> targets_file \<Rightarrow> bool \<times> targets_file" where
  "update_target l h a tok overrides poll f =
     (case replace_first l (updated_entry l h a tok overrides poll) (load_targets f) of
        None \<Rightarrow> (False, f)
      | Some ts \<Rightarrow> (True, Content ts))"

definition delete_target :: "string \<Rightarrow> targets_file \<Rightarrow> bool \<times> targets_file" where
  "delete_target l f =
     (let targets = load_targets f;
          remaining = filter (\<lambda>t. label t \<noteq> Some l) targets
      in if length remaining = length targets then (False, f) else (True, Content remaining))"

section \<open>The target store\<close>

definition labels :: "targets_file \<Rightarrow> string option list" where
  "labels f = map label (load_targets f)"

text \<open>The invariant of the file: no label occurs twice.\<close>

definition wf_targets :: "targets_file \<Rightarrow> bool" where
  "wf_targets f \<longleftrightarrow> distinct (filter (\<lambda>l. l \<noteq> None) (labels f)) \<and> f \<noteq> Unreadable"

lemma label_setdefault [simp]: "label (setdefault_poll t) = label t"
  by (simp add: setdefault_poll_def split: option.splits)

lemma setdefault_build [simp]:
  "setdefault_poll (build_entry l h a tok ov p) = build_entry l h a tok ov p"
  "label (build_entry l h a tok ov p) = Some l"
  by (simp_all add: setdefault_poll_def build_entry_def)

lemma setdefault_idem [simp]: "setdefault_poll (setdefault_poll t) = setdefault_poll t"
  by (simp add: setdefault_poll_def split: option.splits)

lemma load_targets_loaded:
  "load_targets (Content (load_targets f)) = load_targets f"
  by (cases f) (simp_all add: load_targets_def)

lemma loaded_setdefault: "map setdefault_poll (load_targets f) = load_targets f"
  by (cases f) (simp_all add: load_targets_def)

lemma find_None_label: "find (\<lambda>t. label t = Some l) ts = None \<longleftrightarrow> Some l \<notin> label ` set ts"
  by (auto simp: find_None_iff image_iff)

lemma updated_label [simp]: "label (updated_entry l h a tok ov p t) = Some l"
  "setdefault_poll (updated_entry l h a tok ov p t) = updated_entry l h a tok ov p t"
  by (simp_all add: updated_entry_def Let_def)

lemma replace_first_None:
  "replace_first l g ts = None \<longleftrightarrow> find (\<lambda>t. label t = Some l) ts = None"
  by (induction ts) auto

lemma replace_first_find:
  assumes "\<And>t. label (g t) = Some l"
  shows "replace_first l g ts = Some us \<Longrightarrow>
    find (\<lambda>t. label t = Some j) us =
      (if j = l then map_option g (find (\<lambda>t. label t = Some l) ts)
       else find (\<lambda>t. label t = Some j) ts)"
  by (induction ts arbitrary: us) (auto simp: assms split: if_splits)

lemma replace_first_labels:
  assumes "\<And>t. label (g t) = Some l"
  shows "replace_first l g ts = Some us \<Longrightarrow> map label us = map label ts"
  by (induction ts arbitrary: us) (auto simp: assms split: if_splits)

lemma replace_first_setdefault:
  assumes "\<And>t. setdefault_poll (g t) = g t"
  shows "replace_first l g ts = Some us \<Longrightarrow> map setdefault_poll ts = ts \<Longrightarrow>
    map setdefault_poll us = us"
  by (induction ts arbitrary: us) (auto simp: assms split: if_splits)

record target_args =
  ta_host :: string
  ta_adom :: string
  ta_token :: string
  ta_snmp :: "(snmp_field, string) dict option"
  ta_poll :: bool

definition add_target :: "string \<Rightarrow> target_args \<Rightarrow> targets_file \<Rightarrow> targets_file option" where
  "add_target l x f =
     (case create_target l (ta_host x) (ta_adom x) (ta_token x) (ta_snmp x) (ta_poll x) f of
        Inr (True, f') \<Rightarrow> Some f' | _ \<Rightarrow> None)"

definition upd_target :: "string \<Rightarrow> target_args \<Rightarrow> targets_file \<Rightarrow> targets_file option" where
  "upd_target l x f =
     (case update_target l (ta_host x) (ta_adom x) (ta_token x) (ta_snmp x) (ta_poll x) f of
        (True, f') \<Rightarrow> Some f' | _ \<Rightarrow> None)"

definition del_target :: "string \<Rightarrow> targets_file \<Rightarrow> targets_file option" where
  "del_target l f = (case delete_target l f of (True, f') \<Rightarrow> Some f' | _ \<Rightarrow> None)"

definition clean_label :: "string \<Rightarrow> bool" where
  "clean_label l \<longleftrightarrow> l \<noteq> [] \<and> strip l = l"

definition target_lookup :: "targets_file \<Rightarrow> string \<Rightarrow> target option" where
  "target_lookup f l = get_target l f"

lemma add_target_eq:
  assumes "clean_label l"
  shows "add_target l x f =
    (if get_target l f = None
     then Some (Content (load_targets f @
       [build_entry l (ta_host x) (ta_adom x) (ta_token x) (ta_snmp x) (ta_poll x)]))
     else None)"
  using assms
  by (auto simp: add_target_def create_target_def clean_label_def Let_def get_target_def
        list_ex_iff find_None_iff)

lemma upd_target_eq:
  "upd_target l x f =
     map_option Content (replace_first l
       (updated_entry l (ta_host x) (ta_adom x) (ta_token x) (ta_snmp x) (ta_poll x))
       (load_targets f))"
  by (simp add: upd_target_def update_target_def split: option.splits)

lemma del_target_eq:
  "del_target l f =
     (if get_target l f = None then None
      else Some (Content (filter (\<lambda>t. label t \<noteq> Some l) (load_targets f))))"
  by (auto simp: del_target_def delete_target_def Let_def get_target_def find_None_iff
        filter_same_length)

lemma loaded_fixed: "t \<in> set (load_targets f) \<Longrightarrow> setdefault_poll t = t"
  by (cases f) (auto simp: load_targets_def)

lemma load_content:
  assumes "\<And>t. t \<in> set ts \<Longrightarrow> setdefault_poll t = t"
  shows "load_targets (Content ts) = ts"
  using assms by (simp add: load_targets_def map_idI)

lemma find_filter_other:
  "find (\<lambda>t. label t = Some j) (filter (\<lambda>t. label t \<noteq> Some l) ts) =
     (if j = l then None else find (\<lambda>t. label t = Some j) ts)"
  by (induction ts) auto

lemma add_target_get:
  assumes "clean_label l" and "add_target l x f = Some g"
  shows "load_targets g = load_targets f @
      [build_entry l (ta_host x) (ta_adom x) (ta_token x) (ta_snmp x) (ta_poll x)]"
  using assms by (auto simp: add_target_eq intro!: load_content dest: loaded_fixed split: if_splits)

lemma upd_target_get:
  assumes "upd_target l x f = Some g"
  shows "replace_first l (updated_entry l (ta_host x) (ta_adom x) (ta_token x) (ta_snmp x)
      (ta_poll x)) (load_targets f) = Some (load_targets g)"
proof -
  let ?u = "updated_entry l (ta_host x) (ta_adom x) (ta_token x) (ta_snmp x) (ta_poll x)"
  obtain us where us: "replace_first l ?u (load_targets f) = Some us" and g: "g = Content us"
    using assms by (auto simp: upd_target_eq)
  have "map setdefault_poll us = us"
    by (rule replace_first_setdefault [OF _ us loaded_setdefault]) simp
  then show ?thesis using us g by (simp add: load_targets_def)
qed

lemma del_target_get:
  "del_target l f = Some g \<Longrightarrow>
     load_targets g = filter (\<lambda>t. label t \<noteq> Some l) (load_targets f)"
  by (auto simp: del_target_eq intro!: load_content dest: loaded_fixed split: if_splits)

lemma distinct_filter_labels:
  "distinct (filter P (map label ts)) \<Longrightarrow> distinct (filter P (map label (filter Q ts)))"
  by (induction ts) auto

interpretation target_store: crud_store
  clean_label wf_targets target_lookup add_target upd_target del_target
  "\<lambda>l x. build_entry l (ta_host x) (ta_adom x) (ta_token x) (ta_snmp x) (ta_poll x)"
  "\<lambda>l x t. updated_entry l (ta_host x) (ta_adom x) (ta_token x) (ta_snmp x) (ta_poll x) t"
proof unfold_locales
  fix l j :: string and x f g
  assume l: "clean_label l" and wf: "wf_targets f"
  show "add_target l x f = None \<longleftrightarrow> target_lookup f l \<noteq> None"
    using l by (simp add: add_target_eq target_lookup_def)
  show "upd_target l x f = None \<longleftrightarrow> target_lookup f l = None"
    by (simp add: upd_target_eq replace_first_None target_lookup_def get_target_def)
  show "del_target l f = None \<longleftrightarrow> target_lookup f l = None"
    by (simp add: del_target_eq target_lookup_def)
  {
    assume a: "add_target l x f = Some g"
    then have find: "find (\<lambda>t. label t = Some l) (load_targets f) = None"
      using l by (auto simp: add_target_eq get_target_def split: if_splits)
    then have none: "Some l \<notin> set (labels f)" by (simp add: find_None_label labels_def)
    have g: "g \<noteq> Unreadable" using a l by (auto simp: add_target_eq split: if_splits)
    show "wf_targets g"
      using wf none g add_target_get [OF l a] by (auto simp: wf_targets_def labels_def)
    show "target_lookup g j = (if j = l then Some (build_entry l (ta_host x) (ta_adom x)
        (ta_token x) (ta_snmp x) (ta_poll x)) else target_lookup f j)"
      using find add_target_get [OF l a]
      by (auto simp: target_lookup_def get_target_def find_append split: option.splits)
  next
    assume u: "upd_target l x f = Some g"
    note us = upd_target_get [OF u]
    have "g \<noteq> Unreadable" using u by (auto simp: upd_target_eq)
    then show "wf_targets g"
      using wf replace_first_labels [OF _ us] by (simp add: wf_targets_def labels_def)
    show "target_lookup g j = (if j = l then map_option (updated_entry l (ta_host x) (ta_adom x)
        (ta_token x) (ta_snmp x) (ta_poll x)) (target_lookup f l) else target_lookup f j)"
      using replace_first_find [OF _ us] by (simp add: target_lookup_def get_target_def)
  next
    assume d: "del_target l f = Some g"
    have "g \<noteq> Unreadable" using d by (auto simp: del_target_eq split: if_splits)
    then show "wf_targets g"
      using wf del_target_get [OF d] distinct_filter_labels
      by (auto simp: wf_targets_def labels_def)
    show "target_lookup g j = (if j = l then None else target_lookup f j)"
      using del_target_get [OF d] by (simp add: target_lookup_def get_target_def find_filter_other)
  }
qed

lemma snmp_build:
  "wf_dict d \<Longrightarrow>
     map_of (fold (\<lambda>(k, v) e. if k \<in> set SNMP_FIELDS \<and> v \<noteq> [] then dict_set k v e else e) d e) j =
     (case map_of d j of
        Some v \<Rightarrow> if j \<in> set SNMP_FIELDS \<and> v \<noteq> [] then Some v else map_of e j
      | None \<Rightarrow> map_of e j)"
proof (induction d arbitrary: e)
  case (Cons kv d)
  obtain k v where kv: "kv = (k, v)" by (cases kv)
  have "map_of d k = None" using Cons.prems kv by (simp add: map_of_eq_None_iff)
  then show ?case using Cons kv by (auto split: option.splits)
qed simp

abbreviation overrides_of :: "(snmp_field, string) dict option \<Rightarrow> (snmp_field, string) dict" where
  "overrides_of ov \<equiv> (case ov of None \<Rightarrow> [] | Some d \<Rightarrow> d)"

lemma comprehension_lookup:
  "map_of (concat (map (\<lambda>k. case map_of d k of None \<Rightarrow> [] | Some v \<Rightarrow> [(k, v)]) ks)) j =
     (if j \<in> set ks then map_of d j else None)"
  by (induction ks) (auto simp: map_add_def split: option.splits)

lemma comprehension_keys:
  "set (map fst (concat (map (\<lambda>k. case map_of d k of None \<Rightarrow> [] | Some v \<Rightarrow> [(k, v)]) ks)))
     \<subseteq> set ks"
  by (induction ks) (auto split: option.splits)

lemma distinct_comprehension:
  "distinct ks \<Longrightarrow>
     wf_dict (concat (map (\<lambda>k. case map_of d k of None \<Rightarrow> [] | Some v \<Rightarrow> [(k, v)]) ks))"
proof (induction ks)
  case (Cons k ks)
  then show ?case using comprehension_keys [of d ks] by (auto split: option.splits)
qed simp

lemma updated_snmp:
  assumes "wf_dict (overrides_of ov)" and "k \<in> set SNMP_FIELDS"
  shows "map_of (snmp (updated_entry l h a tok ov p t)) k =
    (case map_of (overrides_of ov) k of
       Some v \<Rightarrow> if v = [] then None else Some v
     | None \<Rightarrow> (case map_of (snmp t) k of Some v \<Rightarrow> if v = [] then None else Some v | None \<Rightarrow> None))"
proof -
  have wf: "wf_dict (merged_overrides t ov)"
    unfolding merged_overrides_def
    by (rule wf_dict_update, rule distinct_comprehension) (simp add: SNMP_FIELDS_def)
  have "map_of (merged_overrides t ov) k =
      (case map_of (overrides_of ov) k of None \<Rightarrow> map_of (snmp t) k | Some v \<Rightarrow> Some v)"
    using assms(2)
    by (simp add: merged_overrides_def dict_lookup_update map_of_rev [OF assms(1)]
          comprehension_lookup split: option.splits)
  then show ?thesis
    using assms(2)
    by (auto simp: updated_entry_def Let_def build_entry_def snmp_build [OF wf] split: option.splits)
qed

lemma updated_fields [simp]:
  "host (updated_entry l h a tok ov p t) = Some h"
  "adom (updated_entry l h a tok ov p t) = Some a"
  "threat_poll_enabled (updated_entry l h a tok ov p t) = Some p"
  "token (updated_entry l h a tok ov p t) =
     Some (if tok \<noteq> [] then tok else case token t of None \<Rightarrow> [] | Some s \<Rightarrow> s)"
  by (simp_all add: updated_entry_def build_entry_def Let_def)

section \<open>Properties\<close>

text \<open>
  Editing a target keeps the secrets the admin page does not send: an update with a blank
  token keeps the stored token (a non-blank one replaces it), every SNMP override the caller
  does not name keeps its stored value, the host, ADOM and polling flag are the caller's, and
  no other target changes.
\<close>

theorem update_target_keeps_secrets:
  assumes found: "get_target l f = Some t"
    and wf: "wf_dict (overrides_of ov)"
    and upd: "update_target l h a tok ov p f = (True, f')"
  shows "\<exists>t'. get_target l f' = Some t' \<and>
    host t' = Some h \<and> adom t' = Some a \<and> threat_poll_enabled t' = Some p \<and>
    token t' = Some (if tok \<noteq> [] then tok else case token t of None \<Rightarrow> [] | Some s \<Rightarrow> s) \<and>
    (\<forall>k \<in> set SNMP_FIELDS. map_of (overrides_of ov) k = None \<longrightarrow> map_of (snmp t) k \<noteq> Some [] \<longrightarrow>
       map_of (snmp t') k = map_of (snmp t) k) \<and>
    (\<forall>m. m \<noteq> l \<longrightarrow> get_target m f' = get_target m f)"
proof -
  let ?x = "\<lparr>ta_host = h, ta_adom = a, ta_token = tok, ta_snmp = ov, ta_poll = p\<rparr>"
  have "upd_target l ?x f = Some f'" using upd by (simp add: upd_target_def)
  note us = upd_target_get [OF this, simplified]
  have get: "get_target m f' = (if m = l then Some (updated_entry l h a tok ov p t)
      else get_target m f)" for m
    using replace_first_find [OF _ us, of m] found by (simp add: get_target_def)
  show ?thesis
    by (rule exI [of _ "updated_entry l h a tok ov p t"])
      (auto simp: get updated_snmp [OF wf] split: option.splits)
qed

theorem update_target_keeps_secrets_witness:
  "get_target ''lab'' (Content [\<lparr>label = Some ''lab'', host = Some ''10.0.0.9'', adom = Some ''root'',
      token = Some ''s3cret'', threat_poll_enabled = Some False,
      snmp = [(Snmp_user, ''mon'')]\<rparr>]) \<noteq> None"
proof -
  let ?t = "\<lparr>label = Some ''lab'', host = Some ''10.0.0.1'', adom = Some ''root'',
      token = Some ''s3cret'', threat_poll_enabled = Some True, snmp = [(Snmp_user, ''mon'')]\<rparr>"
  let ?f' = "Content [\<lparr>label = Some ''lab'', host = Some ''10.0.0.9'', adom = Some ''root'',
      token = Some ''s3cret'', threat_poll_enabled = Some False, snmp = [(Snmp_user, ''mon'')]\<rparr>]"
  have g: "get_target ''lab'' (Content [?t]) = Some ?t" by code_simp
  have u: "update_target ''lab'' ''10.0.0.9'' ''root'' [] None False (Content [?t]) = (True, ?f')"
    by code_simp
  show ?thesis
    using update_target_keeps_secrets [OF g _ u] by auto
qed

text \<open>
  The target list keeps its invariant under the admin pages: after any sequence of create,
  update and delete requests with proper labels, accepted or refused, no label occurs twice,
  the file is readable, and a target none of the requests names is exactly as it was.
\<close>

theorem target_requests_invariant:
  assumes "wf_targets f" and "\<forall>x \<in> set xs. clean_label (op_key x)"
  shows "wf_targets (fold (crud_step add_target upd_target del_target) xs f) \<and>
    (\<forall>m. m \<notin> op_key ` set xs \<longrightarrow>
       get_target m (fold (crud_step add_target upd_target del_target) xs f) = get_target m f)"
  using target_store.run_wf [OF assms(2,1)] target_store.run_frame [OF assms(2,1)]
  by (simp add: target_lookup_def)

theorem target_requests_invariant_witness:
  "wf_targets (fold (crud_step add_target upd_target del_target)
     [Add ''lab'' \<lparr>ta_host = ''h'', ta_adom = ''root'', ta_token = ''t'', ta_snmp = None, ta_poll = True\<rparr>,
      Del ''old''] Absent)"
proof -
  have "wf_targets Absent" "clean_label ''lab''" "clean_label ''old''" by code_simp+
  then show ?thesis
    using target_requests_invariant [of Absent "[Add ''lab'' \<lparr>ta_host = ''h'', ta_adom = ''root'',
      ta_token = ''t'', ta_snmp = None, ta_poll = True\<rparr>, Del ''old'']"] by auto
qed

end
