(* ===== verification/FazClient.thy ===== *)
theory FazClient
  imports PyString
begin

text \<open>
  \<^verbatim>\<open>app/faz_client.py\<close>: the FortiAnalyzer JSON-RPC client. The appliance and the HTTP
  library are one argument of the calls, \<open>post\<close>, from the request body to the decoded answer or
  to the exception the HTTP call raises (\<open>session_post\<close> builds it from the library's own
  exchange); the request identifier in the body grows with every call,
  so the appliance may answer each differently. The clock of the polling loops is a function
  of the number of polls made. Rows and records of the answers are objects with numbers
  where the appliance's schema has numbers; any other value there is a \<open>TypeError\<close>, and
  non-finite numbers are outside the model.
\<close>

section \<open>Exceptions\<close>

datatype conn_error =
    ConnectTimeout
  | SslError
  | ConnectionRefused
  | NameNotKnown
  | OtherConnection
  | ReadTimeout
  | OtherRequestError

datatype faz_cause =
    ErrorEnvelope json
  | BadShape json
  | StatusError json
  | NoTaskId
  | RunTimeout string

datatype client_error =
    FazError faz_cause
  | FazSearchTimeout
  | Http conn_error
  | PyErr py_error

type_synonym 'a reply = "client_error + 'a"

definition summarize_connection_error :: "client_error \<Rightarrow> string" where
  "summarize_connection_error exc =
     (case exc of
        Http ConnectTimeout \<Rightarrow> ''Connection timed out''
      | Http SslError \<Rightarrow> ''TLS/SSL error''
      | Http ConnectionRefused \<Rightarrow> ''Connection refused''
      | Http NameNotKnown \<Rightarrow> ''DNS resolution failed''
      | Http OtherConnection \<Rightarrow> ''Unable to connect''
      | Http ReadTimeout \<Rightarrow> ''Request timed out''
      | _ \<Rightarrow> ''Connection failed'')"

section \<open>The client and its calls\<close>

record rpc =
  rpc_id :: nat
  rpc_method :: string
  rpc_url :: string
  rpc_params :: "(string, json) dict"

type_synonym post = "rpc \<Rightarrow> json reply"

record client =
  c_host :: string
  c_port :: nat
  c_adom :: string
  c_preflight :: string
  c_base_url :: string
  c_req_id :: nat

definition make_client :: "string \<Rightarrow> nat \<Rightarrow> string \<Rightarrow> string option \<Rightarrow> client" where
  "make_client host port adom preflight =
     \<lparr>c_host = host, c_port = port, c_adom = adom,
      c_preflight =
        (if or_default [] preflight = [] then ''/logview/adom/'' @ adom @ ''/logfields''
         else or_default [] preflight),
      c_base_url = ''https://'' @ host @ '':'' @ show_nat port @ ''/jsonrpc'', c_req_id = 0\<rparr>"

text \<open>\<^verbatim>\<open>_post\<close> on the HTTP library's \<^verbatim>\<open>Session.post\<close>: a status from 400 to 599
  (\<^verbatim>\<open>raise_for_status\<close>) and a body that is no JSON raise exceptions of \<^verbatim>\<open>requests\<close>.\<close>

record http_call =
  hc_url :: string
  hc_body :: rpc
  hc_headers :: "(string, string) dict"
  hc_verify :: bool
  hc_timeout :: int

record http_reply =
  hr_status :: nat
  hr_json :: "json option"

definition session_post ::
  "(http_call \<Rightarrow> conn_error + http_reply) \<Rightarrow> string \<Rightarrow> bool \<Rightarrow> int \<Rightarrow> client \<Rightarrow> post" where
  "session_post http tok verify_ssl timeout c body =
     (case http \<lparr>hc_url = c_base_url c, hc_body = body,
                 hc_headers = [(''Authorization'', ''Bearer '' @ tok), (''Content-Type'', ''application/json'')],
                 hc_verify = verify_ssl, hc_timeout = timeout\<rparr> of
        Inl err \<Rightarrow> Inl (Http err)
      | Inr r \<Rightarrow>
          if 400 \<le> hr_status r \<and> hr_status r < 600 then Inl (Http OtherRequestError)
          else (case hr_json r of None \<Rightarrow> Inl (Http OtherRequestError) | Some j \<Rightarrow> Inr j))"

text \<open>\<^verbatim>\<open>"error" in data\<close> and \<^verbatim>\<open>data.get(...)\<close> on an answer that is not an object raise the
  exceptions of Python's containers.\<close>

fun contains_sub :: "string \<Rightarrow> string \<Rightarrow> bool" where
  "contains_sub pat [] \<longleftrightarrow> pat = []"
| "contains_sub pat (c # s) \<longleftrightarrow> startswith pat (c # s) \<or> contains_sub pat s"

fun answer_object :: "json \<Rightarrow> (string, json) dict reply" where
  "answer_object (JObj d) = Inr d"
| "answer_object (JList xs) =
     Inl (PyErr (if JStr ''error'' \<in> set xs then TypeError ''list indices must be integers''
                 else AttributeError ''get''))"
| "answer_object (JStr s) =
     Inl (PyErr (if contains_sub ''error'' s then TypeError ''string indices must be integers''
                 else AttributeError ''get''))"
| "answer_object _ = Inl (PyErr (TypeError ''argument is not iterable''))"

text \<open>\<^verbatim>\<open>x != 0\<close>.\<close>

fun nonzero :: "json \<Rightarrow> bool" where
  "nonzero (JInt i) = (i \<noteq> 0)"
| "nonzero (JFloat r) = (r \<noteq> 0)"
| "nonzero (JBool b) = b"
| "nonzero _ = True"

definition check_status :: "(string, json) dict \<Rightarrow> (string, json) dict reply" where
  "check_status result =
     (case dict_get result ''status'' JNull of
        JNull \<Rightarrow> Inr result
      | JObj status \<Rightarrow>
          if nonzero (dict_get status ''code'' (JInt 0))
          then Inl (FazError (StatusError (dict_get status ''message'' (JStr ''Unknown FortiAnalyzer error''))))
          else Inr result
      | _ \<Rightarrow> Inl (PyErr (AttributeError ''get'')))"

definition unwrap_result :: "json \<Rightarrow> (string, json) dict reply" where
  "unwrap_result data =
     bind_result (answer_object data) (\<lambda>d.
       case map_of d ''error'' of
         Some err \<Rightarrow> Inl (FazError (ErrorEnvelope err))
       | None \<Rightarrow>
           (case (case dict_get d ''result'' JNull of
                    JList [] \<Rightarrow> JObj []
                  | JList (x # _) \<Rightarrow> x
                  | r \<Rightarrow> r) of
              JObj result \<Rightarrow> check_status result
            | _ \<Rightarrow> Inl (FazError (BadShape data))))"

text \<open>One call: the next request identifier, the HTTP exchange, the answer unwrapped.\<close>

definition call_api ::
  "post \<Rightarrow> string \<Rightarrow> string \<Rightarrow> (string, json) dict \<Rightarrow> client \<Rightarrow> (string, json) dict reply \<times> client"
  where
  "call_api post method url params c =
     (let i = Suc (c_req_id c) in
      (bind_result (post \<lparr>rpc_id = i, rpc_method = method, rpc_url = url, rpc_params = params\<rparr>)
         unwrap_result,
       c\<lparr>c_req_id := i\<rparr>))"

definition preflight :: "post \<Rightarrow> client \<Rightarrow> bool reply \<times> client" where
  "preflight post c =
     (case call_api post ''get'' (c_preflight c)
             [(''apiver'', JInt 3), (''devtype'', JStr ''FortiGate''), (''logtype'', JStr ''traffic'')] c of
        (r, c') \<Rightarrow> (bind_result r (\<lambda>_. Inr True), c'))"

text \<open>\<^verbatim>\<open>"field" in data[0]\<close> and \<^verbatim>\<open>data[0]["field"]\<close>.\<close>

fun field_of_first :: "json \<Rightarrow> json reply" where
  "field_of_first (JObj d) = Inr (dict_get d ''field'' (JList []))"
| "field_of_first (JList xs) =
     (if JStr ''field'' \<in> set xs then Inl (PyErr (TypeError ''list indices must be integers''))
      else Inr (JList []))"
| "field_of_first (JStr s) =
     (if contains_sub ''field'' s then Inl (PyErr (TypeError ''string indices must be integers''))
      else Inr (JList []))"
| "field_of_first _ = Inl (PyErr (TypeError ''argument is not iterable''))"

definition log_fields_of :: "(string, json) dict \<Rightarrow> json reply" where
  "log_fields_of result =
     (case dict_get result ''data'' (JList []) of
        JList (x # _) \<Rightarrow> field_of_first x
      | _ \<Rightarrow> Inr (JList []))"

definition get_log_fields :: "post \<Rightarrow> string \<Rightarrow> string \<Rightarrow> client \<Rightarrow> json reply \<times> client" where
  "get_log_fields post logtype devtype c =
     (case call_api post ''get'' (c_preflight c)
             [(''apiver'', JInt 3), (''devtype'', JStr devtype), (''logtype'', JStr logtype)] c of
        (r, c') \<Rightarrow> (bind_result r log_fields_of, c'))"

section \<open>Devices and log statistics\<close>

text \<open>\<^verbatim>\<open>for x in data\<close> where every \<open>x\<close> is then used as an object.\<close>

fun objects_of :: "json list \<Rightarrow> (string, json) dict list reply" where
  "objects_of [] = Inr []"
| "objects_of (JObj d # xs) = bind_result (objects_of xs) (\<lambda>ds. Inr (d # ds))"
| "objects_of (_ # xs) = Inl (PyErr (AttributeError ''get''))"

fun iterate_objects :: "json \<Rightarrow> (string, json) dict list reply" where
  "iterate_objects (JList xs) = objects_of xs"
| "iterate_objects (JObj d) = (if d = [] then Inr [] else Inl (PyErr (AttributeError ''get'')))"
| "iterate_objects (JStr s) = (if s = [] then Inr [] else Inl (PyErr (AttributeError ''get'')))"
| "iterate_objects _ = Inl (PyErr (TypeError ''object is not iterable''))"

record device =
  devid :: json
  dev_name :: json
  platform :: json

definition devices_of :: "(string, json) dict \<Rightarrow> device list reply" where
  "devices_of result =
     bind_result (iterate_objects (dict_get result ''data'' (JList []))) (\<lambda>ds.
       Inr (map (\<lambda>d. \<lparr>devid = dict_get d ''sn'' (JStr []), dev_name = dict_get d ''name'' (JStr []),
                      platform = dict_get d ''platform_str'' (JStr [])\<rparr>)
              (filter (\<lambda>d. truthy (dict_get d ''sn'' JNull)) ds)))"

definition get_devices :: "post \<Rightarrow> client \<Rightarrow> device list reply \<times> client" where
  "get_devices post c =
     (case call_api post ''get'' (''/dvmdb/adom/'' @ c_adom c @ ''/device'') [] c of
        (r, c') \<Rightarrow> (bind_result r devices_of, c'))"

record log_stat =
  ls_devid :: json
  ls_devname :: json
  ls_last :: "rat option"
  ls_rate :: rat

text \<open>A number as \<^verbatim>\<open>max\<close> and \<^verbatim>\<open>sum\<close> take it: a \<^verbatim>\<open>bool\<close> counts as 0 or 1.\<close>

fun py_number :: "json \<Rightarrow> rat reply" where
  "py_number (JInt i) = Inr (of_int i)"
| "py_number (JFloat r) = Inr r"
| "py_number (JBool b) = Inr (if b then 1 else 0)"
| "py_number _ = Inl (PyErr (TypeError ''not a number''))"

fun numbers_of :: "json list \<Rightarrow> rat list reply" where
  "numbers_of [] = Inr []"
| "numbers_of (x # xs) =
     bind_result (py_number x) (\<lambda>r. bind_result (numbers_of xs) (\<lambda>rs. Inr (r # rs)))"

text \<open>\<^verbatim>\<open>x or dflt\<close>.\<close>

definition json_or :: "json \<Rightarrow> json \<Rightarrow> json" where
  "json_or x dflt = (if truthy x then x else dflt)"

definition fold_vdoms :: "(string, json) dict \<Rightarrow> log_stat reply" where
  "fold_vdoms dev =
     bind_result (iterate_objects (json_or (dict_get dev ''vdoms'' JNull) (JList []))) (\<lambda>vdoms.
     bind_result (numbers_of (filter truthy (map (\<lambda>v. dict_get v ''last-log-timestamp'' JNull) vdoms)))
       (\<lambda>stamps.
     bind_result (numbers_of (map (\<lambda>v. dict_get v ''lograte'' (JFloat 0)) vdoms)) (\<lambda>rates.
       Inr \<lparr>ls_devid = dict_get dev ''devid'' (JStr []), ls_devname = dict_get dev ''devname'' (JStr []),
            ls_last = (if stamps = [] then None else Some (Max (set stamps))),
            ls_rate = sum_list rates\<rparr>)))"

fun map_reply :: "('a \<Rightarrow> 'b reply) \<Rightarrow> 'a list \<Rightarrow> 'b list reply" where
  "map_reply f [] = Inr []"
| "map_reply f (x # xs) =
     bind_result (f x) (\<lambda>y. bind_result (map_reply f xs) (\<lambda>ys. Inr (y # ys)))"

definition log_stats_of :: "(string, json) dict \<Rightarrow> log_stat list reply" where
  "log_stats_of result =
     (case json_or (dict_get result ''data'' JNull) (JObj []) of
        JObj d \<Rightarrow>
          bind_result (iterate_objects (json_or (dict_get d ''devs'' JNull) (JList [])))
            (map_reply fold_vdoms)
      | _ \<Rightarrow> Inl (PyErr (AttributeError ''get'')))"

definition get_log_stats :: "post \<Rightarrow> string option \<Rightarrow> client \<Rightarrow> log_stat list reply \<times> client" where
  "get_log_stats post adom c =
     (let target_adom = (if or_default [] adom = [] then c_adom c else or_default [] adom) in
      case call_api post ''get'' (''/logview/adom/'' @ target_adom @ ''/logstats'') [(''apiver'', JInt 3)] c of
        (r, c') \<Rightarrow> (bind_result r log_stats_of, c'))"

section \<open>System status, alerts and time ranges\<close>

definition get_sys_status :: "post \<Rightarrow> client \<Rightarrow> json reply \<times> client" where
  "get_sys_status post c =
     (case call_api post ''get'' ''/sys/status'' [] c of
        (r, c') \<Rightarrow> (bind_result r (\<lambda>result. Inr (dict_get result ''data'' (JObj []))), c'))"

text \<open>\<^verbatim>\<open>int(x)\<close> of a JSON value: numbers are truncated, strings parsed.\<close>

fun json_int :: "json \<Rightarrow> int reply" where
  "json_int (JInt i) = Inr i"
| "json_int (JFloat r) = Inr (if r < 0 then - \<lfloor>- r\<rfloor> else \<lfloor>r\<rfloor>)"
| "json_int (JBool b) = Inr (if b then 1 else 0)"
| "json_int (JStr s) =
     (case py_int s of None \<Rightarrow> Inl (PyErr (ValueError ''invalid literal'')) | Some i \<Rightarrow> Inr i)"
| "json_int (JNonFinite NaN) = Inl (PyErr (ValueError ''cannot convert float NaN to integer''))"
| "json_int (JNonFinite _) = Inl (PyErr (OverflowError ''cannot convert float infinity to integer''))"
| "json_int _ = Inl (PyErr (TypeError ''int() argument''))"

definition alert_count_of :: "(string, json) dict \<Rightarrow> int reply" where
  "alert_count_of result =
     (case (case dict_get result ''data'' JNull of
              JList [] \<Rightarrow> JObj []
            | JList (x # _) \<Rightarrow> x
            | d \<Rightarrow> d) of
        JObj d \<Rightarrow> json_int (json_or (dict_get d ''count'' (JInt 0)) (JInt 0))
      | JInt i \<Rightarrow> json_int (JInt i)
      | JFloat r \<Rightarrow> json_int (JFloat r)
      | JNonFinite x \<Rightarrow> json_int (JNonFinite x)
      | JBool b \<Rightarrow> json_int (JBool b)
      | _ \<Rightarrow> Inr 0)"

definition get_alert_counts :: "post \<Rightarrow> string \<Rightarrow> string \<Rightarrow> client \<Rightarrow> int reply \<times> client" where
  "get_alert_counts post adom flt c =
     (case call_api post ''get'' (''/eventmgmt/adom/'' @ adom @ ''/alerts/count'')
             [(''apiver'', JInt 3), (''filter'', JStr flt)] c of
        (r, c') \<Rightarrow> (bind_result r alert_count_of, c'))"

text \<open>The time-zone database and ISO 8601 are the argument \<open>convert\<close>, from a zone name and a
  time to the local time of the appliance; \<open>None\<close> is any exception it raises.\<close>

definition local_time_range ::
  "(string \<Rightarrow> string \<Rightarrow> string option) \<Rightarrow> post \<Rightarrow> string \<Rightarrow> string \<Rightarrow> client
   \<Rightarrow> (string \<times> string) \<times> client" where
  "local_time_range convert post start_iso end_iso c =
     (case get_sys_status post c of
        (r, c') \<Rightarrow>
          (case r of
             Inr (JObj status) \<Rightarrow>
               (case dict_get status ''TZ'' JNull of
                  JStr tz \<Rightarrow>
                    if tz = [] then (start_iso, end_iso)
                    else (case (convert tz start_iso, convert tz end_iso) of
                            (Some a, Some b) \<Rightarrow> (a, b)
                          | _ \<Rightarrow> (start_iso, end_iso))
                | _ \<Rightarrow> (start_iso, end_iso))
           | _ \<Rightarrow> (start_iso, end_iso), c'))"

section \<open>Submitting a task and polling it\<close>

text \<open>The polling loop of \<^verbatim>\<open>search_logs\<close> and \<^verbatim>\<open>run_fortiview\<close>: \<open>clock i\<close> is the
  monotonic clock at the \<open>i\<close>-th check of the deadline, and \<open>clock 0\<close> the reading the
  deadline is computed from. \<open>None\<close> is out of fuel.\<close>

definition done_percentage :: "(string, json) dict \<Rightarrow> bool reply" where
  "done_percentage result =
     bind_result (py_number (dict_get result ''percentage'' (JInt 0))) (\<lambda>p. Inr (p \<ge> 100))"

fun poll_task ::
  "nat \<Rightarrow> (nat \<Rightarrow> rat) \<Rightarrow> post \<Rightarrow> string \<Rightarrow> (string, json) dict \<Rightarrow> client_error \<Rightarrow> rat \<Rightarrow> nat
   \<Rightarrow> client \<Rightarrow> ((string, json) dict reply \<times> client) option" where
  "poll_task 0 clock post url params late deadline i c = None"
| "poll_task (Suc fuel) clock post url params late deadline i c =
     (if clock i \<ge> deadline then Some (Inl late, c)
      else
        (case call_api post ''get'' url params c of
           (Inl e, c') \<Rightarrow> Some (Inl e, c')
         | (Inr result, c') \<Rightarrow>
             (case done_percentage result of
                Inl e \<Rightarrow> Some (Inl e, c')
              | Inr True \<Rightarrow> Some (Inr result, c')
              | Inr False \<Rightarrow> poll_task fuel clock post url params late deadline (Suc i) c')))"

text \<open>The formatted task identifier in the polling address.\<close>

definition submit_and_poll ::
  "nat \<Rightarrow> (nat \<Rightarrow> rat) \<Rightarrow> post \<Rightarrow> (json \<Rightarrow> string) \<Rightarrow> string \<Rightarrow> string \<Rightarrow> (string, json) dict \<Rightarrow> int
   \<Rightarrow> client_error \<Rightarrow> rat \<Rightarrow> client \<Rightarrow> ((string, json) dict reply \<times> client) option" where
  "submit_and_poll fuel clock post show_tid submit_url poll_url params limit late timeout c =
     (case call_api post ''add'' submit_url params c of
        (Inl e, c') \<Rightarrow> Some (Inl e, c')
      | (Inr result, c') \<Rightarrow>
          (case dict_get result ''tid'' JNull of
             JNull \<Rightarrow> Some (Inl (FazError NoTaskId), c')
           | tid \<Rightarrow>
               poll_task fuel clock post (poll_url @ CHR ''/'' # show_tid tid)
                 [(''apiver'', JInt 3), (''limit'', JInt limit), (''offset'', JInt 0)]
                 late (clock 0 + timeout) 1 c'))"

record search_result =
  sr_rows :: json
  sr_fields :: "string list"
  sr_truncated :: bool

definition search_params ::
  "string \<Rightarrow> json \<Rightarrow> string \<Rightarrow> string \<Rightarrow> string \<Rightarrow> int \<Rightarrow> (string, json) dict" where
  "search_params logtype dev flt start_time end_time limit =
     [(''apiver'', JInt 3), (''device'', JList [JObj [(''devid'', dev)]]), (''filter'', JStr flt),
      (''limit'', JInt limit), (''logtype'', JStr logtype), (''offset'', JInt 0),
      (''case-sensitive'', JBool False), (''time-order'', JStr ''desc''),
      (''time-range'', JObj [(''start'', JStr start_time), (''end'', JStr end_time)])]"

fun json_length :: "json \<Rightarrow> int reply" where
  "json_length (JList xs) = Inr (int (length xs))"
| "json_length (JObj d) = Inr (int (length d))"
| "json_length (JStr s) = Inr (int (length s))"
| "json_length _ = Inl (PyErr (TypeError ''object has no len()''))"

definition search_result_of :: "int \<Rightarrow> (string, json) dict \<Rightarrow> search_result reply" where
  "search_result_of limit result =
     (let rows = dict_get result ''data'' (JList []) in
      bind_result (if truthy rows then iterate_objects rows else Inr []) (\<lambda>ds.
      bind_result (json_length rows) (\<lambda>n.
      bind_result (py_number (dict_get result ''return-lines'' (JInt n))) (\<lambda>lines.
        Inr \<lparr>sr_rows = rows,
             sr_fields = sorted_list_of_set (set (concat (map (map fst) ds))),
             sr_truncated = (of_int limit \<le> lines)\<rparr>))))"

definition search_logs ::
  "nat \<Rightarrow> (nat \<Rightarrow> rat) \<Rightarrow> post \<Rightarrow> (json \<Rightarrow> string) \<Rightarrow> string \<Rightarrow> json \<Rightarrow> string \<Rightarrow> string \<Rightarrow> string
   \<Rightarrow> int \<Rightarrow> rat \<Rightarrow> client \<Rightarrow> (search_result reply \<times> client) option" where
  "search_logs fuel clock post show_tid logtype dev flt start_time end_time limit timeout c =
     (let url = ''/logview/adom/'' @ c_adom c @ ''/logsearch'' in
      map_option (\<lambda>(r, c'). (bind_result r (search_result_of limit), c'))
        (submit_and_poll fuel clock post show_tid url url
           (search_params logtype dev flt start_time end_time limit) limit FazSearchTimeout timeout c))"

definition run_fortiview ::
  "nat \<Rightarrow> (nat \<Rightarrow> rat) \<Rightarrow> post \<Rightarrow> (json \<Rightarrow> string) \<Rightarrow> string \<Rightarrow> string \<Rightarrow> string \<times> string \<Rightarrow> int
   \<Rightarrow> string option \<Rightarrow> rat \<Rightarrow> client \<Rightarrow> (json reply \<times> client) option" where
  "run_fortiview fuel clock post show_tid adom view time_range limit flt timeout c =
     (let url = ''/fortiview/adom/'' @ adom @ CHR ''/'' # view @ ''/run'' in
      map_option (\<lambda>(r, c'). (bind_result r (\<lambda>result. Inr (dict_get result ''data'' (JList []))), c'))
        (submit_and_poll fuel clock post show_tid url url
           ([(''apiver'', JInt 3),
             (''time-range'', JObj [(''start'', JStr (fst time_range)), (''end'', JStr (snd time_range))]),
             (''limit'', JInt limit)] @
            (if or_default [] flt = [] then [] else [(''filter'', JStr (or_default [] flt))]))
           limit (FazError (RunTimeout view)) timeout c))"

section \<open>Filter expressions\<close>

record extra_filter =
  xf_field :: string
  xf_op :: string
  xf_value :: string

datatype expr_error = BadOperator string string | BadField string | BadValue string string

text \<open>The pattern \<^verbatim>\<open>^[a-zA-Z0-9_-]+$\<close>: its \<open>$\<close> also matches before a final line
  feed.\<close>

definition field_char :: "char \<Rightarrow> bool" where
  "field_char c \<longleftrightarrow> ascii_alnum c \<or> c = CHR ''_'' \<or> c = CHR ''-''"

definition field_matches :: "string \<Rightarrow> bool" where
  "field_matches s =
     (let core = (if s \<noteq> [] \<and> last s = CHR 0x0A then butlast s else s)
      in core \<noteq> [] \<and> list_all field_char core)"

definition quoted_value :: "string \<Rightarrow> string" where
  "quoted_value v =
     (if isdigit (lstrip_char (CHR ''-'') v) then v else CHR 0x22 # v @ [CHR 0x22])"

definition extra_clause :: "extra_filter \<Rightarrow> expr_error + string" where
  "extra_clause f =
     (if xf_op f \<notin> {''=='', ''!=''} then Inl (BadOperator (xf_op f) (xf_field f))
      else if \<not> field_matches (xf_field f) then Inl (BadField (xf_field f))
      else if CHR 0x22 \<in> set (xf_value f) then Inl (BadValue (xf_value f) (xf_field f))
      else Inr (''('' @ xf_field f @ xf_op f @ quoted_value (xf_value f) @ '')''))"

definition clause_group :: "string list \<Rightarrow> string list" where
  "clause_group clauses =
     (if clauses = [] then [] else [''('' @ join_with '' or '' clauses @ '')''])"

fun extra_clauses :: "extra_filter list \<Rightarrow> expr_error + string list" where
  "extra_clauses [] = Inr []"
| "extra_clauses (f # fs) =
     bind_result (extra_clause f) (\<lambda>c. bind_result (extra_clauses fs) (\<lambda>cs. Inr (c # cs)))"

definition build_filter_expression ::
  "string list \<Rightarrow> string list \<Rightarrow> string list \<Rightarrow> extra_filter list \<Rightarrow> expr_error + string" where
  "build_filter_expression sources destinations ports extras =
     bind_result (extra_clauses extras) (\<lambda>cs.
       Inr (join_with '' and ''
         (clause_group sources @ clause_group destinations @ clause_group ports @ cs)))"

section \<open>Polling ends\<close>

text \<open>\<^verbatim>\<open>time.sleep(poll_interval)\<close> sleeps at least that long, so successive readings are
  at least \<open>pause\<close> apart.\<close>

definition paced :: "rat \<Rightarrow> (nat \<Rightarrow> rat) \<Rightarrow> bool" where
  "paced pause clock \<longleftrightarrow> 0 < pause \<and> (\<forall>i. clock i + pause \<le> clock (Suc i))"

lemma paced_bound: "paced pause clock \<Longrightarrow> clock 0 + of_nat i * pause \<le> clock i"
proof (induction i)
  case (Suc i)
  then have "clock 0 + of_nat i * pause \<le> clock i" "clock i + pause \<le> clock (Suc i)"
    by (auto simp: paced_def)
  then show ?case by (simp add: algebra_simps)
qed simp

lemma poll_task_ends:
  assumes "paced pause clock" and "deadline \<le> clock 0 + of_nat n * pause"
    and "n < i + fuel" and "0 < fuel"
  shows "poll_task fuel clock post url params late deadline i c \<noteq> None"
  using assms(3, 4)
proof (induction fuel arbitrary: i c)
  case (Suc fuel)
  show ?case
  proof (cases "n \<le> i")
    case True
    then have "of_nat n * pause \<le> of_nat i * pause" using assms(1) by (simp add: paced_def)
    then have "deadline \<le> clock i" using paced_bound [OF assms(1), of i] assms(2) by linarith
    then show ?thesis by simp
  next
    case False
    then show ?thesis using Suc.prems Suc.IH [of "Suc i"] by (auto split: prod.splits sum.splits bool.splits)
  qed
qed simp

lemma submit_and_poll_ends:
  "paced pause clock \<Longrightarrow> timeout \<le> of_nat n * pause \<Longrightarrow>
     submit_and_poll (Suc n) clock post show_tid u v params limit late timeout c \<noteq> None"
  using poll_task_ends [of pause clock "clock 0 + timeout" n 1 "Suc n" post]
  by (auto simp: submit_and_poll_def split: prod.splits sum.splits json.splits)

lemma fortiview_ends:
  "paced pause clock \<Longrightarrow> timeout \<le> of_nat n * pause \<Longrightarrow>
     run_fortiview (Suc n) clock post show_tid adom view time_range limit vflt timeout c \<noteq> None"
  using submit_and_poll_ends by (simp add: run_fortiview_def Let_def)


definition busy_post :: post where
  "busy_post = (\<lambda>rpc. Inr (JObj [(''result'', JList [JObj [(''tid'', JInt 7), (''percentage'', JInt 50)]])]))"


section \<open>What a search returns\<close>

text \<open>The appliance answered request \<open>k\<close> without an error and with this result.\<close>

definition answered ::
  "post \<Rightarrow> nat \<Rightarrow> string \<Rightarrow> string \<Rightarrow> (string, json) dict \<Rightarrow> (string, json) dict \<Rightarrow> bool" where
  "answered post k method url params result \<longleftrightarrow>
     bind_result (post \<lparr>rpc_id = k, rpc_method = method, rpc_url = url, rpc_params = params\<rparr>)
       unwrap_result = Inr result"

definition poll_params :: "int \<Rightarrow> (string, json) dict" where
  "poll_params limit = [(''apiver'', JInt 3), (''limit'', JInt limit), (''offset'', JInt 0)]"

lemma call_api_answered:
  "call_api post method url params c = (Inr result, c') \<Longrightarrow>
     answered post (Suc (c_req_id c)) method url params result \<and> c_req_id c' = Suc (c_req_id c)"
  by (auto simp: call_api_def Let_def answered_def)

lemma poll_task_result:
  "poll_task fuel clock post url params late deadline i c = Some (Inr result, c') \<Longrightarrow>
     \<exists>k. answered post k ''get'' url params result \<and> done_percentage result = Inr True \<and> c_req_id c < k"
proof (induction fuel arbitrary: i c)
  case (Suc fuel)
  obtain r c1 where call: "call_api post ''get'' url params c = (r, c1)" by (metis surj_pair)
  have early: "\<not> deadline \<le> clock i" using Suc.prems by auto
  with Suc.prems call obtain res where res: "r = Inr res" by (cases r) auto
  with Suc.prems call early obtain b where b: "done_percentage res = Inr b"
    by (cases "done_percentage res") auto
  have ans: "answered post (Suc (c_req_id c)) ''get'' url params res" "c_req_id c1 = Suc (c_req_id c)"
    using call_api_answered call res by blast+
  show ?case
  proof (cases b)
    case True
    with Suc.prems call res b early have "res = result" by simp
    then show ?thesis using ans(1) b True by (intro exI [of _ "Suc (c_req_id c)"]) simp
  next
    case False
    then have "poll_task fuel clock post url params late deadline (Suc i) c1 = Some (Inr result, c')"
      using Suc.prems call res b early by simp
    from Suc.IH [OF this] ans(2) show ?thesis by auto
  qed
qed simp

lemma submit_and_poll_result:
  assumes "submit_and_poll fuel clock post show_tid url poll_url params limit late timeout c = Some (Inr result, c')"
  shows "\<exists>accepted tid k. answered post (Suc (c_req_id c)) ''add'' url params accepted \<and>
           map_of accepted ''tid'' = Some tid \<and> tid \<noteq> JNull \<and> Suc (c_req_id c) < k \<and>
           answered post k ''get'' (poll_url @ CHR ''/'' # show_tid tid) (poll_params limit) result \<and>
           done_percentage result = Inr True"
proof -
  obtain r c1 where call: "call_api post ''add'' url params c = (r, c1)" by (metis surj_pair)
  with assms obtain accepted where acc: "r = Inr accepted" by (cases r) (auto simp: submit_and_poll_def)
  define tid where "tid = dict_get accepted ''tid'' JNull"
  have tid: "tid \<noteq> JNull" and poll: "poll_task fuel clock post (poll_url @ CHR ''/'' # show_tid tid)
      (poll_params limit) late (clock 0 + timeout) 1 c1 = Some (Inr result, c')"
    using assms call acc by (auto simp: submit_and_poll_def tid_def poll_params_def split: json.splits)
  from tid have "map_of accepted ''tid'' = Some tid"
    by (auto simp: tid_def dict_get_def split: option.splits)
  moreover have "answered post (Suc (c_req_id c)) ''add'' url params accepted" and "c_req_id c1 = Suc (c_req_id c)"
    using call_api_answered call acc by blast+
  moreover from poll_task_result [OF poll] obtain k where
    "answered post k ''get'' (poll_url @ CHR ''/'' # show_tid tid) (poll_params limit) result"
    "done_percentage result = Inr True" "c_req_id c1 < k" by blast
  ultimately show ?thesis using tid by (intro exI conjI) simp_all
qed

lemma search_result_of_Inr:
  assumes "search_result_of limit result = Inr sr"
  shows "sr_rows sr = dict_get result ''data'' (JList []) \<and>
    (\<exists>rows n lines.
       (if truthy (sr_rows sr) then iterate_objects (sr_rows sr) else Inr []) = Inr rows \<and>
       set (sr_fields sr) = (\<Union>row \<in> set rows. fst ` set row) \<and>
       json_length (sr_rows sr) = Inr n \<and>
       py_number (dict_get result ''return-lines'' (JInt n)) = Inr lines \<and>
       sr_truncated sr = (of_int limit \<le> lines))"
proof -
  from assms obtain rows n lines where
    "(if truthy (dict_get result ''data'' (JList [])) then iterate_objects (dict_get result ''data'' (JList []))
      else Inr []) = Inr rows" "json_length (dict_get result ''data'' (JList [])) = Inr n"
    "py_number (dict_get result ''return-lines'' (JInt n)) = Inr lines"
    and sr: "sr = \<lparr>sr_rows = dict_get result ''data'' (JList []),
           sr_fields = sorted_list_of_set (set (concat (map (map fst) rows))),
           sr_truncated = (of_int limit \<le> lines)\<rparr>"
    unfolding search_result_of_def Let_def bind_result_Inr_iff by blast
  moreover have "set (sr_fields sr) = (\<Union>row \<in> set rows. fst ` set row)"
    by (simp add: sr image_Union image_image)
  moreover have "sr_rows sr = dict_get result ''data'' (JList [])" "sr_truncated sr = (of_int limit \<le> lines)"
    by (simp_all add: sr)
  ultimately show ?thesis by metis
qed

text \<open>C30. \<open>search_logs\<close> reports only what the appliance finished: when it returns a result, the
  submission was answered without error with a task identifier, a later poll of that task was
  answered without error with a percentage of 100 or more, the rows are that poll's data, the
  columns are the keys of those rows, and the result is marked truncated exactly when the
  reported line count (the number of rows when there is none) reaches the limit.\<close>

theorem search_result_sound:
  assumes "search_logs fuel clock post show_tid logtype dev flt start_time end_time limit timeout c
             = Some (Inr sr, c')"
  shows "\<exists>accepted tid k result p rows n lines.
           answered post (Suc (c_req_id c)) ''add'' (''/logview/adom/'' @ c_adom c @ ''/logsearch'')
             (search_params logtype dev flt start_time end_time limit) accepted \<and>
           map_of accepted ''tid'' = Some tid \<and> tid \<noteq> JNull \<and> Suc (c_req_id c) < k \<and>
           answered post k ''get'' ((''/logview/adom/'' @ c_adom c @ ''/logsearch'') @ CHR ''/'' # show_tid tid)
             (poll_params limit) result \<and>
           py_number (dict_get result ''percentage'' (JInt 0)) = Inr p \<and> 100 \<le> p \<and>
           sr_rows sr = dict_get result ''data'' (JList []) \<and>
           (if truthy (sr_rows sr) then iterate_objects (sr_rows sr) else Inr []) = Inr rows \<and>
           set (sr_fields sr) = (\<Union>row \<in> set rows. fst ` set row) \<and>
           json_length (sr_rows sr) = Inr n \<and>
           py_number (dict_get result ''return-lines'' (JInt n)) = Inr lines \<and>
           sr_truncated sr = (of_int limit \<le> lines)"
proof -
  let ?url = "''/logview/adom/'' @ c_adom c @ ''/logsearch''"
  obtain result where sp: "submit_and_poll fuel clock post show_tid ?url ?url
      (search_params logtype dev flt start_time end_time limit) limit FazSearchTimeout
      timeout c = Some (Inr result, c')" and sr: "search_result_of limit result = Inr sr"
    using assms by (auto simp: search_logs_def Let_def bind_result_Inr_iff)
  from submit_and_poll_result [OF sp] obtain accepted tid k where
    "answered post (Suc (c_req_id c)) ''add'' ?url (search_params logtype dev flt start_time end_time limit)
       accepted" "map_of accepted ''tid'' = Some tid" "tid \<noteq> JNull" "Suc (c_req_id c) < k"
    "answered post k ''get'' (?url @ CHR ''/'' # show_tid tid) (poll_params limit) result"
    and d: "done_percentage result = Inr True" by blast
  moreover from d obtain p where "py_number (dict_get result ''percentage'' (JInt 0)) = Inr p" "100 \<le> p"
    by (auto simp: done_percentage_def bind_result_Inr_iff)
  moreover note search_result_of_Inr [OF sr]
  ultimately show ?thesis by (elim exE conjE, intro exI conjI) assumption+
qed

text \<open>An appliance that accepts the search as task 7 and finishes at the second poll.\<close>

definition quick_post :: post where
  "quick_post = (\<lambda>rpc. Inr (JObj [(''result'', JObj (
     if rpc_method rpc = ''add'' then [(''tid'', JInt 7)]
     else if rpc_id rpc = 2 then [(''percentage'', JInt 40)]
     else [(''percentage'', JInt 100), (''return-lines'', JInt 2),
           (''data'', JList [JObj [(''srcip'', JStr ''10.0.0.1'')], JObj [(''dstport'', JInt 53)]])]))]))"

definition quick_search :: "(search_result reply \<times> client) option" where
  "quick_search = search_logs 5 (\<lambda>i. of_nat i) quick_post (\<lambda>_. ''7'') ''traffic'' (JStr ''FG1'') [] ''a'' ''b'' 2 60
     (make_client ''faz'' 443 ''root'' None)"

lemma search_result_sound_witness:
  "\<exists>sr c'. quick_search = Some (Inr sr, c') \<and> sr_fields sr = [''dstport'', ''srcip''] \<and> sr_truncated sr \<and>
     (\<exists>tid. answered quick_post 1 ''add'' ''/logview/adom/root/logsearch''
        (search_params ''traffic'' (JStr ''FG1'') [] ''a'' ''b'' 2) [(''tid'', tid)])"
proof -
  let ?sr = "\<lparr>sr_rows = JList [JObj [(''srcip'', JStr ''10.0.0.1'')], JObj [(''dstport'', JInt 53)]],
              sr_fields = [''dstport'', ''srcip''], sr_truncated = True\<rparr>"
  have q: "quick_search = Some (Inr ?sr, (make_client ''faz'' 443 ''root'' None)\<lparr>c_req_id := 3\<rparr>)"
    by code_simp
  from search_result_sound [OF q [unfolded quick_search_def]]
  obtain accepted where "answered quick_post 1 ''add'' ''/logview/adom/root/logsearch''
        (search_params ''traffic'' (JStr ''FG1'') [] ''a'' ''b'' 2) accepted"
    by (auto simp: make_client_def)
  then have "accepted = [(''tid'', JInt 7)]"
    by (auto simp: answered_def quick_post_def unwrap_result_def check_status_def dict_get_def)
  with q \<open>answered _ _ _ _ _ accepted\<close> show ?thesis by auto
qed

section \<open>What a filter expression consists of\<close>

text \<open>The part an extra filter contributes: a field name, one of two operators, and a value that
  is either digits behind hyphens or a text between quotes that holds no quote.\<close>

definition safe_value :: "string \<Rightarrow> bool" where
  "safe_value t \<longleftrightarrow>
     (\<exists>k ds. t = replicate k (CHR ''-'') @ ds \<and> isdigit ds) \<or>
     (\<exists>v. t = CHR 0x22 # v @ [CHR 0x22] \<and> CHR 0x22 \<notin> set v)"

definition extra_shape :: "extra_filter \<Rightarrow> string \<Rightarrow> bool" where
  "extra_shape f c \<longleftrightarrow>
     (\<exists>t. c = ''('' @ xf_field f @ xf_op f @ t @ '')'' \<and> safe_value t) \<and>
     xf_op f \<in> {''=='', ''!=''} \<and>
     (\<exists>core. core \<noteq> [] \<and> list_all field_char core \<and>
        (xf_field f = core \<or> xf_field f = core @ [CHR 0x0A]))"

lemma dropWhile_replicate: "\<exists>k. s = replicate k c @ dropWhile (\<lambda>x. x = c) s"
proof (induction s)
  case (Cons a s)
  then obtain k where k: "s = replicate k c @ dropWhile (\<lambda>x. x = c) s" by blast
  show ?case
  proof (cases "a = c")
    case True
    with k have "a # s = replicate (Suc k) c @ dropWhile (\<lambda>x. x = c) (a # s)" by simp
    then show ?thesis by blast
  qed (auto intro: exI [of _ 0])
qed simp

lemma quoted_value_safe: "CHR 0x22 \<notin> set v \<Longrightarrow> safe_value (quoted_value v)"
  using dropWhile_replicate [of v "CHR ''-''"]
  by (auto simp: quoted_value_def safe_value_def lstrip_char_def)

lemma field_matches_core:
  "field_matches s \<Longrightarrow> \<exists>core. core \<noteq> [] \<and> list_all field_char core \<and> (s = core \<or> s = core @ [CHR 0x0A])"
  by (auto simp: field_matches_def Let_def split: if_splits) (metis append_butlast_last_id)

lemma extra_clause_shape: "extra_clause f = Inr c \<Longrightarrow> extra_shape f c"
  unfolding extra_shape_def
  using quoted_value_safe [of "xf_value f"] field_matches_core [of "xf_field f"]
  by (auto simp: extra_clause_def split: if_splits)

lemma extra_clauses_shape: "extra_clauses fs = Inr cs \<Longrightarrow> list_all2 extra_shape fs cs"
  by (induction fs arbitrary: cs) (auto simp: bind_result_Inr_iff intro: extra_clause_shape)

lemma extra_clauses_Inl:
  "extra_clauses fs = Inl err \<Longrightarrow> \<exists>pre f post. fs = pre @ f # post \<and> extra_clause f = Inl err \<and>
     (\<forall>g \<in> set pre. \<exists>c. extra_clause g = Inr c)"
proof (induction fs)
  case (Cons f fs)
  show ?case
  proof (cases "extra_clause f")
    case (Inl e)
    with Cons.prems have "f # fs = [] @ f # fs \<and> extra_clause f = Inl err" by simp
    then show ?thesis by (metis empty_iff empty_set)
  next
    case (Inr c)
    with Cons.prems have "extra_clauses fs = Inl err" by (cases "extra_clauses fs") auto
    from Cons.IH [OF this] obtain pre g post where
      "fs = pre @ g # post" "extra_clause g = Inl err" "\<forall>h \<in> set pre. \<exists>c. extra_clause h = Inr c" by blast
    with Inr have "f # fs = (f # pre) @ g # post" "\<forall>h \<in> set (f # pre). \<exists>c. extra_clause h = Inr c" by auto
    with \<open>extra_clause g = Inl err\<close> show ?thesis by blast
  qed
qed simp

text \<open>C28. A filter expression is a conjunction of parenthesised groups and nothing else: one
  disjunction for each non-empty list of clauses (sources, destinations, ports, in that order)
  and one comparison for each extra filter. An extra filter cannot leave its comparison: its field is letters,
  digits, \<open>_\<close> and \<open>-\<close> (with at most one line feed behind them), its operator \<open>==\<close> or
  \<open>!=\<close>, its value unquoted digits or a quoted text without quotes. When the expression is
  refused, the first filter that breaks these rules is the one reported.\<close>

theorem filter_expression_groups:
  "case build_filter_expression sources destinations ports extras of
     Inr e \<Rightarrow>
       \<exists>cs. list_all2 extra_shape extras cs \<and>
         e = join_with '' and '' (map (\<lambda>cl. ''('' @ join_with '' or '' cl @ '')'')
               (filter (\<lambda>cl. cl \<noteq> []) [sources, destinations, ports]) @ cs)
   | Inl err \<Rightarrow>
       \<exists>pre f post. extras = pre @ f # post \<and> extra_clause f = Inl err \<and>
         list_all (\<lambda>g. \<exists>c. extra_clause g = Inr c) pre"
proof (cases "extra_clauses extras")
  case (Inl err)
  with extra_clauses_Inl [OF Inl] show ?thesis
    by (simp add: build_filter_expression_def list_all_iff)
next
  case (Inr cs)
  with extra_clauses_shape [OF Inr] show ?thesis
    by (auto simp: build_filter_expression_def clause_group_def)
qed

text \<open>The two surprises of the code: a final line feed in the field, and a value of repeated
  hyphens before digits, go out as they are.\<close>

lemma field_line_feed: "list_all field_char f \<Longrightarrow> f \<noteq> [] \<Longrightarrow> field_matches (f @ [CHR 0x0A])"
  by (simp add: field_matches_def)

lemma hyphens_unquoted: "isdigit ds \<Longrightarrow> hd ds \<noteq> CHR ''-'' \<Longrightarrow>
  quoted_value (replicate k (CHR ''-'') @ ds) = replicate k (CHR ''-'') @ ds"
proof -
  assume ds: "isdigit ds" "hd ds \<noteq> CHR ''-''"
  then have "dropWhile (\<lambda>x. x = CHR ''-'') ds = ds"
    by (metis (full_types) dropWhile_eq_self_iff)
  then have "lstrip_char (CHR ''-'') (replicate k (CHR ''-'') @ ds) = ds"
    by (induction k) (simp_all add: lstrip_char_def)
  with ds show ?thesis by (simp add: quoted_value_def)
qed

end
