(* ===== verification/LogSearchFilters.thy ===== *)
theory LogSearchFilters
  imports IpAddress
begin

text \<open>
  \<^verbatim>\<open>app/log_search_filters.py\<close>: the two filter boxes of the log search, one for
  addresses and one for ports and services, turned into FortiAnalyzer filter clauses. A
  \<^verbatim>\<open>FilterValidationError\<close> is the left side of the result, with the entry it names.
  The regular expressions are written out as character tests; on Latin-1 the class
  \<^verbatim>\<open>\d\<close> is the ASCII digits.
\<close>

datatype filter_error =
    InvalidIpRange string
  | MixedVersions string
  | ReversedIpRange string
  | InvalidIp string
  | ReversedPortRange string
  | InvalidPortEntry string

definition split_entries :: "string \<Rightarrow> string list" where
  "split_entries raw = map strip (filter (\<lambda>e. strip e \<noteq> []) (split_on (CHR '','') raw))"

definition any_value :: "string \<Rightarrow> bool" where
  "any_value entry \<longleftrightarrow> lower entry = ''any'' \<or> lower entry = ''all''"

section \<open>Addresses\<close>

definition range_clause :: "string \<Rightarrow> string \<Rightarrow> string \<Rightarrow> string" where
  "range_clause field lo hi =
     ''('' @ field @ ''>='' @ lo @ '' and '' @ field @ ''<='' @ hi @ '')''"

definition ip_range_clause :: "string \<Rightarrow> string \<Rightarrow> filter_error + string" where
  "ip_range_clause entry field =
     (case partition_at (CHR ''-'') entry of
        (start_str, sep, end_str) \<Rightarrow>
          (case (ip_address (strip start_str), ip_address (strip end_str)) of
             (Some a, Some b) \<Rightarrow>
               if ip_version a \<noteq> ip_version b then Inl (MixedVersions entry)
               else if ip_int a > ip_int b then Inl (ReversedIpRange entry)
               else Inr (range_clause field (show_ip a) (show_ip b))
           | _ \<Rightarrow> Inl (InvalidIpRange entry)))"

definition ip_clause :: "string \<Rightarrow> string \<Rightarrow> filter_error + string" where
  "ip_clause entry field =
     (if CHR ''-'' \<in> set entry \<and> CHR ''/'' \<notin> set entry then ip_range_clause entry field
      else
        (case (if CHR ''/'' \<in> set entry then network_string entry
               else map_option show_ip (ip_address entry)) of
           None \<Rightarrow> Inl (InvalidIp entry)
         | Some text \<Rightarrow> Inr (field @ ''=='' @ text)))"

text \<open>The loop both functions run: skip \<^verbatim>\<open>any\<close> and \<^verbatim>\<open>all\<close>, append one clause per
  entry, stop at the first entry that raises.\<close>

fun collect_clauses :: "(string \<Rightarrow> 'e + 'c) \<Rightarrow> string list \<Rightarrow> 'e + 'c list" where
  "collect_clauses f [] = Inr []"
| "collect_clauses f (entry # es) =
     (if any_value entry then collect_clauses f es
      else bind_result (f entry) (\<lambda>c. bind_result (collect_clauses f es) (\<lambda>cs. Inr (c # cs))))"

definition parse_ip_entries :: "string \<Rightarrow> string \<Rightarrow> filter_error + string list" where
  "parse_ip_entries raw field = collect_clauses (\<lambda>e. ip_clause e field) (split_entries raw)"

section \<open>Ports and services\<close>

definition all_digits :: "string \<Rightarrow> bool" where
  "all_digits s \<longleftrightarrow> s \<noteq> [] \<and> list_all ascii_digit s"

definition service_char :: "char \<Rightarrow> bool" where
  "service_char c \<longleftrightarrow> ascii_alnum c \<or> c \<in> set ''._/+-''"

text \<open>\<^verbatim>\<open>(?:tcp|udp):\<close> in either case: the rest of the entry after it.\<close>

definition after_proto :: "string \<Rightarrow> string option" where
  "after_proto entry =
     (if lower (take 4 entry) = ''tcp:'' \<or> lower (take 4 entry) = ''udp:''
      then Some (drop 4 entry) else None)"

definition proto_range :: "string \<Rightarrow> (nat \<times> nat) option" where
  "proto_range entry =
     (case after_proto entry of
        None \<Rightarrow> None
      | Some rest \<Rightarrow>
          (case split_on (CHR ''-'') rest of
             [lo, hi] \<Rightarrow>
               if all_digits lo \<and> all_digits hi then Some (decimal_value lo, decimal_value hi) else None
           | _ \<Rightarrow> None))"

definition proto_port :: "string \<Rightarrow> string option" where
  "proto_port entry =
     (case after_proto entry of
        None \<Rightarrow> None
      | Some rest \<Rightarrow> if all_digits rest then Some rest else None)"

definition port_clause :: "string \<Rightarrow> filter_error + string" where
  "port_clause entry =
     (case proto_range entry of
        Some (lo, hi) \<Rightarrow>
          if hi < lo then Inl (ReversedPortRange entry)
          else Inr (range_clause ''dstport'' (show_nat lo) (show_nat hi))
      | None \<Rightarrow>
          if all_digits entry then Inr (''dstport=='' @ entry)
          else
            (case proto_port entry of
               Some port \<Rightarrow> Inr (''dstport=='' @ port)
             | None \<Rightarrow>
                 if list_all service_char entry \<and> entry \<noteq> []
                 then Inr (''service=='' @ CHR 0x22 # entry @ [CHR 0x22])
                 else Inl (InvalidPortEntry entry)))"

definition parse_port_entries :: "string \<Rightarrow> filter_error + string list" where
  "parse_port_entries raw = collect_clauses port_clause (split_entries raw)"

section \<open>Lemmas\<close>

lemma collect_clauses_Inr:
  "collect_clauses f es = Inr cs \<Longrightarrow>
     map f (filter (\<lambda>e. \<not> any_value e) es) = map Inr cs"
  by (induction es arbitrary: cs) (auto simp: bind_result_Inr_iff split: if_splits)

lemma collect_clauses_Inl:
  "collect_clauses f es = Inl x \<Longrightarrow>
     \<exists>pre e post. es = pre @ e # post \<and> \<not> any_value e \<and> f e = Inl x \<and>
       (\<forall>e' \<in> set pre. any_value e' \<or> (\<exists>c. f e' = Inr c))"
proof (induction es)
  case (Cons e es)
  show ?case
  proof (cases "any_value e \<or> (\<exists>c. f e = Inr c)")
    case True
    then have "collect_clauses f es = Inl x"
      using Cons.prems by (cases "collect_clauses f es") (auto split: if_splits)
    from Cons.IH [OF this] obtain pre e' post where
      "es = pre @ e' # post" "\<not> any_value e'" "f e' = Inl x"
      "\<forall>a \<in> set pre. any_value a \<or> (\<exists>c. f a = Inr c)" by blast
    with True show ?thesis by (intro exI [of _ "e # pre"]) auto
  next
    case False
    with Cons.prems have "f e = Inl x" by (cases "f e") auto
    with False show ?thesis by (metis append_Nil empty_iff empty_set)
  qed
qed simp

lemma collect_clauses_complete:
  "(\<And>e. e \<in> set es \<Longrightarrow> any_value e \<or> (\<exists>c. f e = Inr c)) \<Longrightarrow> \<exists>cs. collect_clauses f es = Inr cs"
proof (induction es)
  case (Cons e es)
  then obtain cs where "collect_clauses f es = Inr cs" by (metis list.set_intros(2))
  moreover have "any_value e \<or> (\<exists>c. f e = Inr c)" using Cons.prems by simp
  ultimately show ?case by auto
qed simp

lemma split_entries_set: "e \<in> set (split_entries raw) \<Longrightarrow> set e \<subseteq> set raw"
  using split_on_set set_strip by (fastforce simp: split_entries_def)

text \<open>The characters canonical addresses and networks are written with.\<close>

definition ip_char :: "char \<Rightarrow> bool" where
  "ip_char c \<longleftrightarrow> hex_lower c \<or> c \<in> set ''.:/''"

lemma ip_char_v4: "list_all ip_char (show_v4 n)"
  using show_v4_chars [of n] by (auto simp: list_all_iff ip_char_def hex_lower_def)

lemma ip_char_v6: "list_all ip_char (show_v6 n)"
  using show_v6_chars [of n] by (auto simp: list_all_iff ip_char_def)

lemma ip_char_nat: "list_all ip_char (show_nat n)"
  using show_nat_digits [of n] by (auto simp: list_all_iff ip_char_def hex_lower_def)

lemma partition_sep_iff: "fst (snd (partition_at c s)) \<longleftrightarrow> c \<in> set s"
  by (simp add: partition_at_def)

lemma parse_v6_no_scope:
  "CHR ''%'' \<notin> set s \<Longrightarrow> parse_v6_scoped s = Some a \<Longrightarrow> \<exists>n. a = V6 n None"
  by (auto simp: parse_v6_scoped_def partition_at_def split: if_splits)

lemma ip_address_chars:
  "CHR ''%'' \<notin> set s \<Longrightarrow> ip_address s = Some a \<Longrightarrow> list_all ip_char (show_ip a)"
  by (auto simp: ip_address_def ip_char_v4 ip_char_v6 split: option.splits dest!: parse_v6_no_scope)

lemma network_chars:
  assumes "CHR ''%'' \<notin> set s" and "network_string s = Some t"
  shows "list_all ip_char t"
proof -
  have sl: "ip_char (CHR ''/'')" by (simp add: ip_char_def)
  obtain hst plen where sp: "split_on (CHR ''/'') s = [hst, plen]"
    using assms(2) by (auto simp: network_string_def split: list.splits)
  then have "CHR ''%'' \<notin> set hst" using assms(1) split_on_set [of hst "CHR ''/''" s] by auto
  with assms(2) sp sl show ?thesis
    by (auto simp: network_string_def Let_def ip_char_v4 ip_char_v6 ip_char_nat
        split: option.splits ip.splits if_splits dest: parse_v6_no_scope)
qed

section \<open>The clauses are well formed\<close>

definition ip_clause_shape :: "string \<Rightarrow> string \<Rightarrow> bool" where
  "ip_clause_shape field c \<longleftrightarrow>
     (\<exists>t. c = field @ ''=='' @ t \<and> list_all ip_char t) \<or>
     (\<exists>a b. c = range_clause field (show_ip a) (show_ip b) \<and> ip_version a = ip_version b \<and>
        ip_int a \<le> ip_int b \<and> list_all ip_char (show_ip a) \<and> list_all ip_char (show_ip b))"

lemma partition_parts_set:
  "partition_at c s = (a, sep, b) \<Longrightarrow> set a \<subseteq> set s \<and> set b \<subseteq> set s"
  by (auto simp: partition_at_def dest!: set_takeWhileD in_set_dropD set_dropWhileD)

lemma ip_clause_shaped:
  assumes "CHR ''%'' \<notin> set e" and "ip_clause e field = Inr c"
  shows "ip_clause_shape field c"
proof (cases "CHR ''-'' \<in> set e \<and> CHR ''/'' \<notin> set e")
  case True
  obtain a sep b where p: "partition_at (CHR ''-'') e = (a, sep, b)" by (metis prod_cases3)
  have "CHR ''%'' \<notin> set (strip a)" "CHR ''%'' \<notin> set (strip b)"
    using partition_parts_set [OF p] set_strip assms(1) by blast+
  with True assms(2) p show ?thesis
    by (simp add: ip_clause_def ip_range_clause_def ip_clause_shape_def
        split: option.splits if_splits) (metis ip_address_chars leI)
next
  case False
  with assms show ?thesis
    by (auto simp: ip_clause_def ip_clause_shape_def split: option.splits if_splits
        dest: ip_address_chars network_chars)
qed

definition port_clause_shape :: "string \<Rightarrow> bool" where
  "port_clause_shape c \<longleftrightarrow>
     (\<exists>p. c = ''dstport=='' @ p \<and> all_digits p) \<or>
     (\<exists>lo hi. c = range_clause ''dstport'' (show_nat lo) (show_nat hi) \<and> lo \<le> hi) \<or>
     (\<exists>s. c = ''service=='' @ CHR 0x22 # s @ [CHR 0x22] \<and> s \<noteq> [] \<and> list_all service_char s)"

lemma port_clause_shaped: "port_clause e = Inr c \<Longrightarrow> port_clause_shape c"
  by (auto simp: port_clause_def port_clause_shape_def proto_port_def
      split: option.splits if_splits) (metis leI)

text \<open>When the address box holds no percent sign, \<open>parse_ip_entries\<close> either stops
  at an entry it names in its error, or returns one clause per entry that is not
  \<open>any\<close>/\<open>all\<close>; every clause is \<open>field==\<close> and a canonical address or network
  (hexadecimal digits, dots, colons and a slash only), or a range whose two ends have the
  same version and are in order. No text the user chose other than an address reaches the
  filter expression.\<close>

theorem ip_clauses_wellformed:
  assumes "CHR ''%'' \<notin> set raw"
  shows "case parse_ip_entries raw field of
           Inl err \<Rightarrow> \<exists>e \<in> set (split_entries raw). \<not> any_value e \<and> ip_clause e field = Inl err
         | Inr cs \<Rightarrow>
             length cs = length (filter (\<lambda>e. \<not> any_value e) (split_entries raw)) \<and>
             list_all (ip_clause_shape field) cs"
proof (cases "parse_ip_entries raw field")
  case (Inl err)
  then show ?thesis using collect_clauses_Inl [of _ _ err] by (fastforce simp: parse_ip_entries_def)
next
  case (Inr cs)
  then have m: "map (\<lambda>e. ip_clause e field) (filter (\<lambda>e. \<not> any_value e) (split_entries raw)) = map Inr cs"
    unfolding parse_ip_entries_def by (rule collect_clauses_Inr)
  then have "length cs = length (filter (\<lambda>e. \<not> any_value e) (split_entries raw))"
    by (metis length_map)
  moreover have "ip_clause_shape field c" if "c \<in> set cs" for c
  proof -
    have "Inr c \<in> set (map (\<lambda>e. ip_clause e field) (filter (\<lambda>e. \<not> any_value e) (split_entries raw)))"
      unfolding m using that by simp
    then obtain e where "e \<in> set (split_entries raw)" "ip_clause e field = Inr c" by auto
    with assms split_entries_set ip_clause_shaped show ?thesis by blast
  qed
  ultimately show ?thesis using Inr by (simp add: list_all_iff)
qed

lemma ip_clauses_wellformed_witness:
  "parse_ip_entries ''10.0.0.1, any,10.1.2.3/24,10.0.0.1 - 10.0.0.9'' ''srcip'' =
     Inr [''srcip==10.0.0.1'', ''srcip==10.1.2.0/24'', ''(srcip>=10.0.0.1 and srcip<=10.0.0.9)''] \<and>
   list_all (ip_clause_shape ''srcip'')
     [''srcip==10.0.0.1'', ''srcip==10.1.2.0/24'', ''(srcip>=10.0.0.1 and srcip<=10.0.0.9)'']"
proof -
  let ?raw = "''10.0.0.1, any,10.1.2.3/24,10.0.0.1 - 10.0.0.9''"
  let ?cs = "[''srcip==10.0.0.1'', ''srcip==10.1.2.0/24'', ''(srcip>=10.0.0.1 and srcip<=10.0.0.9)'']"
  have "CHR ''%'' \<notin> set ?raw" by simp
  moreover have "parse_ip_entries ?raw ''srcip'' = Inr ?cs" by code_simp
  ultimately show ?thesis using ip_clauses_wellformed [of ?raw "''srcip''"] by simp
qed

text \<open>An IPv6 scope identifier is copied into the filter expression character for
  character: the entry \<open>::1%\<close> followed by any text without a comma, a hyphen, a slash or
  a second percent sign, and not ending in white space, is accepted and yields
  \<open>field==::1%\<close> followed by that text. The text may close the clause and open another,
  so the address box can rewrite the whole filter.\<close>

theorem ip_scope_injection:
  assumes "t \<noteq> []" and "\<not> is_space (last t)" and "set t \<inter> set '',-/%'' = {}"
  shows "parse_ip_entries (''::1%'' @ t) field = Inr [field @ ''==::1%'' @ t]"
proof -
  let ?e = "''::1%'' @ t"
  have st: "strip ?e = ?e" using assms(1, 2) by (intro strip_id) (simp add: is_space_def)
  have chars: "CHR '','' \<notin> set ?e" "CHR ''-'' \<notin> set ?e" "CHR ''/'' \<notin> set ?e" "CHR ''%'' \<notin> set t"
    using assms(3) by auto
  have es: "split_entries ?e = [?e]" 
    unfolding split_entries_def split_on_id [OF chars(1)] using st by simp
  have na: "\<not> any_value ?e" by (simp add: any_value_def lower_def char_lower_def)
  have "parse_v4 ''::1'' = None" "parse_v6 ''::1'' = Some 1" "show_v6 1 = ''::1''" by code_simp+
  moreover have "parse_v4 ?e = None"
    by (cases "split_on (CHR ''.'') t")
      (simp_all add: parse_v4_def Let_def parse_octet_def ascii_digit_def)
  ultimately have "ip_clause ?e field = Inr (field @ ''=='' @ ?e)"
    using chars assms(1) 
    by (simp add: ip_clause_def ip_address_def parse_v6_scoped_def partition_at_def)
  with es na show ?thesis by (simp add: parse_ip_entries_def)
qed

lemma ip_scope_injection_witness:
  "parse_ip_entries ''::1%x) or (srcip!=10.0.0.1'' ''srcip'' =
     Inr [''srcip==::1%x) or (srcip!=10.0.0.1'']"
  using ip_scope_injection [of "''x) or (srcip!=10.0.0.1''" "''srcip''"]
  by (simp add: is_space_def)

text \<open>\<open>parse_port_entries\<close> either stops at an entry it names in its error, or returns
  one clause per entry that is not \<open>any\<close>/\<open>all\<close>; every clause is a port number, a
  port range whose ends are in order, or a service name made of letters, digits and
  \<open>._/+-\<close> between quotes, so no entry can leave its quotes or its clause.\<close>

theorem port_clauses_wellformed:
  "case parse_port_entries raw of
     Inl err \<Rightarrow> \<exists>e \<in> set (split_entries raw). \<not> any_value e \<and> port_clause e = Inl err
   | Inr cs \<Rightarrow>
       length cs = length (filter (\<lambda>e. \<not> any_value e) (split_entries raw)) \<and>
       list_all port_clause_shape cs"
proof (cases "parse_port_entries raw")
  case (Inl err)
  then show ?thesis using collect_clauses_Inl [of _ _ err] by (fastforce simp: parse_port_entries_def)
next
  case (Inr cs)
  then have m: "map port_clause (filter (\<lambda>e. \<not> any_value e) (split_entries raw)) = map Inr cs"
    unfolding parse_port_entries_def by (rule collect_clauses_Inr)
  then have "length cs = length (filter (\<lambda>e. \<not> any_value e) (split_entries raw))"
    by (metis length_map)
  moreover have "port_clause_shape c" if "c \<in> set cs" for c
  proof -
    have "Inr c \<in> set (map port_clause (filter (\<lambda>e. \<not> any_value e) (split_entries raw)))"
      unfolding m using that by simp
    then obtain e where "port_clause e = Inr c" by auto
    then show ?thesis by (rule port_clause_shaped)
  qed
  ultimately show ?thesis using Inr by (simp add: list_all_iff)
qed

end
