(* ===== verification/LogSearch.thy ===== *)
theory LogSearch
  imports Sessions FazTargets FazClient LogSearchFilters AppLogger
begin

text \<open>
  \<^verbatim>\<open>app/routes/log_search_routes.py\<close>: the log search page's API. Each handler runs behind the tab
  check and the ADOM check, in the session and surroundings of \<^theory_text>\<open>Sessions\<close>. The fields
  of the search form are strings, as the page sends them; a body of another shape is outside
  the model. The texts of exceptions are arguments; the log is an argument and a result. The
  polling loop of a search has a fuel, which \<^theory_text>\<open>polling_terminates\<close> bounds by the
  timeout: \<^verbatim>\<open>Unanswered\<close> is the model's answer when it is exhausted, and no answer of the code.
  The long dash of the timeout message is written as a hyphen.
\<close>

record search_config =
  sc_post :: "target \<Rightarrow> post"
  sc_clock :: "nat \<Rightarrow> rat"
  sc_fuel :: nat
  sc_convert :: "string \<Rightarrow> string \<Rightarrow> string option"
  sc_show :: "json \<Rightarrow> string"
  sc_text :: "client_error \<Rightarrow> string"
  sc_filter_text :: "filter_error \<Rightarrow> string"
  sc_expr_text :: "expr_error \<Rightarrow> string"
  sc_limit :: int
  sc_timeout :: rat

text \<open>\<^verbatim>\<open>_client_for\<close>: an entry without a host raises \<^verbatim>\<open>KeyError\<close>.\<close>

definition client_for :: "target \<Rightarrow> client reply" where
  "client_for t =
     (case host t of
        None \<Rightarrow> Inl (PyErr (KeyError ''host''))
      | Some h \<Rightarrow> Inr (make_client h 443 (or_default ''root'' (adom t)) None))"

text \<open>The answer to an exception of an appliance call: its own text for a FortiAnalyzer error, the
  short label for any other.\<close>

definition upstream_text :: "search_config \<Rightarrow> client_error \<Rightarrow> string" where
  "upstream_text sc err =
     (case err of
        FazError _ \<Rightarrow> sc_text sc err
      | FazSearchTimeout \<Rightarrow> sc_text sc err
      | _ \<Rightarrow> summarize_connection_error err)"

definition not_found_text :: "string \<Rightarrow> string" where
  "not_found_text wanted = ''Target '' @ [CHR 0x27] @ wanted @ [CHR 0x27] @ '' not found''"

section \<open>Targets, fields and devices\<close>

record target_view =
  tv_label :: string
  tv_host :: string
  tv_adom :: string

text \<open>\<^verbatim>\<open>t["label"]\<close> and \<^verbatim>\<open>t["host"]\<close> raise when the key is missing.\<close>

fun target_views :: "target list \<Rightarrow> target_view list result" where
  "target_views [] = Inr []"
| "target_views (t # ts) =
     (case (label t, host t) of
        (None, _) \<Rightarrow> Inl (KeyError ''label'')
      | (Some l, None) \<Rightarrow> Inl (KeyError ''host'')
      | (Some l, Some h) \<Rightarrow>
          bind_result (target_views ts) (\<lambda>vs.
            Inr (\<lparr>tv_label = l, tv_host = h, tv_adom = or_default ''root'' (adom t)\<rparr> # vs)))"

definition allowed_targets :: "string list option \<Rightarrow> target list \<Rightarrow> target list" where
  "allowed_targets allowed ts =
     (case allowed of
        None \<Rightarrow> ts
      | Some ls \<Rightarrow> filter (\<lambda>t. case label t of None \<Rightarrow> False | Some l \<Rightarrow> l \<in> set ls) ts)"

definition api_targets ::
  "env \<Rightarrow> targets_file \<Rightarrow> session \<Rightarrow> target_view list api_response result \<times> session" where
  "api_targets e f =
     behind_tab ''log_search'' e ''/api/log-search/targets'' (\<lambda>s.
       bind_result (get_allowed_adoms (or_default [] (s_user s)) (Some (or_default [] (s_ad_groups s)))
                      (s_role s) (users_json e) (groups_json e)) (\<lambda>allowed.
       bind_result (target_views (allowed_targets allowed (list_targets f))) (\<lambda>vs.
         Inr (ApiOk vs))))"

text \<open>The shape shared by the two lookups of one appliance.\<close>

definition appliance_call ::
  "search_config \<Rightarrow> env \<Rightarrow> targets_file \<Rightarrow> string \<Rightarrow> (post \<Rightarrow> client \<Rightarrow> 'a reply \<times> client) \<Rightarrow> session
   \<Rightarrow> 'a api_response result" where
  "appliance_call sc e f target_label call s =
     bind_result (check_adom_access e target_label s) (\<lambda>denied.
       case denied of
         Some r \<Rightarrow> Inr (Guarded r)
       | None \<Rightarrow>
           (case get_target target_label f of
              None \<Rightarrow> Inr (ApiError (not_found_text target_label) 404)
            | Some t \<Rightarrow>
                (case bind_result (client_for t) (\<lambda>c. fst (call (sc_post sc t) c)) of
                   Inl err \<Rightarrow> Inr (ApiError (upstream_text sc err) 502)
                 | Inr x \<Rightarrow> Inr (ApiOk x))))"

definition api_fields ::
  "search_config \<Rightarrow> env \<Rightarrow> targets_file \<Rightarrow> string \<Rightarrow> string \<Rightarrow> session
   \<Rightarrow> json api_response result \<times> session" where
  "api_fields sc e f target_label logtype =
     behind_tab ''log_search'' e ''/api/log-search/fields''
       (appliance_call sc e f target_label (\<lambda>post. get_log_fields post logtype ''FortiGate''))"

definition api_devices ::
  "search_config \<Rightarrow> env \<Rightarrow> targets_file \<Rightarrow> string \<Rightarrow> session
   \<Rightarrow> device list api_response result \<times> session" where
  "api_devices sc e f target_label =
     behind_tab ''log_search'' e ''/api/log-search/devices''
       (appliance_call sc e f target_label get_devices)"

section \<open>The search\<close>

record search_body =
  sb_target :: string
  sb_sources :: string
  sb_destinations :: string
  sb_start :: string
  sb_end :: string
  sb_ports :: string
  sb_extras :: "extra_filter list"
  sb_logtype :: string
  sb_device :: string

text \<open>The clause lists of the three boxes; a blank address box has none.\<close>

definition box_clauses :: "search_body \<Rightarrow> filter_error + (string list \<times> string list \<times> string list)" where
  "box_clauses b =
     bind_result (if strip (sb_sources b) = [] then Inr [] else parse_ip_entries (sb_sources b) ''srcip'') (\<lambda>src.
     bind_result (if strip (sb_destinations b) = [] then Inr []
                  else parse_ip_entries (sb_destinations b) ''dstip'') (\<lambda>dst.
     bind_result (parse_port_entries (sb_ports b)) (\<lambda>ports. Inr (src, dst, ports))))"

definition search_log ::
  "string \<Rightarrow> string \<Rightarrow> string \<Rightarrow> string \<Rightarrow> string \<Rightarrow> (string, string) dict \<Rightarrow> logger \<Rightarrow> logger" where
  "search_log stamp level message user target_label extra lg =
     app_log stamp level ''log_search'' message
       ([(''by'', user), (''target'', target_label)] @ extra) lg"

definition run_search ::
  "search_config \<Rightarrow> target \<Rightarrow> search_body \<Rightarrow> string \<Rightarrow> (search_result reply option \<times> (string \<times> string) option)"
  where
  "run_search sc t b expr =
     (case client_for t of
        Inl err \<Rightarrow> (Some (Inl err), None)
      | Inr c \<Rightarrow>
          (case local_time_range (sc_convert sc) (sc_post sc t) (sb_start b) (sb_end b) c of
             (window, c1) \<Rightarrow>
               (case search_logs (sc_fuel sc) (sc_clock sc) (sc_post sc t) (sc_show sc) (sb_logtype b)
                       (JStr (sb_device b)) expr (fst window) (snd window) (sc_limit sc) (sc_timeout sc) c1 of
                  None \<Rightarrow> (None, Some window)
                | Some (r, _) \<Rightarrow> (Some r, Some window))))"

definition window_text :: "(string \<times> string) option \<Rightarrow> string" where
  "window_text w = (case w of None \<Rightarrow> ''None..None'' | Some (a, b) \<Rightarrow> a @ ''..'' @ b)"

definition search_handler ::
  "search_config \<Rightarrow> env \<Rightarrow> targets_file \<Rightarrow> string \<Rightarrow> search_body \<Rightarrow> logger \<Rightarrow> session
   \<Rightarrow> search_result api_response result \<times> logger" where
  "search_handler sc e f stamp b lg s =
     (let user = or_default [] (s_user s); tl = sb_target b;
          warn = (\<lambda>message extra. search_log stamp ''WARN'' message user tl extra lg)
      in case check_adom_access e tl s of
           Inl err \<Rightarrow> (Inl err, lg)
         | Inr (Some r) \<Rightarrow> (Inr (Guarded r), warn ''Search denied: ADOM access not permitted'' [])
         | Inr None \<Rightarrow>
      (case get_target tl f of
         None \<Rightarrow> (Inr (ApiError (not_found_text tl) 404), warn ''Search failed: target not found'' [])
       | Some t \<Rightarrow>
      if sb_start b = [] \<or> sb_end b = []
      then (Inr (ApiError ''start_time and end_time are required'' 400),
            warn ''Search rejected: missing start_time/end_time'' [])
      else
      (case box_clauses b of
         Inl err \<Rightarrow>
           (Inr (ApiError (sc_filter_text sc err) 400),
            warn ''Search rejected: invalid filter input'' [(''error'', sc_filter_text sc err)])
       | Inr (src, dst, ports) \<Rightarrow>
      if src = [] \<and> dst = []
      then (Inr (ApiError ''At least one of source or destination IP is required'' 400),
            warn ''Search rejected: no source or destination IP'' [])
      else
      (case build_filter_expression src dst ports (sb_extras b) of
         Inl err \<Rightarrow>
           (Inr (ApiError (sc_expr_text sc err) 400),
            warn ''Search rejected: invalid filter input'' [(''error'', sc_expr_text sc err)])
       | Inr expr \<Rightarrow>
      (case run_search sc t b expr of
         (None, w) \<Rightarrow> (Inr Unanswered, lg)
       | (Some (Inl FazSearchTimeout), w) \<Rightarrow>
           (Inr (ApiError ''Search is taking too long - narrow the time range or add more filters.'' 504),
            warn ''Search timed out'' [(''filter_expression'', expr),
              (''error'', sc_text sc FazSearchTimeout), (''appliance_local'', window_text w)])
       | (Some (Inl (FazError cause)), w) \<Rightarrow>
           (Inr (ApiError (sc_text sc (FazError cause)) 502),
            warn ''Search failed: FortiAnalyzer error'' [(''filter_expression'', expr),
              (''error'', sc_text sc (FazError cause)), (''appliance_local'', window_text w)])
       | (Some (Inl err), w) \<Rightarrow>
           (Inr (ApiError (summarize_connection_error err) 502),
            warn ''Search failed: connection error'' [(''filter_expression'', expr),
              (''error'', summarize_connection_error err), (''appliance_local'', window_text w)])
       | (Some (Inr r), w) \<Rightarrow>
           (case json_length (sr_rows r) of
              Inl _ \<Rightarrow> (Inl (TypeError ''object has no len()''), lg)
            | Inr n \<Rightarrow>
                (Inr (ApiOk r),
                 search_log stamp ''INFO'' ''Search completed'' user tl
                   [(''filter_expression'', expr), (''rows'', show_int n),
                    (''requested_utc'', sb_start b @ ''..'' @ sb_end b),
                    (''appliance_local'', window_text w)] lg)))))))"

definition api_search ::
  "search_config \<Rightarrow> env \<Rightarrow> targets_file \<Rightarrow> string \<Rightarrow> search_body \<Rightarrow> logger \<Rightarrow> session
   \<Rightarrow> search_result api_response result \<times> logger \<times> session" where
  "api_search sc e f stamp b lg s =
     (case tab_required ''log_search'' e ''/api/log-search'' s of
        (Inl err, s') \<Rightarrow> (Inl err, lg, s')
      | (Inr (Some r), s') \<Rightarrow> (Inr (Guarded r), lg, s')
      | (Inr None, s') \<Rightarrow>
          (case search_handler sc e f stamp b lg s' of (r, lg') \<Rightarrow> (r, lg', s')))"

section \<open>Properties\<close>

lemma search_handler_ok:
  assumes h: "search_handler sc e f stamp b lg s = (Inr (ApiOk r), lg')"
  shows "check_adom_access e (sb_target b) s = Inr None \<and>
    (\<exists>t src dst ports expr.
       get_target (sb_target b) f = Some t \<and> box_clauses b = Inr (src, dst, ports) \<and>
       src @ dst \<noteq> [] \<and> build_filter_expression src dst ports (sb_extras b) = Inr expr \<and>
       fst (run_search sc t b expr) = Some (Inr r))"
proof -
  note d = search_handler_def Let_def
  have adom: "check_adom_access e (sb_target b) s = Inr None"
  proof (cases "check_adom_access e (sb_target b) s")
    case (Inr x)
    with h show ?thesis by (cases x) (simp_all add: d)
  qed (use h in \<open>simp add: d\<close>)
  obtain t where t: "get_target (sb_target b) f = Some t"
    using h adom by (cases "get_target (sb_target b) f") (simp_all add: d)
  have times: "\<not> (sb_start b = [] \<or> sb_end b = [])"
    using h adom t by (auto simp: d)
  obtain src dst ports where box: "box_clauses b = Inr (src, dst, ports)"
  proof (cases "box_clauses b")
    case (Inr x)
    with that show ?thesis by (cases x) auto
  qed (use h adom t times in \<open>simp add: d\<close>)
  have ne: "\<not> (src = [] \<and> dst = [])" using h adom t times box by (auto simp: d)
  obtain expr where expr: "build_filter_expression src dst ports (sb_extras b) = Inr expr"
    using h adom t times box ne
    by (cases "build_filter_expression src dst ports (sb_extras b)") (simp_all add: d)
  obtain q w where q: "run_search sc t b expr = (q, w)" by (metis surj_pair)
  note g = h adom t times box ne expr q
  have "q = Some (Inr r)"
  proof (cases q)
    case None
    with g show ?thesis by (simp add: d)
  next
    case (Some p)
    show ?thesis
    proof (cases p)
      case (Inl err)
      with g Some show ?thesis by (cases err) (simp_all add: d)
    next
      case (Inr x)
      with g Some show ?thesis by (cases "json_length (sr_rows x)") (simp_all add: d)
    qed
  qed
  with adom t box ne expr q show ?thesis by simp
qed

lemma api_search_ok:
  assumes "api_search sc e f stamp b lg s = (Inr (ApiOk r), lg', s')"
  shows "tab_required ''log_search'' e ''/api/log-search'' s = (Inr None, s') \<and>
    check_adom_access e (sb_target b) s' = Inr None \<and>
    (\<exists>t src dst ports expr.
       get_target (sb_target b) f = Some t \<and> box_clauses b = Inr (src, dst, ports) \<and>
       src @ dst \<noteq> [] \<and> build_filter_expression src dst ports (sb_extras b) = Inr expr \<and>
       fst (run_search sc t b expr) = Some (Inr r))"
proof -
  obtain g s1 where g: "tab_required ''log_search'' e ''/api/log-search'' s = (g, s1)" by (metis surj_pair)
  with assms have "g = Inr None" by (auto simp: api_search_def split: sum.splits option.splits prod.splits)
  with assms g have "s1 = s'" "search_handler sc e f stamp b lg s1 = (Inr (ApiOk r), lg')"
    by (auto simp: api_search_def split: prod.splits)
  with g \<open>g = Inr None\<close> search_handler_ok show ?thesis by blast
qed

lemma api_search_same:
  assumes "\<not> (fst (tab_required ''log_search'' e ''/api/log-search'' s) = Inr None \<and>
    check_adom_access e (sb_target b) (snd (tab_required ''log_search'' e ''/api/log-search'' s)) = Inr None)"
  shows "api_search sc e f stamp b lg s = api_search (sc\<lparr>sc_post := other\<rparr>) e f stamp b lg s"
proof -
  obtain g s1 where g: "tab_required ''log_search'' e ''/api/log-search'' s = (g, s1)" by (metis surj_pair)
  show ?thesis
  proof (cases g)
    case (Inl err)
    with g show ?thesis by (simp add: api_search_def)
  next
    case (Inr x)
    show ?thesis
    proof (cases x)
      case None
      with assms g Inr have "check_adom_access e (sb_target b) s1 \<noteq> Inr None" by simp
      then have "search_handler sc e f stamp b lg s1 = search_handler (sc\<lparr>sc_post := other\<rparr>) e f stamp b lg s1"
        by (cases "check_adom_access e (sb_target b) s1"; cases "projr (check_adom_access e (sb_target b) s1)")
          (simp_all add: search_handler_def Let_def)
      with g Inr None show ?thesis by (simp add: api_search_def)
    next
      case (Some r)
      with g Inr show ?thesis by (simp add: api_search_def)
    qed
  qed
qed

text \<open>C14. Nobody reaches an appliance through the search without permission: when the tab check or the
  check of the target's ADOM does not pass, the answer, the log and the session are the same
  whatever the appliances are; and a successful search means both checks passed in the
  refreshed session, the target is configured, at least one source or destination clause was
  given, and the rows are those the appliance returned for the expression built from the form.\<close>

theorem search_needs_permission:
  "(if fst (tab_required ''log_search'' e ''/api/log-search'' s) = Inr None \<and>
       check_adom_access e (sb_target b) (snd (tab_required ''log_search'' e ''/api/log-search'' s)) = Inr None
    then True
    else api_search sc e f stamp b lg s = api_search (sc\<lparr>sc_post := other\<rparr>) e f stamp b lg s) \<and>
   (case api_search sc e f stamp b lg s of
      (Inr (ApiOk r), lg', s') \<Rightarrow>
        tab_required ''log_search'' e ''/api/log-search'' s = (Inr None, s') \<and>
        check_adom_access e (sb_target b) s' = Inr None \<and>
        (\<exists>t src dst ports expr.
           get_target (sb_target b) f = Some t \<and> box_clauses b = Inr (src, dst, ports) \<and>
           src @ dst \<noteq> [] \<and> build_filter_expression src dst ports (sb_extras b) = Inr expr \<and>
           fst (run_search sc t b expr) = Some (Inr r))
    | _ \<Rightarrow> True)"
proof (rule conjI)
  show "if fst (tab_required ''log_search'' e ''/api/log-search'' s) = Inr None \<and>
       check_adom_access e (sb_target b) (snd (tab_required ''log_search'' e ''/api/log-search'' s)) = Inr None
    then True
    else api_search sc e f stamp b lg s = api_search (sc\<lparr>sc_post := other\<rparr>) e f stamp b lg s"
    using api_search_same [of e s b sc f stamp lg other] by simp
next
  show "case api_search sc e f stamp b lg s of
      (Inr (ApiOk r), lg', s') \<Rightarrow>
        tab_required ''log_search'' e ''/api/log-search'' s = (Inr None, s') \<and>
        check_adom_access e (sb_target b) s' = Inr None \<and>
        (\<exists>t src dst ports expr.
           get_target (sb_target b) f = Some t \<and> box_clauses b = Inr (src, dst, ports) \<and>
           src @ dst \<noteq> [] \<and> build_filter_expression src dst ports (sb_extras b) = Inr expr \<and>
           fst (run_search sc t b expr) = Some (Inr r))
    | _ \<Rightarrow> True"
    using api_search_ok [of sc e f stamp b lg s]
    by (auto split: prod.split sum.split api_response.split)
qed

lemma box_shapes:
  assumes "CHR ''%'' \<notin> set raw"
    and "(if strip raw = [] then Inr [] else parse_ip_entries raw field) = Inr cs"
  shows "list_all (ip_clause_shape field) cs"
proof (cases "strip raw = []")
  case False
  then have p: "parse_ip_entries raw field = Inr cs" using assms(2) by simp
  have "ip_clause_shape field c" if c: "c \<in> set cs" for c
  proof -
    have m: "map (\<lambda>e. ip_clause e field) (filter (\<lambda>e. \<not> any_value e) (split_entries raw)) = map Inr cs"
      using p unfolding parse_ip_entries_def by (rule collect_clauses_Inr)
    have "Inr c \<in> set (map (\<lambda>e. ip_clause e field) (filter (\<lambda>e. \<not> any_value e) (split_entries raw)))"
      unfolding m using c by simp
    then obtain x where "x \<in> set (split_entries raw)" "ip_clause x field = Inr c" by auto
    with assms(1) split_entries_set ip_clause_shaped show ?thesis by blast
  qed
  then show ?thesis by (simp add: list_all_iff)
qed (use assms(2) in simp)

lemma port_box_shapes:
  assumes "parse_port_entries raw = Inr cs"
  shows "list_all port_clause_shape cs"
proof -
  have m: "map port_clause (filter (\<lambda>e. \<not> any_value e) (split_entries raw)) = map Inr cs"
    using assms unfolding parse_port_entries_def by (rule collect_clauses_Inr)
  have "port_clause_shape c" if c: "c \<in> set cs" for c
  proof -
    have "Inr c \<in> set (map port_clause (filter (\<lambda>e. \<not> any_value e) (split_entries raw)))"
      unfolding m using c by simp
    then obtain x where "port_clause x = Inr c" by auto
    then show ?thesis by (rule port_clause_shaped)
  qed
  then show ?thesis by (simp add: list_all_iff)
qed

text \<open>C27. What is sent to the appliance is well formed from end to end: when no percent sign is in the
  address boxes, the expression is the conjunction of at most three parenthesised disjunctions,
  of source clauses, destination clauses and port clauses in their fixed shapes, and one
  confined comparison per extra filter. No other text of the form reaches the query.\<close>

theorem search_expression_wellformed:
  assumes "CHR ''%'' \<notin> set (sb_sources b)" and "CHR ''%'' \<notin> set (sb_destinations b)"
    and "box_clauses b = Inr (src, dst, ports)"
    and "build_filter_expression src dst ports (sb_extras b) = Inr expr"
  shows "\<exists>cs. expr = join_with '' and '' (map (\<lambda>cl. ''('' @ join_with '' or '' cl @ '')'')
                 (filter (\<lambda>cl. cl \<noteq> []) [src, dst, ports]) @ cs) \<and>
           list_all (ip_clause_shape ''srcip'') src \<and> list_all (ip_clause_shape ''dstip'') dst \<and>
           list_all port_clause_shape ports \<and> list_all2 extra_shape (sb_extras b) cs"
proof -
  have "(if strip (sb_sources b) = [] then Inr [] else parse_ip_entries (sb_sources b) ''srcip'') = Inr src"
    and "(if strip (sb_destinations b) = [] then Inr [] else parse_ip_entries (sb_destinations b) ''dstip'')
          = Inr dst"
    and "parse_port_entries (sb_ports b) = Inr ports"
    using assms(3) by (auto simp: box_clauses_def bind_result_Inr_iff)
  then have "list_all (ip_clause_shape ''srcip'') src" "list_all (ip_clause_shape ''dstip'') dst"
    "list_all port_clause_shape ports"
    using box_shapes [OF assms(1)] box_shapes [OF assms(2)] port_box_shapes by blast+
  moreover obtain cs where ex: "extra_clauses (sb_extras b) = Inr cs"
    and expr: "expr = join_with '' and '' (clause_group src @ clause_group dst @ clause_group ports @ cs)"
    using assms(4) by (auto simp: build_filter_expression_def bind_result_Inr_iff)
  moreover have "clause_group src @ clause_group dst @ clause_group ports @ cs =
      map (\<lambda>cl. ''('' @ join_with '' or '' cl @ '')'') (filter (\<lambda>cl. cl \<noteq> []) [src, dst, ports]) @ cs"
    by (simp add: clause_group_def)
  ultimately show ?thesis using extra_clauses_shape [OF ex] by metis
qed

definition sample_body :: search_body where
  "sample_body =
     \<lparr>sb_target = ''root'', sb_sources = ''10.0.0.1, 10.1.2.3/24'', sb_destinations = [],
      sb_start = ''a'', sb_end = ''b'', sb_ports = ''tcp:443'',
      sb_extras = [\<lparr>xf_field = ''action'', xf_op = ''=='', xf_value = ''deny''\<rparr>],
      sb_logtype = ''traffic'', sb_device = ''All_FortiGate''\<rparr>"

lemma search_expression_wellformed_witness:
  "list_all (ip_clause_shape ''srcip'') [''srcip==10.0.0.1'', ''srcip==10.1.2.0/24''] \<and>
   list_all port_clause_shape [''dstport==443''] \<and>
   (\<exists>cs. list_all2 extra_shape (sb_extras sample_body) cs)"
proof -
  let ?src = "[''srcip==10.0.0.1'', ''srcip==10.1.2.0/24'']"
  have b: "box_clauses sample_body = Inr (?src, [], [''dstport==443''])" by code_simp
  obtain expr where e: "build_filter_expression ?src [] [''dstport==443''] (sb_extras sample_body) = Inr expr"
    by (simp add: build_filter_expression_def sample_body_def extra_clause_def field_matches_def
        field_char_def ascii_alnum_def ascii_upper_def ascii_lower_def)
  have "CHR ''%'' \<notin> set (sb_sources sample_body)" "CHR ''%'' \<notin> set (sb_destinations sample_body)"
    by (simp_all add: sample_body_def)
  from search_expression_wellformed [OF this b e] show ?thesis by blast
qed

end
