(* ===== verification/AppSettings.thy ===== *)
theory AppSettings
  imports Stores
begin

text \<open>
  \<^verbatim>\<open>app/app_settings.py\<close> and \<^verbatim>\<open>app/collector_store.py\<close>: two key/value stores whose
  write always succeeds. The settings file is a JSON object read over the defaults; an
  absent or unreadable file is the defaults. The collector's SQLite table
  \<^verbatim>\<open>cache_state\<close> maps a cache key to the last snapshot and its
  \<^verbatim>\<open>collected_at\<close>; the JSON text of the payload column is modelled by the value it
  encodes, and the upsert by the primary key.
\<close>

section \<open>Application settings\<close>

type_synonym settings = "(string, json) dict"
type_synonym settings_file = "settings json_file"

definition DEFAULTS :: settings where
  "DEFAULTS = [(''external_api_enabled'', JBool False)]"

definition load_settings :: "settings_file \<Rightarrow> settings" where
  "load_settings f =
     (case f of Absent \<Rightarrow> DEFAULTS | Unreadable \<Rightarrow> DEFAULTS
      | Content data \<Rightarrow> dict_update DEFAULTS data)"

definition get_setting :: "string \<Rightarrow> json \<Rightarrow> settings_file \<Rightarrow> json" where
  "get_setting key dflt f = dict_get (load_settings f) key dflt"

definition set_setting :: "string \<Rightarrow> json \<Rightarrow> settings_file \<Rightarrow> settings_file" where
  "set_setting key v f = Content (dict_set key v (load_settings f))"

lemma wf_load_settings: "wf_dict (load_settings f)"
  by (cases f) (simp_all add: load_settings_def DEFAULTS_def)

lemma defaults_loaded: "map_of DEFAULTS j \<noteq> None \<Longrightarrow> map_of (load_settings f) j \<noteq> None"
  by (cases f) (auto simp: load_settings_def dict_lookup_update split: option.splits)

lemma load_set_setting:
  "map_of (load_settings (set_setting key v f)) j =
     (if j = key then Some v else map_of (load_settings f) j)"
proof -
  have "wf_dict (dict_set key v (load_settings f))" by (simp add: wf_load_settings)
  then show ?thesis
    using defaults_loaded [of j f]
    by (cases "map_of DEFAULTS j") (auto simp: set_setting_def load_settings_def [of "Content _"] dict_lookup_update map_of_rev
          split: option.splits)
qed

interpretation settings_store: upsert_store
  "\<lambda>f k. map_of (load_settings f) k" set_setting "\<lambda>_. True"
  by unfold_locales (simp_all add: load_set_setting)

section \<open>The collector's snapshot table\<close>

record 'p cache_row =
  payload :: 'p
  row_collected_at :: "string option"

type_synonym 'p cache_table = "(string, 'p cache_row) dict"

definition write_cache :: "string \<Rightarrow> 'p \<Rightarrow> string option \<Rightarrow> 'p cache_table \<Rightarrow> 'p cache_table" where
  "write_cache key data collected tbl =
     dict_set key \<lparr>payload = data, row_collected_at = collected\<rparr> tbl"

definition read_cache :: "string \<Rightarrow> 'p cache_table \<Rightarrow> 'p option" where
  "read_cache key tbl = map_option payload (map_of tbl key)"

text \<open>A write is a snapshot with its time; a read returns the snapshot.\<close>

definition put_row :: "string \<Rightarrow> 'p cache_row \<Rightarrow> 'p cache_table \<Rightarrow> 'p cache_table" where
  "put_row key r tbl = write_cache key (payload r) (row_collected_at r) tbl"

interpretation snapshot_store: upsert_store map_of put_row "\<lambda>_. True"
  by unfold_locales (simp_all add: put_row_def write_cache_def)

lemma read_write_cache [simp]:
  "read_cache k (write_cache key d c tbl) = (if k = key then Some d else read_cache k tbl)"
  by (simp add: read_cache_def write_cache_def)

section \<open>Properties\<close>

text \<open>
  Settings survive: after any sequence of \<^verbatim>\<open>set_setting\<close> calls, starting from any
  file, even an unreadable one, \<^verbatim>\<open>get_setting\<close> returns the last value written for the
  key, and for a key that was not written what it returned before.
\<close>

theorem settings_last_write_wins:
  "get_setting j dflt (fold (\<lambda>(k, v). set_setting k v) kvs f) =
     (case map_of (rev kvs) j of Some v \<Rightarrow> v | None \<Rightarrow> get_setting j dflt f)"
  using settings_store.get_puts [where s = f and kvs = kvs and j = j] by (auto simp: get_setting_def dict_get_def split: option.splits)

end
