(* ===== verification/ReadThrough.thy ===== *)
theory ReadThrough
  imports AppSettings
begin

text \<open>
  The read-through of the poll caches (\<^verbatim>\<open>get_cached\<close> of \<^verbatim>\<open>log_stats_cache.py\<close> and
  \<^verbatim>\<open>threat_stats_cache.py\<close>, \<^verbatim>\<open>get_all_cached\<close> of \<^verbatim>\<open>faz_health_cache.py\<close>): a process whose
  own cache is still empty takes over the collector's last snapshot, and keeps it. The
  interface is the test for emptiness and the take-over; each cache interprets it on its own
  model.
\<close>

definition read_through :: "('c \<Rightarrow> bool) \<Rightarrow> ('c \<Rightarrow> 'p \<Rightarrow> 'c) \<Rightarrow> 'p option \<Rightarrow> 'c \<Rightarrow> 'c" where
  "read_through filled takeover stored cache =
     (if filled cache then cache
      else (case stored of None \<Rightarrow> cache | Some p \<Rightarrow> takeover cache p))"

locale read_through_cache =
  fixes filled :: "'c \<Rightarrow> bool"
    and takeover :: "'c \<Rightarrow> 'p \<Rightarrow> 'c"
    and usable :: "'p \<Rightarrow> bool"
  assumes takeover_filled: "usable p \<Longrightarrow> filled (takeover c p)"
begin

text \<open>Once filled, no number of later reads changes the cache, whatever the collector writes.\<close>

lemma reads_filled: "filled c \<Longrightarrow> fold (read_through filled takeover) stores c = c"
  by (induction stores) (simp_all add: read_through_def)

lemma first_read_sticks:
  assumes "\<not> filled c" and "usable p"
  shows "fold (read_through filled takeover) (replicate k None @ Some p # later) c = takeover c p"
proof -
  have "fold (read_through filled takeover) (replicate k None) c = c"
    by (induction k) (simp_all add: read_through_def)
  with assms reads_filled [OF takeover_filled] show ?thesis by (simp add: read_through_def)
qed

end

end
