(* ===== verification/FazHealth.thy ===== *)
theory FazHealth
  imports FazClient FazTargets ReadThrough AppLogger
begin

text \<open>
  \<^verbatim>\<open>app/faz_health_cache.py\<close>: the health cards of the dashboard. One poll asks every
  configured appliance for its status over JSON-RPC and, when SNMP is on, for its CPU and memory.
  The state is the cache of this process, the collector's snapshot table and the log. PySNMP is
  the argument \<open>agent\<close>, from the user, the host and the object identifiers to what
  \<^verbatim>\<open>get_cmd\<close> returns, or to no reply when it raises. \<open>clk i k\<close> is the \<open>k\<close>-th reading of the
  clock while the \<open>i\<close>-th target is polled; the texts of exceptions are arguments.
\<close>

section \<open>SNMP\<close>

record health_config =
  hc_snmp_enabled :: bool
  hc_user :: string
  hc_auth_key :: string
  hc_priv_key :: string
  hc_auth_protocol :: string
  hc_priv_protocol :: string
  hc_cpu_warn :: rat
  hc_cpu_crit :: rat
  hc_mem_warn :: rat
  hc_mem_crit :: rat

record snmp_creds =
  cr_user :: string
  cr_auth_key :: string
  cr_priv_key :: string
  cr_auth_protocol :: string
  cr_priv_protocol :: string

definition resolve_snmp_creds :: "health_config \<Rightarrow> target \<Rightarrow> snmp_creds" where
  "resolve_snmp_creds cfg t =
     \<lparr>cr_user = dict_get (snmp t) Snmp_user (hc_user cfg),
      cr_auth_key = dict_get (snmp t) Snmp_auth_key (hc_auth_key cfg),
      cr_priv_key = dict_get (snmp t) Snmp_priv_key (hc_priv_key cfg),
      cr_auth_protocol = dict_get (snmp t) Snmp_auth_protocol (hc_auth_protocol cfg),
      cr_priv_protocol = dict_get (snmp t) Snmp_priv_protocol (hc_priv_protocol cfg)\<rparr>"

datatype auth_protocol = Hmac96Sha | Hmac192Sha256 | Hmac384Sha512
datatype priv_protocol = Cfb128Aes | Cfb192Aes | Cfb256Aes

definition AUTH_PROTOCOLS :: "(string, auth_protocol) dict" where
  "AUTH_PROTOCOLS = [(''SHA'', Hmac96Sha), (''SHA256'', Hmac192Sha256), (''SHA512'', Hmac384Sha512)]"

definition PRIV_PROTOCOLS :: "(string, priv_protocol) dict" where
  "PRIV_PROTOCOLS = [(''AES'', Cfb128Aes), (''AES192'', Cfb192Aes), (''AES256'', Cfb256Aes)]"

record usm_user =
  usm_name :: string
  usm_auth_key :: string
  usm_priv_key :: string
  usm_auth :: auth_protocol
  usm_priv :: priv_protocol

text \<open>What \<^verbatim>\<open>get_cmd\<close> returns: the error indication and the error status when they are truthy, and
  the value of every binding (\<open>None\<close> where \<^verbatim>\<open>float\<close> raises).\<close>

record snmp_reply =
  error_indication :: "string option"
  error_status :: "string option"
  var_binds :: "rat option list"

type_synonym snmp_agent = "usm_user \<Rightarrow> string \<Rightarrow> string list \<Rightarrow> snmp_reply option"

datatype snmp_error = SnmpTimeout string | SnmpQueryError string | SnmpRaised

fun all_values :: "'a option list \<Rightarrow> 'a list option" where
  "all_values [] = Some []"
| "all_values (None # xs) = None"
| "all_values (Some x # xs) = map_option ((#) x) (all_values xs)"

definition snmp_get :: "snmp_agent \<Rightarrow> string \<Rightarrow> string list \<Rightarrow> snmp_creds \<Rightarrow> snmp_error + rat list" where
  "snmp_get agent h oids creds =
     (case agent \<lparr>usm_name = cr_user creds, usm_auth_key = cr_auth_key creds,
                  usm_priv_key = cr_priv_key creds,
                  usm_auth = dict_get AUTH_PROTOCOLS (cr_auth_protocol creds) Hmac96Sha,
                  usm_priv = dict_get PRIV_PROTOCOLS (cr_priv_protocol creds) Cfb128Aes\<rparr> h oids of
        None \<Rightarrow> Inl SnmpRaised
      | Some r \<Rightarrow>
          (case error_indication r of
             Some message \<Rightarrow>
               if contains_sub ''timeout'' (lower message) then Inl (SnmpTimeout message)
               else Inl (SnmpQueryError message)
           | None \<Rightarrow>
               (case error_status r of
                  Some status \<Rightarrow> Inl (SnmpQueryError status)
                | None \<Rightarrow>
                    (case all_values (var_binds r) of
                       None \<Rightarrow> Inl SnmpRaised
                     | Some values \<Rightarrow> Inr values))))"

definition OID_CPU :: string where "OID_CPU = ''1.3.6.1.4.1.12356.103.2.1.1.0''"
definition OID_MEM_USED :: string where "OID_MEM_USED = ''1.3.6.1.4.1.12356.103.2.1.2.0''"
definition OID_MEM_TOTAL :: string where "OID_MEM_TOTAL = ''1.3.6.1.4.1.12356.103.2.1.3.0''"

text \<open>The result is CPU, memory and the status; three values are unpacked, any other number
  raises inside the \<^verbatim>\<open>try\<close>, and so does a target without a host.\<close>

definition poll_snmp ::
  "health_config \<Rightarrow> snmp_agent \<Rightarrow> target \<Rightarrow> rat option \<times> rat option \<times> string" where
  "poll_snmp cfg agent t =
     (if \<not> hc_snmp_enabled cfg then (None, None, ''disabled'')
      else
        (case host t of
           None \<Rightarrow> (None, None, ''error'')
         | Some h \<Rightarrow>
             (case snmp_get agent h [OID_CPU, OID_MEM_USED, OID_MEM_TOTAL] (resolve_snmp_creds cfg t) of
                Inr [cpu, mem_used, mem_total] \<Rightarrow>
                  (Some cpu, Some (if mem_total \<noteq> 0 then mem_used / mem_total * 100 else 0), ''ok'')
              | Inl (SnmpTimeout _) \<Rightarrow> (None, None, ''timeout'')
              | _ \<Rightarrow> (None, None, ''error''))))"

definition classify_status :: "health_config \<Rightarrow> rat option \<Rightarrow> rat option \<Rightarrow> string" where
  "classify_status cfg cpu mem =
     (if cpu = None \<and> mem = None then ''green''
      else
        (let c = or_default 0 cpu; m = or_default 0 mem in
         if c \<ge> hc_cpu_crit cfg \<or> m \<ge> hc_mem_crit cfg then ''red''
         else if c \<ge> hc_cpu_warn cfg \<or> m \<ge> hc_mem_warn cfg then ''yellow''
         else ''green''))"

section \<open>One target\<close>

record health_entry =
  he_label :: "string option"
  he_host :: string
  he_adom :: string
  he_status :: string
  he_hostname :: json
  he_version :: json
  he_serial :: json
  he_ha_mode :: json
  he_ha_role :: json
  he_disk_used :: json
  he_cpu :: "rat option"
  he_mem :: "rat option"
  he_snmp_status :: string
  he_error :: "string option"
  he_last_updated :: "string option"

definition blank_entry ::
  "string option \<Rightarrow> string \<Rightarrow> string \<Rightarrow> string \<Rightarrow> string option \<Rightarrow> string option \<Rightarrow> health_entry" where
  "blank_entry l h a status err stamp =
     \<lparr>he_label = l, he_host = h, he_adom = a, he_status = status, he_hostname = JStr ''n/a'',
      he_version = JStr ''n/a'', he_serial = JStr ''n/a'', he_ha_mode = JStr ''n/a'',
      he_ha_role = JStr ''n/a'', he_disk_used = JStr ''n/a'', he_cpu = None, he_mem = None,
      he_snmp_status = ''disabled'', he_error = err, he_last_updated = stamp\<rparr>"

text \<open>\<^verbatim>\<open>d.get(k1, d.get(k2, ...))\<close> with the final default \<^verbatim>\<open>"n/a"\<close>.\<close>

fun first_field :: "(string, json) dict \<Rightarrow> string list \<Rightarrow> json" where
  "first_field d [] = JStr ''n/a''"
| "first_field d (k # ks) = dict_get d k (first_field d ks)"

definition read_status :: "post \<Rightarrow> client \<Rightarrow> json reply" where
  "read_status post c =
     (case preflight post c of (r, c') \<Rightarrow> bind_result r (\<lambda>_. fst (get_sys_status post c')))"

text \<open>\<^verbatim>\<open>_poll_target\<close>; the left side is an exception that leaves it.\<close>

definition poll_target ::
  "health_config \<Rightarrow> snmp_agent \<Rightarrow> post \<Rightarrow> (client_error \<Rightarrow> string) \<Rightarrow> (nat \<Rightarrow> string) \<Rightarrow> target
   \<Rightarrow> logger \<Rightarrow> health_entry result \<times> logger" where
  "poll_target cfg agent post text_of clk t lg =
     (case (label t, host t) of
        (None, _) \<Rightarrow> (Inl (KeyError ''label''), lg)
      | (Some l, None) \<Rightarrow> (Inl (KeyError ''host''), lg)
      | (Some l, Some h) \<Rightarrow>
          (let a = or_default ''root'' (adom t);
               offline = (\<lambda>err. blank_entry (Some l) h a ''offline'' err (Some (clk 0)))
           in case read_status post (make_client h 443 a None) of
                Inl (FazError cause) \<Rightarrow> (Inr (offline (Some (text_of (FazError cause)))), lg)
              | Inl FazSearchTimeout \<Rightarrow> (Inr (offline (Some (text_of FazSearchTimeout))), lg)
              | Inl exc \<Rightarrow>
                  (Inr (offline (Some (summarize_connection_error exc))),
                   app_log (clk 1) ''WARN'' ''faz_health_cache''
                     (''Poll failed for '' @ l @ '' ('' @ h @ ''): '' @ text_of exc) [] lg)
              | Inr (JObj d) \<Rightarrow>
                  (case poll_snmp cfg agent t of
                     (cpu, mem, snmp_status) \<Rightarrow>
                       (Inr ((offline None)
                          \<lparr>he_hostname := first_field d [''Hostname'', ''hostname''],
                           he_version := first_field d [''Version'', ''version''],
                           he_serial := first_field d [''Serial Number'', ''serial''],
                           he_ha_mode := first_field d [''HA Mode'', ''ha-mode'', ''ha_mode''],
                           he_ha_role := first_field d [''HA Role'', ''ha-role'', ''ha_role''],
                           he_disk_used := first_field d [''Disk Usage'', ''disk-usage'', ''disk_usage''],
                           he_cpu := map_option round_tenth cpu,
                           he_mem := map_option round_tenth mem,
                           he_snmp_status := snmp_status,
                           he_status := classify_status cfg cpu mem,
                           he_last_updated := Some (clk 1)\<rparr>), lg))
              | Inr _ \<Rightarrow> (Inl (AttributeError ''get''), lg)))"

section \<open>All targets\<close>

type_synonym health_cache = "(string, health_entry) dict"

definition malformed_entry :: "(py_error \<Rightarrow> string) \<Rightarrow> string \<Rightarrow> target \<Rightarrow> py_error \<Rightarrow> string \<Rightarrow> health_entry"
  where
  "malformed_entry exc_text l t err stamp =
     blank_entry (Some l) (or_default [] (host t)) (or_default ''root'' (adom t)) ''offline''
       (Some (''Malformed target entry: '' @ exc_text err)) (Some stamp)"

record health_io =
  io_agent :: snmp_agent
  io_post :: "target \<Rightarrow> post"
  io_text :: "client_error \<Rightarrow> string"
  io_exc_text :: "py_error \<Rightarrow> string"
  io_clk :: "nat \<Rightarrow> nat \<Rightarrow> string"

fun poll_health ::
  "health_config \<Rightarrow> health_io \<Rightarrow> nat \<Rightarrow> target list \<Rightarrow> health_cache \<times> logger \<Rightarrow> health_cache \<times> logger"
  where
  "poll_health cfg io i [] acc = acc"
| "poll_health cfg io i (t # ts) (cache, lg) =
     (if or_default [] (label t) = [] then poll_health cfg io (Suc i) ts (cache, lg)
      else
        (let l = or_default [] (label t) in
         case poll_target cfg (io_agent io) (io_post io t) (io_text io) (io_clk io i) t lg of
           (r, lg') \<Rightarrow>
             poll_health cfg io (Suc i) ts
               (dict_set l (case r of Inr e \<Rightarrow> e
                            | Inl err \<Rightarrow> malformed_entry (io_exc_text io) l t err (io_clk io i 2)) cache, lg')))"

definition CACHE_KEY :: string where "CACHE_KEY = ''faz_health''"

record health_world =
  hw_cache :: health_cache
  hw_store :: "health_cache cache_table"
  hw_log :: logger

text \<open>\<^verbatim>\<open>write_cache\<close> reads \<^verbatim>\<open>data.get("collected_at")\<close>: the cache has no such key unless a
  target is labelled so, and then SQLite refuses the entry as a column value.\<close>

datatype poll_outcome = Polled | BindingError

definition poll_all_targets ::
  "health_config \<Rightarrow> health_io \<Rightarrow> targets_file \<Rightarrow> health_world \<Rightarrow> poll_outcome \<times> health_world" where
  "poll_all_targets cfg io f w =
     (case poll_health cfg io 0 (list_targets f) (hw_cache w, hw_log w) of
        (cache, lg) \<Rightarrow>
          if dict_has cache ''collected_at'' then (BindingError, w\<lparr>hw_cache := cache, hw_log := lg\<rparr>)
          else (Polled, w\<lparr>hw_cache := cache, hw_store := write_cache CACHE_KEY cache None (hw_store w),
                          hw_log := lg\<rparr>))"

definition get_cached :: "string \<Rightarrow> health_world \<Rightarrow> health_entry option" where
  "get_cached l w = map_of (hw_cache w) l"

text \<open>An empty stored snapshot is not taken over (\<^verbatim>\<open>if stored\<close>).\<close>

definition health_filled :: "health_cache \<Rightarrow> bool" where
  "health_filled c \<longleftrightarrow> c \<noteq> []"

definition health_takeover :: "health_cache \<Rightarrow> health_cache \<Rightarrow> health_cache" where
  "health_takeover c stored = (if stored = [] then c else dict_update c stored)"

definition gray_entry :: "target \<Rightarrow> health_entry" where
  "gray_entry t =
     blank_entry (label t) (or_default [] (host t)) (or_default ''root'' (adom t)) ''gray'' None None"

definition card_of :: "health_cache \<Rightarrow> target \<Rightarrow> health_entry" where
  "card_of c t =
     (case Option.bind (label t) (map_of c) of Some e \<Rightarrow> e | None \<Rightarrow> gray_entry t)"

definition get_all_cached :: "targets_file \<Rightarrow> health_world \<Rightarrow> health_entry list \<times> health_world" where
  "get_all_cached f w =
     (let c = read_through health_filled health_takeover (read_cache CACHE_KEY (hw_store w)) (hw_cache w)
      in (map (card_of c) (list_targets f), w\<lparr>hw_cache := c\<rparr>))"

section \<open>One poll\<close>

text \<open>The entry a poll makes for the \<open>i\<close>-th target; it does not depend on the log.\<close>

definition polled_entry :: "health_config \<Rightarrow> health_io \<Rightarrow> nat \<Rightarrow> target \<Rightarrow> health_entry" where
  "polled_entry cfg io i t =
     (case fst (poll_target cfg (io_agent io) (io_post io t) (io_text io) (io_clk io i) t init_logger) of
        Inr e \<Rightarrow> e
      | Inl err \<Rightarrow>
          malformed_entry (io_exc_text io) (or_default [] (label t)) t err (io_clk io i 2))"

lemma poll_target_log:
  "fst (poll_target cfg agent post text_of clk t lg) = fst (poll_target cfg agent post text_of clk t lg')"
  by (simp add: poll_target_def Let_def split: option.split sum.split client_error.split json.split prod.split)

lemma poll_health_Cons:
  "poll_health cfg io i (t # ts) (cache, lg) =
     (if or_default [] (label t) = [] then poll_health cfg io (Suc i) ts (cache, lg)
      else poll_health cfg io (Suc i) ts
             (dict_set (or_default [] (label t)) (polled_entry cfg io i t) cache,
              snd (poll_target cfg (io_agent io) (io_post io t) (io_text io) (io_clk io i) t lg)))"
proof -
  obtain r lg' where p: "poll_target cfg (io_agent io) (io_post io t) (io_text io) (io_clk io i) t lg = (r, lg')"
    by (metis surj_pair)
  then have "fst (poll_target cfg (io_agent io) (io_post io t) (io_text io) (io_clk io i) t init_logger) = r"
    by (metis poll_target_log fst_conv)
  with p show ?thesis by (simp add: polled_entry_def Let_def)
qed

lemmas poll_health_simps = poll_health.simps(1) poll_health_Cons

declare poll_health.simps(2) [simp del]

abbreviation targeted :: "string \<Rightarrow> nat \<times> target \<Rightarrow> bool" where
  "targeted l \<equiv> \<lambda>(i, t). l \<noteq> [] \<and> label t = Some l"

lemma poll_health_lookup:
  "map_of (fst (poll_health cfg io i ts (cache, lg))) l =
     (case find (targeted l) (rev (enumerate i ts)) of
        None \<Rightarrow> map_of cache l
      | Some (j, t) \<Rightarrow> Some (polled_entry cfg io j t))"
proof (induction ts arbitrary: i cache lg)
  case (Cons t ts)
  show ?case
    by (cases "label t") (auto simp: poll_health_simps Cons.IH find_append split: option.split)
qed (simp add: poll_health_simps)

text \<open>C23. Polling keeps the targets apart. After a poll the card of every label is what polling the last
  target configured under it gives, whatever any other entry of the file or its appliance does (a
  malformed entry becomes an offline card and ends nothing), and labels that are not configured
  keep their old card. The snapshot for the other processes is this cache, unless a card is filed
  under the label \<^verbatim>\<open>collected_at\<close>: then writing it raises and the old snapshot stays.\<close>

theorem health_poll_isolated:
  "case poll_all_targets cfg io f w of
     (outcome, w') \<Rightarrow>
       (\<forall>l. map_of (hw_cache w') l =
          (case find (targeted l) (rev (enumerate 0 (list_targets f))) of
             None \<Rightarrow> map_of (hw_cache w) l
           | Some (j, t) \<Rightarrow> Some (polled_entry cfg io j t))) \<and>
       (outcome = BindingError \<longleftrightarrow> map_of (hw_cache w') ''collected_at'' \<noteq> None) \<and>
       read_cache CACHE_KEY (hw_store w') =
         (if outcome = Polled then Some (hw_cache w') else read_cache CACHE_KEY (hw_store w))"
proof -
  obtain cache lg where p: "poll_health cfg io 0 (list_targets f) (hw_cache w, hw_log w) = (cache, lg)"
    by (metis surj_pair)
  have "map_of cache l =
      (case find (targeted l) (rev (enumerate 0 (list_targets f))) of
         None \<Rightarrow> map_of (hw_cache w) l
       | Some (j, t) \<Rightarrow> Some (polled_entry cfg io j t))" for l
    using poll_health_lookup [of cfg io 0 "list_targets f" "hw_cache w" "hw_log w" l] p by simp
  with p show ?thesis by (simp add: poll_all_targets_def)
qed

section \<open>What a card can say\<close>

definition card_sound :: "health_entry \<Rightarrow> bool" where
  "card_sound e \<longleftrightarrow>
     he_status e \<in> {''gray'', ''offline'', ''green'', ''yellow'', ''red''} \<and>
     (he_status e = ''offline'' \<longleftrightarrow> he_error e \<noteq> None) \<and>
     (he_status e = ''gray'' \<longleftrightarrow> he_last_updated e = None) \<and>
     (he_status e \<in> {''gray'', ''offline''} \<longrightarrow> he_cpu e = None \<and> he_mem e = None) \<and>
     (he_status e \<in> {''yellow'', ''red''} \<longrightarrow> he_snmp_status e = ''ok'')"

lemma classify_status_cases:
  "classify_status cfg cpu mem \<in> {''green'', ''yellow'', ''red''}"
  by (simp add: classify_status_def Let_def)

lemma poll_snmp_ok:
  "poll_snmp cfg agent t = (cpu, mem, st) \<Longrightarrow> st = ''ok'' \<or> cpu = None \<and> mem = None"
  by (auto simp: poll_snmp_def split: if_splits option.splits sum.splits snmp_error.splits list.splits)

lemma blank_sound:
  "card_sound (blank_entry l h a ''offline'' (Some err) (Some stamp))"
  "card_sound (blank_entry l h a ''gray'' None None)"
  by (simp_all add: card_sound_def blank_entry_def)

lemma poll_target_sound:
  assumes "fst (poll_target cfg agent post text_of clk t lg) = Inr e"
  shows "he_label e = label t \<and> card_sound e \<and> he_status e \<noteq> ''gray''"
proof -
  obtain l where l: "label t = Some l" using assms by (cases "label t") (simp_all add: poll_target_def)
  obtain h where h: "host t = Some h" using assms l by (cases "host t") (simp_all add: poll_target_def)
  note d = assms l h
  let ?r = "read_status post (make_client h 443 (or_default ''root'' (adom t)) None)"
  show ?thesis
  proof (cases ?r)
    case (Inl exc)
    with d show ?thesis
      by (cases exc) (auto simp: poll_target_def Let_def blank_sound, simp_all add: blank_entry_def)
  next
    case (Inr x)
    then obtain kvs where x: "x = JObj kvs" using d by (cases x) (simp_all add: poll_target_def Let_def)
    obtain cpu mem st where s: "poll_snmp cfg agent t = (cpu, mem, st)" by (metis surj_pair)
    have "classify_status cfg cpu mem \<noteq> ''green'' \<Longrightarrow> st = ''ok''"
      using poll_snmp_ok [OF s] by (auto simp: classify_status_def)
    with d Inr x s classify_status_cases [of cfg cpu mem] show ?thesis
      by (auto simp: poll_target_def Let_def card_sound_def blank_entry_def)
  qed
qed

lemma polled_entry_sound:
  assumes "or_default [] (label t) \<noteq> []"
  shows "he_label (polled_entry cfg io i t) = label t \<and> card_sound (polled_entry cfg io i t) \<and>
    he_status (polled_entry cfg io i t) \<noteq> ''gray''"
proof (cases "fst (poll_target cfg (io_agent io) (io_post io t) (io_text io) (io_clk io i) t init_logger)")
  case (Inl err)
  with assms show ?thesis
    by (cases "label t") (simp_all add: polled_entry_def malformed_entry_def blank_sound,
        simp_all add: blank_entry_def)
next
  case (Inr e)
  with poll_target_sound [OF Inr] show ?thesis by (simp add: polled_entry_def)
qed

text \<open>A cache whose cards are sound and filed under their own label.\<close>

definition cards_filed :: "health_cache \<Rightarrow> bool" where
  "cards_filed c \<longleftrightarrow> (\<forall>l e. map_of c l = Some e \<longrightarrow> he_label e = Some l \<and> card_sound e)"

lemma poll_keeps_filed:
  assumes "cards_filed c" shows "cards_filed (fst (poll_health cfg io i ts (c, lg)))"
  unfolding cards_filed_def poll_health_lookup
proof (intro allI impI)
  fix l e
  assume e: "(case find (targeted l) (rev (enumerate i ts)) of None \<Rightarrow> map_of c l
      | Some (j, t) \<Rightarrow> Some (polled_entry cfg io j t)) = Some e"
  show "he_label e = Some l \<and> card_sound e"
  proof (cases "find (targeted l) (rev (enumerate i ts))")
    case None
    with e assms show ?thesis by (simp add: cards_filed_def)
  next
    case (Some p)
    obtain j t where p: "p = (j, t)" by (cases p)
    with Some have t: "l \<noteq> []" "label t = Some l" by (auto simp: find_Some_iff)
    from Some p e have "e = polled_entry cfg io j t" by simp
    with polled_entry_sound [of t cfg io j] t show ?thesis by simp
  qed
qed

section \<open>The collector and a web worker\<close>

text \<open>The collector polls and publishes; a web worker only reads, through its own cache. Either may
  be restarted, and the configuration may change between any two steps.\<close>

inductive health_reachable :: "health_config \<Rightarrow> health_world \<Rightarrow> health_cache \<Rightarrow> bool" for cfg where
  start: "health_reachable cfg \<lparr>hw_cache = [], hw_store = [], hw_log = init_logger\<rparr> []"
| poll: "health_reachable cfg cw wc \<Longrightarrow> health_reachable cfg (snd (poll_all_targets cfg io f cw)) wc"
| worker_read:
    "health_reachable cfg cw wc \<Longrightarrow>
     health_reachable cfg cw (hw_cache (snd (get_all_cached f (cw\<lparr>hw_cache := wc\<rparr>))))"
| worker_restart: "health_reachable cfg cw wc \<Longrightarrow> health_reachable cfg cw []"
| collector_restart: "health_reachable cfg cw wc \<Longrightarrow> health_reachable cfg (cw\<lparr>hw_cache := []\<rparr>) wc"

lemma takeover_filed:
  assumes "cards_filed c" "cards_filed d" "wf_dict d"
  shows "cards_filed (health_takeover c d)"
  using assms by (auto simp: health_takeover_def cards_filed_def dict_lookup_update map_of_rev split: option.splits)

lemma poll_health_wf: "wf_dict c \<Longrightarrow> wf_dict (fst (poll_health cfg io i ts (c, lg)))"
  by (induction ts arbitrary: i c lg) (simp_all add: poll_health_simps)

definition store_filed :: "health_cache cache_table \<Rightarrow> bool" where
  "store_filed tbl \<longleftrightarrow>
     (case read_cache CACHE_KEY tbl of None \<Rightarrow> True | Some c \<Rightarrow> cards_filed c \<and> wf_dict c)"

lemma read_through_filed:
  assumes "cards_filed c" "store_filed tbl"
  shows "cards_filed (read_through health_filled health_takeover (read_cache CACHE_KEY tbl) c)"
  using assms takeover_filed by (auto simp: read_through_def store_filed_def split: option.splits)

lemma reachable_filed:
  "health_reachable cfg cw wc \<Longrightarrow>
     cards_filed (hw_cache cw) \<and> wf_dict (hw_cache cw) \<and> store_filed (hw_store cw) \<and> cards_filed wc"
proof (induction rule: health_reachable.induct)
  case (poll cw wc io f)
  obtain cache lg where p: "poll_health cfg io 0 (list_targets f) (hw_cache cw, hw_log cw) = (cache, lg)"
    by (metis surj_pair)
  with poll poll_keeps_filed poll_health_wf have "cards_filed cache" "wf_dict cache" by (metis fst_conv)+
  with poll p show ?case by (simp add: poll_all_targets_def store_filed_def)
next
  case (worker_read cw wc f)
  then show ?case using read_through_filed by (simp add: get_all_cached_def Let_def)
qed (simp_all add: cards_filed_def store_filed_def read_cache_def)

interpretation health_reads: read_through_cache health_filled health_takeover "\<lambda>d. d \<noteq> []"
proof
  fix c d :: health_cache
  assume "d \<noteq> []"
  then obtain k v e where "d = (k, v) # e" by (cases d) auto
  then have "map_of (dict_update c d) k \<noteq> None"
    by (auto simp: dict_lookup_update map_add_def split: option.splits)
  with \<open>d \<noteq> []\<close> show "health_filled (health_takeover c d)"
    by (auto simp: health_filled_def health_takeover_def)
qed

lemma health_cards_facts:
  assumes "health_reachable cfg cw wc"
  shows "map he_label (fst (get_all_cached f (cw\<lparr>hw_cache := wc\<rparr>))) = map label (list_targets f) \<and>
    list_all card_sound (fst (get_all_cached f (cw\<lparr>hw_cache := wc\<rparr>)))"
proof -
  let ?c = "read_through health_filled health_takeover (read_cache CACHE_KEY (hw_store cw)) wc"
  have f: "cards_filed ?c" using reachable_filed [OF assms] read_through_filed by simp
  have "he_label (card_of ?c t) = label t \<and> card_sound (card_of ?c t)" for t
  proof (cases "Option.bind (label t) (map_of ?c)")
    case None
    then show ?thesis
      by (simp add: card_of_def gray_entry_def blank_sound) (simp add: blank_entry_def)
  next
    case (Some e)
    then obtain l where "label t = Some l" "map_of ?c l = Some e" by (cases "label t") auto
    with f Some show ?thesis by (simp add: card_of_def cards_filed_def)
  qed
  then show ?thesis by (simp add: get_all_cached_def Let_def list_all_iff)
qed

text \<open>C31. Whatever the collector polled, restarts and edits of the target file in between included, the
  dashboard of a web worker always has one card per configured target, in the file's order and
  under the target's own label, and no card contradicts itself: offline exactly with an error
  text, gray exactly when there never was a poll, no CPU or memory on an offline or gray card, and
  yellow or red only on a successful SNMP reading.\<close>

theorem health_cards_sound:
  assumes "health_reachable cfg cw wc"
  shows "map he_label (fst (get_all_cached f (cw\<lparr>hw_cache := wc\<rparr>))) = map label (list_targets f) \<and>
    list_all card_sound (fst (get_all_cached f (cw\<lparr>hw_cache := wc\<rparr>)))"
  by (rule health_cards_facts [OF assms])

definition sample_health_config :: health_config where
  "sample_health_config =
     \<lparr>hc_snmp_enabled = True, hc_user = ''u'', hc_auth_key = ''a'', hc_priv_key = ''p'',
      hc_auth_protocol = ''SHA'', hc_priv_protocol = ''AES'', hc_cpu_warn = 70, hc_cpu_crit = 90,
      hc_mem_warn = 75, hc_mem_crit = 90\<rparr>"

definition sample_io :: health_io where
  "sample_io =
     \<lparr>io_agent = (\<lambda>u h oids. Some \<lparr>error_indication = None, error_status = None,
        var_binds = [Some (95 / 2), Some 19, Some 20]\<rparr>),
      io_post = (\<lambda>t r. Inr (JObj [(''result'', JObj [(''data'', JObj [(''Hostname'', JStr ''faz'')])])])),
      io_text = (\<lambda>_. ''error''), io_exc_text = (\<lambda>_. ''host''), io_clk = (\<lambda>i k. ''10:00'')\<rparr>"

definition sample_targets :: targets_file where
  "sample_targets =
     Content [build_entry ''dc1'' ''192.0.2.1'' ''root'' ''tok'' None True,
       (build_entry ''dc2'' [] ''root'' [] None True)\<lparr>host := None\<rparr>]"

definition sample_world :: health_world where
  "sample_world =
     snd (poll_all_targets sample_health_config sample_io sample_targets
            \<lparr>hw_cache = [], hw_store = [], hw_log = init_logger\<rparr>)"

lemma sample_cards:
  "map he_status (fst (get_all_cached sample_targets (sample_world\<lparr>hw_cache := []\<rparr>))) = [''red'', ''offline'']"
  by code_simp

lemma health_cards_sound_witness:
  "map he_label (fst (get_all_cached sample_targets (sample_world\<lparr>hw_cache := []\<rparr>))) =
     [Some ''dc1'', Some ''dc2''] \<and>
   list_all card_sound (fst (get_all_cached sample_targets (sample_world\<lparr>hw_cache := []\<rparr>)))"
proof -
  have "health_reachable sample_health_config sample_world []"
    unfolding sample_world_def by (rule health_reachable.poll [OF health_reachable.start])
  from health_cards_sound [OF this, of sample_targets]
  show ?thesis by (simp add: sample_targets_def list_targets_def load_targets_def build_entry_def setdefault_poll_def)
qed

end
