(* ===== verification/Dashboard.thy ===== *)
theory Dashboard
  imports Sessions FazHealth
begin

text \<open>
  \<^verbatim>\<open>app/routes/dashboard_routes.py\<close>: the health cards a user sees. The page is the card list of
  \<^theory_text>\<open>FazHealth\<close>, restricted to the ADOM labels the groups file grants.
\<close>

definition visible_card :: "string list option \<Rightarrow> health_entry \<Rightarrow> bool" where
  "visible_card allowed c =
     (case allowed of
        None \<Rightarrow> True
      | Some ls \<Rightarrow> (case he_label c of None \<Rightarrow> False | Some l \<Rightarrow> l \<in> set ls))"

definition dashboard_handler ::
  "env \<Rightarrow> targets_file \<Rightarrow> health_world \<Rightarrow> session \<Rightarrow> health_entry list result \<times> health_world" where
  "dashboard_handler e f w s =
     (case get_allowed_adoms (or_default [] (s_user s)) (Some (or_default [] (s_ad_groups s)))
             (s_role s) (users_json e) (groups_json e) of
        Inl err \<Rightarrow> (Inl err, w)
      | Inr allowed \<Rightarrow>
          (case get_all_cached f w of
             (cards, w') \<Rightarrow> (Inr (filter (visible_card allowed) cards), w')))"

definition api_dashboard ::
  "env \<Rightarrow> targets_file \<Rightarrow> health_world \<Rightarrow> session
   \<Rightarrow> health_entry list api_response result \<times> health_world \<times> session" where
  "api_dashboard e f w s =
     (case tab_required ''dashboard'' e ''/api/dashboard'' s of
        (Inl err, s') \<Rightarrow> (Inl err, w, s')
      | (Inr (Some r), s') \<Rightarrow> (Inr (Guarded r), w, s')
      | (Inr None, s') \<Rightarrow>
          (case dashboard_handler e f w s' of
             (Inl err, w') \<Rightarrow> (Inl err, w', s')
           | (Inr cards, w') \<Rightarrow> (Inr (ApiOk cards), w', s')))"

section \<open>Who sees which card\<close>

text \<open>The list of allowed ADOMs and the single check agree, also for a session whose role is already
  \<^verbatim>\<open>admin\<close>.\<close>

lemma allowed_adoms_access:
  assumes "get_allowed_adoms u ads role uf gf = Inr allowed" and "role \<noteq> Some ''admin''"
  shows "user_can_access_adom u a ads uf gf =
    Inr (case allowed of None \<Rightarrow> True | Some ls \<Rightarrow> a \<in> set ls)"
proof -
  have "get_allowed_adoms u ads None uf gf = Inr allowed"
    using assms by (simp add: get_allowed_adoms_def)
  then show ?thesis by (simp add: user_can_access_adom_def split: option.split)
qed

lemma check_adom_access_allowed:
  assumes "get_allowed_adoms (or_default [] (s_user s)) (Some (or_default [] (s_ad_groups s))) (s_role s)
      (users_json e) (groups_json e) = Inr allowed"
  shows "check_adom_access e a s = Inr None \<longleftrightarrow>
    (case allowed of None \<Rightarrow> True | Some ls \<Rightarrow> a \<in> set ls)"
proof (cases "s_role s = Some ''admin''")
  case True
  with assms show ?thesis by (simp add: check_adom_access_def get_allowed_adoms_def split: option.split)
next
  case False
  with allowed_adoms_access [OF assms False] show ?thesis by (simp add: check_adom_access_def)
qed

lemma api_dashboard_ok:
  assumes "api_dashboard e f w s = (Inr (ApiOk cards), w', s')"
  obtains allowed where "tab_required ''dashboard'' e ''/api/dashboard'' s = (Inr None, s')"
    and "get_allowed_adoms (or_default [] (s_user s')) (Some (or_default [] (s_ad_groups s'))) (s_role s')
           (users_json e) (groups_json e) = Inr allowed"
    and "cards = filter (visible_card allowed) (fst (get_all_cached f w))"
proof -
  obtain g s1 where g: "tab_required ''dashboard'' e ''/api/dashboard'' s = (g, s1)" by (metis surj_pair)
  with assms have gn: "g = Inr None"
    by (auto simp: api_dashboard_def split: sum.splits option.splits prod.splits)
  obtain q w1 where q: "dashboard_handler e f w s1 = (q, w1)" by (metis surj_pair)
  with assms g gn have s1: "s1 = s'" and q': "q = Inr cards"
    by (auto simp: api_dashboard_def split: sum.splits)
  let ?a = "get_allowed_adoms (or_default [] (s_user s')) (Some (or_default [] (s_ad_groups s'))) (s_role s')
           (users_json e) (groups_json e)"
  obtain allowed where a: "?a = Inr allowed"
    using q q' s1 by (cases ?a) (simp_all add: dashboard_handler_def)
  with q q' s1 have "cards = filter (visible_card allowed) (fst (get_all_cached f w))"
    by (auto simp: dashboard_handler_def split: prod.splits)
  with that g gn s1 a show ?thesis by simp
qed

text \<open>C15. The dashboard shows exactly the cards of the targets the user may use: in every reachable state
  of the health poller, a successful answer lists, in the order of the target file, one sound card
  for each configured target whose label the ADOM check of the other pages lets the same session
  through, and no other. A target whose entry has no label is shown to unrestricted users only.\<close>

theorem dashboard_agrees_with_adom_check:
  assumes "health_reachable cfg cw wc"
    and "api_dashboard e f (cw\<lparr>hw_cache := wc\<rparr>) s = (Inr (ApiOk cards), w', s')"
  shows "list_all card_sound cards \<and>
    filter (\<lambda>l. l \<noteq> None) (map he_label cards) =
      filter (\<lambda>l. case l of None \<Rightarrow> False | Some a \<Rightarrow> check_adom_access e a s' = Inr None)
        (map label (list_targets f))"
proof -
  obtain allowed where
    al: "get_allowed_adoms (or_default [] (s_user s')) (Some (or_default [] (s_ad_groups s'))) (s_role s')
      (users_json e) (groups_json e) = Inr allowed"
    and cards: "cards = filter (visible_card allowed) (fst (get_all_cached f (cw\<lparr>hw_cache := wc\<rparr>)))"
    using api_dashboard_ok [OF assms(2)] by blast
  let ?all = "fst (get_all_cached f (cw\<lparr>hw_cache := wc\<rparr>))"
  let ?may = "\<lambda>l. case l of None \<Rightarrow> False | Some a \<Rightarrow> check_adom_access e a s' = Inr None"
  note sound = health_cards_facts [OF assms(1), of f]
  have "filter (\<lambda>l. l \<noteq> None) (map he_label (filter (visible_card allowed) xs)) = filter ?may (map he_label xs)"
    for xs
    by (induction xs)
      (auto simp: visible_card_def check_adom_access_allowed [OF al] split: option.splits)
  with sound cards show ?thesis by (auto simp: list_all_iff)
qed

definition dashboard_env :: env where
  "dashboard_env =
     \<lparr>now = 1000, checker = None, absolute_lifetime = 600, users_json = Content [],
      groups_json = Content [(''noc'', \<lparr>g_members = Some [''ann''], g_ad_groups = None,
        g_allowed_tabs = Some [''dashboard''], g_adom_restrict = Some True, g_allowed_adoms = Some [''dc2'']\<rparr>)],
      known_tabs = [''dashboard'']\<rparr>"

definition dashboard_session :: session where
  "dashboard_session =
     empty_session\<lparr>s_user := Some ''ann'', s_role := Some ''sso'', s_ad_groups := Some [],
       s_auth_source := Some ''sso'', s_login_at := Some 900\<rparr>"

lemma dashboard_agrees_with_adom_check_witness:
  "\<exists>cards w' s'. api_dashboard dashboard_env sample_targets (sample_world\<lparr>hw_cache := []\<rparr>) dashboard_session
     = (Inr (ApiOk cards), w', s') \<and> list_all card_sound cards \<and>
     filter (\<lambda>l. l \<noteq> None) (map he_label cards) = [Some ''dc2'']"
proof -
  let ?w = "sample_world\<lparr>hw_cache := []\<rparr>"
  have "health_reachable sample_health_config sample_world []"
    unfolding sample_world_def by (rule health_reachable.poll [OF health_reachable.start])
  note sound = dashboard_agrees_with_adom_check [OF this, of dashboard_env sample_targets dashboard_session]
  have "case api_dashboard dashboard_env sample_targets ?w dashboard_session of
      (Inr (ApiOk cards), w', s') \<Rightarrow> filter (\<lambda>l. l \<noteq> None) (map he_label cards) = [Some ''dc2'']
    | _ \<Rightarrow> False"
    by code_simp
  then obtain cards w' s' where
    "api_dashboard dashboard_env sample_targets ?w dashboard_session = (Inr (ApiOk cards), w', s')"
    "filter (\<lambda>l. l \<noteq> None) (map he_label cards) = [Some ''dc2'']"
    by (auto split: prod.splits sum.splits api_response.splits)
  with sound show ?thesis by blast
qed

end
