(* ===== verification/ApiTokens.thy ===== *)
theory ApiTokens
  imports Stores PyString
begin

text \<open>
  \<^verbatim>\<open>app/api_tokens.py\<close>: the bearer tokens of the external API. SHA-256 in hexadecimal
  (\<^verbatim>\<open>_hash\<close>) is the argument \<open>sha\<close>; the random part of a new token and its UUID
  are arguments of \<open>create_token\<close>. Unreadable files hold no token.
\<close>

record api_token =
  tok_id :: "string option"
  token_name :: "string option"
  token_hash :: "string option"
  enabled :: "bool option"

text \<open>A record without its hash: what the module returns to its callers.\<close>

record token_info =
  info_id :: "string option"
  info_name :: "string option"
  info_enabled :: "bool option"

type_synonym tokens_file = "api_token list json_file"

definition TOKEN_PREFIX :: string where
  "TOKEN_PREFIX = ''4tl_''"

definition load_tokens :: "tokens_file \<Rightarrow> api_token list" where
  "load_tokens f = (case f of Absent \<Rightarrow> [] | Unreadable \<Rightarrow> [] | Content ts \<Rightarrow> ts)"

definition safe :: "api_token \<Rightarrow> token_info" where
  "safe t = \<lparr>info_id = tok_id t, info_name = token_name t, info_enabled = enabled t\<rparr>"

definition create_token ::
  "(string \<Rightarrow> string) \<Rightarrow> string \<Rightarrow> string \<Rightarrow> string \<Rightarrow> tokens_file
   \<Rightarrow> (string \<times> token_info) \<times> tokens_file" where
  "create_token sha hex uuid nm f =
     (let raw = TOKEN_PREFIX @ hex;
          rcd = \<lparr>tok_id = Some uuid, token_name = Some (strip nm), token_hash = Some (sha raw),
                 enabled = Some True\<rparr>
      in ((raw, safe rcd), Content (load_tokens f @ [rcd])))"

definition list_tokens :: "tokens_file \<Rightarrow> token_info list" where
  "list_tokens f = map safe (load_tokens f)"

definition revoke_token :: "string \<Rightarrow> tokens_file \<Rightarrow> bool \<times> tokens_file" where
  "revoke_token token_id f =
     (let tokens = load_tokens f;
          remaining = filter (\<lambda>t. tok_id t \<noteq> Some token_id) tokens
      in if length remaining = length tokens then (False, f) else (True, Content remaining))"

definition matches :: "string \<Rightarrow> api_token \<Rightarrow> bool" where
  "matches h t \<longleftrightarrow> or_default [] (token_hash t) = h \<and> or_default True (enabled t)"

definition validate_token ::
  "(string \<Rightarrow> string) \<Rightarrow> string \<Rightarrow> tokens_file \<Rightarrow> token_info option" where
  "validate_token sha raw f =
     (if raw = [] then None else map_option safe (find (matches (sha raw)) (load_tokens f)))"

section \<open>Lemmas\<close>

lemma load_tokens_Content [simp]: "load_tokens (Content ts) = ts"
  by (simp add: load_tokens_def)

lemma load_revoked:
  "load_tokens (snd (revoke_token i f)) = filter (\<lambda>t. tok_id t \<noteq> Some i) (load_tokens f)"
  by (auto simp: revoke_token_def Let_def filter_same_length filter_id_conv)

lemma find_filter_keep:
  "find P xs = Some x \<Longrightarrow> Q x \<Longrightarrow> find P (filter Q xs) = Some x"
  by (induction xs) (auto split: if_splits)

lemma find_filter_Some: "find P (filter Q xs) = Some x \<Longrightarrow> Q x \<and> P x"
  by (induction xs) (auto split: if_splits)

section \<open>Properties\<close>

text \<open>
  A bearer token works from its creation to its revocation and leaves no trace: the raw
  token returned by \<^verbatim>\<open>create_token\<close> is accepted at once, a raw token with another hash
  is judged as before, and revoking the new token (its identifier being fresh) makes every
  raw token be judged exactly as before the creation.
\<close>

theorem token_lifecycle:
  assumes c: "create_token sha hex uuid nm f = ((raw, info), f1)"
    and fresh: "\<forall>t \<in> set (load_tokens f). tok_id t \<noteq> Some uuid"
    and r: "revoke_token uuid f1 = (ok, f2)"
  shows "validate_token sha raw f1 \<noteq> None \<and>
    (\<forall>s. sha s \<noteq> sha raw \<longrightarrow> validate_token sha s f1 = validate_token sha s f) \<and>
    ok \<and> (\<forall>s. validate_token sha s f2 = validate_token sha s f)"
proof -
  let ?rcd = "\<lparr>tok_id = Some uuid, token_name = Some (strip nm), token_hash = Some (sha raw),
      enabled = Some True\<rparr>"
  have raw: "raw = TOKEN_PREFIX @ hex" and f1: "f1 = Content (load_tokens f @ [?rcd])"
    using c by (auto simp: create_token_def Let_def)
  have "filter (\<lambda>t. tok_id t \<noteq> Some uuid) (load_tokens f) = load_tokens f"
    using fresh by (simp add: filter_id_conv)
  then have "load_tokens f2 = load_tokens f" and ok
    using r load_revoked [of uuid f1] f1
    by (auto simp: revoke_token_def Let_def split: if_splits)
  then show ?thesis
    by (auto simp: validate_token_def f1 raw TOKEN_PREFIX_def find_append matches_def
          split: option.splits)
qed

theorem token_lifecycle_witness:
  "validate_token rev ''4tl_ab'' (Content [\<lparr>tok_id = Some ''u1'', token_name = Some ''exec'',
     token_hash = Some ''ba_lt4'', enabled = Some True\<rparr>]) \<noteq> None"
proof -
  let ?f1 = "Content [\<lparr>tok_id = Some ''u1'', token_name = Some ''exec'',
     token_hash = Some ''ba_lt4'', enabled = Some True\<rparr>]"
  have c: "create_token rev ''ab'' ''u1'' '' exec'' Absent =
    ((''4tl_ab'', \<lparr>info_id = Some ''u1'', info_name = Some ''exec'', info_enabled = Some True\<rparr>), ?f1)"
    by code_simp
  have r: "revoke_token ''u1'' ?f1 = (True, Content [])" by code_simp
  show ?thesis using token_lifecycle [OF c _ r] by (simp add: load_tokens_def)
qed

text \<open>
  Revocation is final and precise: after revoking an identifier no raw token is accepted
  as that record, and every raw token accepted as another record still is.
\<close>

theorem revoke_token_precise:
  assumes "revoke_token i f = (ok, f')"
  shows "(\<forall>s info. validate_token sha s f' = Some info \<longrightarrow> info_id info \<noteq> Some i) \<and>
    (\<forall>s info. validate_token sha s f = Some info \<longrightarrow> info_id info \<noteq> Some i \<longrightarrow>
       validate_token sha s f' = Some info)"
proof -
  have l: "load_tokens f' = filter (\<lambda>t. tok_id t \<noteq> Some i) (load_tokens f)"
    using load_revoked [of i f] assms by simp
  show ?thesis
    by (auto simp: validate_token_def l safe_def dest: find_filter_Some intro!: find_filter_keep)
qed

theorem revoke_token_precise_witness:
  "validate_token rev ''b'' (Content [\<lparr>tok_id = Some ''2'', token_name = None, token_hash = Some ''b'',
     enabled = None\<rparr>]) = Some \<lparr>info_id = Some ''2'', info_name = None, info_enabled = None\<rparr>"
proof -
  let ?t = "\<lparr>tok_id = Some ''2'', token_name = None, token_hash = Some ''b'', enabled = None\<rparr>"
  let ?u = "\<lparr>tok_id = Some ''1'', token_name = None, token_hash = Some ''a'', enabled = None\<rparr>"
  have r: "revoke_token ''1'' (Content [?u, ?t]) = (True, Content [?t])" by code_simp
  have v: "validate_token rev ''b'' (Content [?u, ?t]) =
      Some \<lparr>info_id = Some ''2'', info_name = None, info_enabled = None\<rparr>" by code_simp
  show ?thesis using revoke_token_precise [OF r] v by auto
qed

end
