(* ===== verification/UtcTime.thy ===== *)
theory UtcTime
  imports PyString
begin

text \<open>
  UTC timestamps as the host metrics history writes and reads them:
  \<^verbatim>\<open>strftime("%Y-%m-%dT%H:%M:%SZ")\<close> of a UTC time and \<^verbatim>\<open>datetime.fromisoformat\<close> of such a
  text. A time is the number of seconds since 1970, up to the end of the year 9999. Texts in
  another of the ISO 8601 formats are outside the model of the parser.
\<close>

section \<open>The calendar\<close>

definition leap :: "nat \<Rightarrow> bool" where
  "leap y \<longleftrightarrow> (4 dvd y \<and> \<not> 100 dvd y) \<or> 400 dvd y"

definition year_days :: "nat \<Rightarrow> nat" where
  "year_days y = (if leap y then 366 else 365)"

definition month_days :: "nat \<Rightarrow> nat \<Rightarrow> nat" where
  "month_days y m =
     (if m = 2 then (if leap y then 29 else 28) else if m \<in> {4, 6, 9, 11} then 30 else 31)"

text \<open>Consecutive spans of given lengths: the span a number falls into and its offset there.\<close>

function split_by :: "(nat \<Rightarrow> nat) \<Rightarrow> nat \<Rightarrow> nat \<Rightarrow> nat \<times> nat" where
  "split_by len k n = (if len k = 0 \<or> n < len k then (k, n) else split_by len (Suc k) (n - len k))"
  by pat_completeness auto
termination by (relation "measure (\<lambda>(len, k, n). n)") auto

declare split_by.simps [simp del]

definition civil :: "nat \<Rightarrow> nat \<times> nat \<times> nat" where
  "civil days =
     (let (y, doy) = split_by year_days 1970 days; (m, d) = split_by (month_days y) 1 doy in (y, m, Suc d))"

definition days_before :: "nat \<Rightarrow> nat \<Rightarrow> nat \<Rightarrow> nat" where
  "days_before y m d = sum year_days {1970..<y} + sum (month_days y) {1..<m} + (d - 1)"

section \<open>Writing and reading\<close>

fun pad :: "nat \<Rightarrow> nat \<Rightarrow> string" where
  "pad 0 n = []"
| "pad (Suc k) n = pad k (n div 10) @ [digit_char (n mod 10)]"

definition iso_z :: "nat \<Rightarrow> string" where
  "iso_z t =
     (let (y, m, d) = civil (t div 86400); s = t mod 86400 in
      pad 4 y @ CHR ''-'' # pad 2 m @ CHR ''-'' # pad 2 d @ CHR ''T'' # pad 2 (s div 3600)
      @ CHR '':'' # pad 2 (s div 60 mod 60) @ CHR '':'' # pad 2 (s mod 60) @ ''Z'')"

definition number_at :: "nat \<Rightarrow> nat \<Rightarrow> string \<Rightarrow> nat" where
  "number_at i k s = decimal_value (take k (drop i s))"

definition iso_shape :: "string \<Rightarrow> bool" where
  "iso_shape s \<longleftrightarrow>
     length s = 20 \<and>
     list_all (\<lambda>i. ascii_digit (s ! i)) [0, 1, 2, 3, 5, 6, 8, 9, 11, 12, 14, 15, 17, 18] \<and>
     s ! 4 = CHR ''-'' \<and> s ! 7 = CHR ''-'' \<and> s ! 10 = CHR ''T'' \<and> s ! 13 = CHR '':'' \<and> s ! 16 = CHR '':'' \<and>
     s ! 19 = CHR ''Z''"

definition from_iso :: "string \<Rightarrow> nat result" where
  "from_iso s =
     (let y = number_at 0 4 s; m = number_at 5 2 s; d = number_at 8 2 s; h = number_at 11 2 s;
          mi = number_at 14 2 s; sec = number_at 17 2 s in
      if iso_shape s \<and> 1970 \<le> y \<and> 1 \<le> m \<and> m \<le> 12 \<and> 1 \<le> d \<and> d \<le> month_days y m \<and> h < 24 \<and> mi < 60 \<and> sec < 60
      then Inr (days_before y m d * 86400 + h * 3600 + mi * 60 + sec)
      else Inl (ValueError ''Invalid isoformat string''))"

section \<open>Spans\<close>

lemma split_by_sound:
  assumes "split_by len k n = (j, r)" and "\<And>k. 0 < len k"
  shows "k \<le> j \<and> r < len j \<and> n = sum len {k..<j} + r"
  using assms
proof (induction len k n rule: split_by.induct)
  case (1 len k n)
  show ?case
  proof (cases "len k = 0 \<or> n < len k")
    case True
    with "1.prems" show ?thesis by (auto simp: split_by.simps split: if_splits) (metis less_irrefl)+
  next
    case False
    with 1 have IH: "Suc k \<le> j \<and> r < len j \<and> n - len k = sum len {Suc k..<j} + r"
      by (subst (asm) split_by.simps) auto
    with False show ?thesis by (auto simp: sum.atLeast_Suc_lessThan [of k j len])
  qed
qed

lemma sum_span_mono: "j < j' \<Longrightarrow> k \<le> j \<Longrightarrow> sum len {k..<j} + len j \<le> sum len {k..<(j' :: nat)}" for len :: "nat \<Rightarrow> nat"
proof -
  assume "j < j'" "k \<le> j"
  then have "{k..<j'} = {k..<Suc j} \<union> {Suc j..<j'}" by auto
  then have "sum len {k..<j'} = sum len {k..<Suc j} + sum len {Suc j..<j'}"
    by (simp add: sum.union_disjoint)
  with \<open>k \<le> j\<close> show ?thesis by simp
qed

lemma spans_less:
  fixes len :: "nat \<Rightarrow> nat"
  assumes "k \<le> j" "r < len j" "k \<le> j'" "r' < len j'"
  shows "sum len {k..<j} + r < sum len {k..<j'} + r' \<longleftrightarrow> j < j' \<or> j = j' \<and> r < r'"
  using assms sum_span_mono [of j j' k len] sum_span_mono [of j' j k len]
  by (cases j j' rule: linorder_cases) auto

lemma year_days_pos: "0 < year_days y"
  and month_days_pos: "0 < month_days y m"
  by (simp_all add: year_days_def month_days_def)

lemma year_months: "year_days y = sum (month_days y) {1..<13}"
proof -
  have "{1..<13} = {1, 2, 3, 4, 5, 6, 7, 8, 9, 10, 11, 12 :: nat}" by (auto; presburger)
  then show ?thesis by (simp add: year_days_def month_days_def)
qed

lemma civil_sound:
  assumes "civil days = (y, m, d)"
  shows "1970 \<le> y \<and> 1 \<le> m \<and> m \<le> 12 \<and> 1 \<le> d \<and> d \<le> month_days y m \<and> days = days_before y m d"
proof -
  obtain doy where y: "split_by year_days 1970 days = (y, doy)"
    using assms by (auto simp: civil_def Let_def split: prod.splits)
  obtain d0 where m: "split_by (month_days y) 1 doy = (m, d0)" and d: "d = Suc d0"
    using assms y by (auto simp: civil_def Let_def split: prod.splits)
  note ys = split_by_sound [OF y year_days_pos] and ms = split_by_sound [OF m month_days_pos]
  have "m < 13"
  proof (rule ccontr)
    assume "\<not> m < 13"
    then have "sum (month_days y) {1..<13} \<le> sum (month_days y) {1..<m}" by (intro sum_mono2) auto
    with ms have "year_days y \<le> doy" by (simp add: year_months)
    with ys show False by simp
  qed
  with ys ms d show ?thesis by (simp add: days_before_def)
qed

lemma days_before_less:
  assumes "1970 \<le> y" "1 \<le> m" "m \<le> 12" "1 \<le> d" "d \<le> month_days y m"
    and "1970 \<le> y'" "1 \<le> m'" "m' \<le> 12" "1 \<le> d'" "d' \<le> month_days y' m'"
  shows "days_before y m d < days_before y' m' d' \<longleftrightarrow> y < y' \<or> y = y' \<and> (m < m' \<or> m = m' \<and> d < d')"
proof -
  let ?doy = "\<lambda>y m d. sum (month_days y) {1..<m} + (d - 1)"
  have in_year: "?doy y m d < year_days y"
    if "1 \<le> m" "m \<le> 12" "1 \<le> d" "d \<le> month_days y m" for y m d
  proof -
    have "?doy y m d < sum (month_days y) {1..<m} + month_days y m" using that by simp
    also have "\<dots> \<le> year_days y" unfolding year_months using that by (intro sum_span_mono) auto
    finally show ?thesis .
  qed
  have "days_before y m d < days_before y' m' d' \<longleftrightarrow> y < y' \<or> y = y' \<and> ?doy y m d < ?doy y' m' d'"
    using spans_less [of 1970 y "?doy y m d" year_days y' "?doy y' m' d'"] assms in_year
    by (simp add: days_before_def add.assoc)
  moreover have "?doy y m d < ?doy y m' d' \<longleftrightarrow> m < m' \<or> m = m' \<and> d < d'" if "y = y'"
    using spans_less [of 1 m "d - 1" "month_days y" m' "d' - 1"] assms that by auto
  ultimately show ?thesis by auto
qed

section \<open>Text order is time order\<close>

lemma append_less_iff:
  "length xs = length ys \<Longrightarrow> xs @ us < ys @ vs \<longleftrightarrow> xs < ys \<or> xs = ys \<and> us < (vs :: 'a :: linorder list)"
  by (induction xs ys rule: list_induct2) auto

lemma digit_char_less: "a < 10 \<Longrightarrow> b < 10 \<Longrightarrow> digit_char a < digit_char b \<longleftrightarrow> a < b"
  by (simp add: less_char_def digit_char_props)

lemma digit_char_eq: "a < 10 \<Longrightarrow> b < 10 \<Longrightarrow> digit_char a = digit_char b \<longleftrightarrow> a = b"
  by (metis digit_char_props(3))

lemma length_pad [simp]: "length (pad k n) = k"
  by (induction k arbitrary: n) auto

lemma pad_digits: "list_all ascii_digit (pad k n)"
  by (induction k arbitrary: n) (auto simp: digit_char_props)

lemma pad_value: "n < 10 ^ k \<Longrightarrow> decimal_value (pad k n) = n"
proof (induction k arbitrary: n)
  case (Suc k)
  then have "n div 10 < 10 ^ k" by (simp add: less_mult_imp_div_less)
  with Suc show ?case by (simp add: digit_char_props)
qed (simp add: decimal_value_def)

lemma pad_inj: "n < 10 ^ k \<Longrightarrow> m < 10 ^ k \<Longrightarrow> pad k n = pad k m \<longleftrightarrow> n = m"
  by (metis pad_value)

lemma split_less: "0 < c \<Longrightarrow> n < m \<longleftrightarrow> n div c < m div c \<or> n div c = m div c \<and> n mod c < m mod (c :: nat)"
proof -
  assume c: "0 < c"
  have less: "a < b" if "a div c < b div c" for a b :: nat
  proof -
    have "Suc (a div c) * c \<le> b div c * c" using that by (intro mult_le_mono1) simp
    moreover have "a mod c < c" using c by simp
    ultimately show ?thesis using div_mult_mod_eq [of a c] div_mult_mod_eq [of b c] by (simp only: mult_Suc)
  qed
  show ?thesis
  proof (cases "n div c" "m div c" rule: linorder_cases)
    case equal
    have "n < m \<longleftrightarrow> n div c * c + n mod c < m div c * c + m mod c" by (simp only: div_mult_mod_eq)
    then have "n < m \<longleftrightarrow> n mod c < m mod c" by (simp only: equal add_less_cancel_left)
    with equal show ?thesis by simp
  qed (use less [of n m] less [of m n] in auto)
qed

lemma pad_less: "n < 10 ^ k \<Longrightarrow> m < 10 ^ k \<Longrightarrow> pad k n < pad k m \<longleftrightarrow> n < m"
proof (induction k arbitrary: n m)
  case (Suc k)
  then have d: "n div 10 < 10 ^ k" "m div 10 < 10 ^ k" by (simp_all add: less_mult_imp_div_less)
  show ?case
    unfolding split_less [of 10 n m, simplified]
    by (simp add: append_less_iff Suc.IH [OF d] pad_inj [OF d] digit_char_less)
qed simp

definition LAST_SECOND :: nat where
  "LAST_SECOND = days_before 9999 12 31 * 86400 + 86399"

lemma year_bound:
  assumes "civil days = (y, m, d)" and "days * 86400 \<le> LAST_SECOND"
  shows "y \<le> 9999"
proof (rule ccontr)
  assume "\<not> y \<le> 9999"
  note c = civil_sound [OF assms(1)]
  have "days_before 9999 12 31 < days_before y m d"
    using c \<open>\<not> y \<le> 9999\<close> by (subst days_before_less) (auto simp: month_days_def)
  with c assms(2) show False by (simp add: LAST_SECOND_def)
qed

text \<open>The fields of a time, all within the widths they are written with.\<close>

lemma iso_z_fields:
  assumes "t \<le> LAST_SECOND"
  obtains y m d s where "civil (t div 86400) = (y, m, d)" "s = t mod 86400"
    "y < 10 ^ 4" "m < 10 ^ 2" "d < 10 ^ 2" "s div 3600 < 24" "s div 60 mod 60 < 60" "s mod 60 < 60"
    "1970 \<le> y" "1 \<le> m" "m \<le> 12" "1 \<le> d" "d \<le> month_days y m" "t div 86400 = days_before y m d"
proof -
  obtain y m d where c: "civil (t div 86400) = (y, m, d)" by (metis prod_cases3)
  note cs = civil_sound [OF c]
  have "t div 86400 * 86400 \<le> LAST_SECOND" using assms by (meson div_times_less_eq_dividend order_trans)
  then have "y \<le> 9999" by (rule year_bound [OF c])
  moreover have "month_days y m \<le> 31" by (simp add: month_days_def)
  moreover have "t mod 86400 div 3600 < 24" by (simp add: less_mult_imp_div_less)
  ultimately show ?thesis using that [OF c refl] cs by simp
qed

lemma pad_append_less:
  "a < 10 ^ k \<Longrightarrow> b < 10 ^ k \<Longrightarrow> pad k a @ us < pad k b @ vs \<longleftrightarrow> a < b \<or> a = b \<and> us < vs"
  using pad_less [of a k b] pad_inj [of a k b] by (simp add: append_less_iff)

lemma clock_less:
  "s < s' \<longleftrightarrow> s div 3600 < s' div 3600 \<or> s div 3600 = s' div 3600 \<and>
     (s div 60 mod 60 < s' div 60 mod 60 \<or> s div 60 mod 60 = s' div 60 mod 60 \<and> s mod 60 < s' mod 60)"
  for s s' :: nat
proof -
  have h: "a div 3600 = a div 60 div 60" for a :: nat by (simp add: div_mult2_eq [symmetric])
  have "s div 60 = s' div 60 \<longleftrightarrow> s div 3600 = s' div 3600 \<and> s div 60 mod 60 = s' div 60 mod 60"
    unfolding h by (metis div_mult_mod_eq)
  moreover have "s div 60 < s' div 60 \<longleftrightarrow> s div 3600 < s' div 3600 \<or>
      s div 3600 = s' div 3600 \<and> s div 60 mod 60 < s' div 60 mod 60"
    unfolding h by (rule split_less) simp
  ultimately show ?thesis using split_less [of 60 s s'] by auto
qed

lemma iso_z_less_iff:
  assumes "t \<le> LAST_SECOND" "t' \<le> LAST_SECOND"
  shows "iso_z t < iso_z t' \<longleftrightarrow> t < t'"
proof -
  obtain y m d s where f: "civil (t div 86400) = (y, m, d)" "s = t mod 86400"
    "y < 10 ^ 4" "m < 10 ^ 2" "d < 10 ^ 2" "s div 3600 < 24" "s div 60 mod 60 < 60" "s mod 60 < 60"
    "1970 \<le> y" "1 \<le> m" "m \<le> 12" "1 \<le> d" "d \<le> month_days y m" "t div 86400 = days_before y m d"
    using iso_z_fields [OF assms(1)] by blast
  obtain y' m' d' s' where g: "civil (t' div 86400) = (y', m', d')" "s' = t' mod 86400"
    "y' < 10 ^ 4" "m' < 10 ^ 2" "d' < 10 ^ 2" "s' div 3600 < 24" "s' div 60 mod 60 < 60" "s' mod 60 < 60"
    "1970 \<le> y'" "1 \<le> m'" "m' \<le> 12" "1 \<le> d'" "d' \<le> month_days y' m'" "t' div 86400 = days_before y' m' d'"
    using iso_z_fields [OF assms(2)] by blast
  note q = pad_append_less [where k = 2, simplified]
  have "iso_z t < iso_z t' \<longleftrightarrow>
      y < y' \<or> y = y' \<and> (m < m' \<or> m = m' \<and> (d < d' \<or> d = d' \<and>
        (s div 3600 < s' div 3600 \<or> s div 3600 = s' div 3600 \<and>
          (s div 60 mod 60 < s' div 60 mod 60 \<or> s div 60 mod 60 = s' div 60 mod 60 \<and> s mod 60 < s' mod 60))))"
  proof -
    have "iso_z t = pad 4 y @ CHR ''-'' # pad 2 m @ CHR ''-'' # pad 2 d @ CHR ''T'' # pad 2 (s div 3600)
      @ CHR '':'' # pad 2 (s div 60 mod 60) @ CHR '':'' # pad 2 (s mod 60) @ ''Z''"
      by (simp only: iso_z_def f(1) f(2) Let_def prod.case)
    moreover have "iso_z t' = pad 4 y' @ CHR ''-'' # pad 2 m' @ CHR ''-'' # pad 2 d' @ CHR ''T'' # pad 2 (s' div 3600)
      @ CHR '':'' # pad 2 (s' div 60 mod 60) @ CHR '':'' # pad 2 (s' mod 60) @ ''Z''"
      by (simp only: iso_z_def g(1) g(2) Let_def prod.case)
    moreover have "m < 100" "d < 100" "s div 3600 < 100" "s div 60 mod 60 < 100" "s mod 60 < 100"
      "m' < 100" "d' < 100" "s' div 3600 < 100" "s' div 60 mod 60 < 100" "s' mod 60 < 100"
      using f(4-8) g(4-8) by simp_all
    ultimately show ?thesis by (simp only: pad_append_less [OF f(3) g(3)] q Cons_less_Cons less_irrefl simp_thms)
  qed
  also have "\<dots> \<longleftrightarrow> days_before y m d < days_before y' m' d' \<or> days_before y m d = days_before y' m' d' \<and> s < s'"
  proof -
    have eq: "days_before y m d = days_before y' m' d' \<longleftrightarrow> y = y' \<and> m = m' \<and> d = d'"
      using days_before_less [of y m d y' m' d'] days_before_less [of y' m' d' y m d] f g
      by (metis less_irrefl linorder_neqE_nat)
    have less: "days_before y m d < days_before y' m' d' \<longleftrightarrow> y < y' \<or> y = y' \<and> (m < m' \<or> m = m' \<and> d < d')"
      by (rule days_before_less; fact)
    show ?thesis unfolding eq clock_less [of s s'] less
      by (cases "y = y'"; cases "m = m'"; cases "d = d'"; simp only: simp_thms less_irrefl)
  qed
  also have "\<dots> \<longleftrightarrow> t < t'" using f g split_less [of 86400 t t'] by simp
  finally show ?thesis .
qed

lemma pad_nth: "i < k \<Longrightarrow> ascii_digit (pad k n ! i)"
  using pad_digits [of k n] by (simp add: list_all_length)

lemma iso_z_reads_back:
  assumes "t \<le> LAST_SECOND"
  shows "from_iso (iso_z t) = Inr t" and "length (iso_z t) = 20"
proof -
  obtain y m d s where f: "civil (t div 86400) = (y, m, d)" "s = t mod 86400"
    "y < 10 ^ 4" "m < 10 ^ 2" "d < 10 ^ 2" "s div 3600 < 24" "s div 60 mod 60 < 60" "s mod 60 < 60"
    "1970 \<le> y" "1 \<le> m" "m \<le> 12" "1 \<le> d" "d \<le> month_days y m" "t div 86400 = days_before y m d"
    using iso_z_fields [OF assms] by blast
  have tx: "iso_z t = pad 4 y @ CHR ''-'' # pad 2 m @ CHR ''-'' # pad 2 d @ CHR ''T'' # pad 2 (s div 3600)
      @ CHR '':'' # pad 2 (s div 60 mod 60) @ CHR '':'' # pad 2 (s mod 60) @ ''Z''"
    by (simp only: iso_z_def f(1) f(2) Let_def prod.case)
  have v: "decimal_value (pad 4 y) = y" "decimal_value (pad 2 m) = m" "decimal_value (pad 2 d) = d"
    "decimal_value (pad 2 (s div 3600)) = s div 3600"
    "decimal_value (pad 2 (s div 60 mod 60)) = s div 60 mod 60" "decimal_value (pad 2 (s mod 60)) = s mod 60"
    using f(3-8) by (simp_all add: pad_value)
  have n: "number_at 0 4 (iso_z t) = y" "number_at 5 2 (iso_z t) = m" "number_at 8 2 (iso_z t) = d"
    "number_at 11 2 (iso_z t) = s div 3600" "number_at 14 2 (iso_z t) = s div 60 mod 60"
    "number_at 17 2 (iso_z t) = s mod 60"
    unfolding tx number_at_def by (simp_all add: v)
  have shape: "iso_shape (iso_z t)"
    unfolding tx iso_shape_def by (simp add: nth_append nth_Cons' pad_nth)
  have sec: "s div 3600 * 3600 + s div 60 mod 60 * 60 + s mod 60 = s"
  proof -
    have join: "a * 3600 + b * 60 + c = (a * 60 + b) * 60 + c" for a b c :: nat by simp
    have "s div 3600 = s div 60 div 60" by (simp add: div_mult2_eq [symmetric])
    then show ?thesis by (simp only: join div_mult_mod_eq)
  qed
  have "days_before y m d * 86400 + s = t" using f(2) f(14) div_mult_mod_eq [of t 86400] by simp
  then show "from_iso (iso_z t) = Inr t"
    using f(6-13) shape sec by (simp add: from_iso_def n Let_def add.assoc)
  show "length (iso_z t) = 20" using shape by (simp add: iso_shape_def)
qed

text \<open>C37. A timestamp reads back: every second from 1970 to the end of 9999 is written as a text of
  twenty characters that \<^verbatim>\<open>fromisoformat\<close> turns into the same second, and texts compare as
  the times do, so that the database's text comparisons are comparisons of times.\<close>

theorem timestamp_roundtrip:
  assumes "t \<le> LAST_SECOND"
  shows "from_iso (iso_z t) = Inr t \<and> length (iso_z t) = 20 \<and>
    (if t' \<le> LAST_SECOND then iso_z t < iso_z t' \<longleftrightarrow> t < t' else True)"
  using iso_z_reads_back [OF assms] iso_z_less_iff [OF assms] by simp

lemma new_year_2026: "1767225600 \<le> LAST_SECOND"
proof -
  have "civil 20454 = (2026, 1, 1)" by code_simp
  then have "20454 < days_before 9999 12 31"
    using civil_sound [of 20454 2026 1 1] days_before_less [of 2026 1 1 9999 12 31]
    by (simp add: month_days_def)
  then show ?thesis by (simp add: LAST_SECOND_def)
qed

lemma timestamp_roundtrip_witness:
  "iso_z 1767225599 = ''2025-12-31T23:59:59Z'' \<and> from_iso (iso_z 1767225599) = Inr 1767225599 \<and>
   iso_z 1767225599 < iso_z 1767225600"
proof -
  have "iso_z 1767225599 = ''2025-12-31T23:59:59Z''" by code_simp
  with timestamp_roundtrip [of 1767225599 1767225600] new_year_2026 show ?thesis by simp
qed

end
