(* ===== verification/History.thy ===== *)
theory History
  imports Prelude "HOL-Library.Multiset"
begin

text \<open>
  The interface of the SQLite history tables (\<^verbatim>\<open>log_stats_history.py\<close>,
  \<^verbatim>\<open>threat_stats_history.py\<close>, \<^verbatim>\<open>host_metrics_history.py\<close>): one row per poll, rows older
  than a cutoff deleted after each insert. A table is abstracted to the multiset of its rows; the
  ISO 8601 texts of the times are compared as text, as SQLite compares them. Each module
  interprets the interface on its own rows.
\<close>

locale history_table =
  fixes row_time :: "'r \<Rightarrow> string"
    and insert_row :: "'r \<Rightarrow> 'r list \<Rightarrow> 'r list"
    and prune :: "string \<Rightarrow> 'r list \<Rightarrow> 'r list"
  assumes mset_insert_row: "mset (insert_row r t) = add_mset r (mset t)"
    and mset_prune: "mset (prune c t) = filter_mset (\<lambda>r. \<not> row_time r < c) (mset t)"
begin

text \<open>After polls whose cutoffs never go back, the table holds exactly the rows, old and new, that
  the last cutoff keeps.\<close>

lemma retained:
  assumes "sorted (map snd polls)" and "polls \<noteq> []"
  shows "mset (fold (\<lambda>(r, c) t. prune c (insert_row r t)) polls t) =
    filter_mset (\<lambda>r. \<not> row_time r < snd (last polls)) (mset t + mset (map fst polls))"
  using assms
proof (induction polls arbitrary: t)
  case (Cons p polls)
  obtain r c where p: "p = (r, c)" by (cases p)
  show ?case
  proof (cases "polls = []")
    case True
    with p show ?thesis by (simp add: mset_prune mset_insert_row)
  next
    case False
    with Cons.prems p have le: "c \<le> snd (last polls)" by simp
    let ?k = "\<lambda>r. \<not> row_time r < snd (last polls)"
    have f: "filter_mset ?k (filter_mset (\<lambda>r. \<not> row_time r < c) M) = filter_mset ?k M" for M
      using le by (induction M) auto
    from Cons False p show ?thesis
      by (simp add: mset_prune mset_insert_row f [of "add_mset r (mset t)", simplified])
  qed
qed simp

end

text \<open>A table that also serves its newest row.\<close>

locale latest_table = history_table +
  fixes latest :: "'r list \<Rightarrow> 'r option"
  assumes latest_None: "latest t = None \<longleftrightarrow> t = []"
    and latest_in: "latest t = Some r \<Longrightarrow> r \<in> set t"
    and latest_max: "latest t = Some r \<Longrightarrow> x \<in> set t \<Longrightarrow> row_time x \<le> row_time r"
begin

lemma mem_polled: "x \<in> set (prune c (insert_row r t)) \<longleftrightarrow> (x = r \<or> x \<in> set t) \<and> \<not> row_time x < c"
proof -
  have "x \<in># mset (prune c (insert_row r t)) \<longleftrightarrow> (x = r \<or> x \<in> set t) \<and> \<not> row_time x < c"
    by (auto simp: mset_prune mset_insert_row)
  then show ?thesis by simp
qed

text \<open>A poll that is not older than the rows before it is the one served next.\<close>

lemma latest_after_poll:
  assumes "\<not> row_time r < c" and "\<And>x. x \<in> set t \<Longrightarrow> row_time x \<le> row_time r"
  shows "\<exists>x. latest (prune c (insert_row r t)) = Some x \<and> row_time x = row_time r"
proof -
  let ?t = "prune c (insert_row r t)"
  have mem: "r \<in> set ?t" using assms(1) by (simp add: mem_polled)
  then obtain x where x: "latest ?t = Some x" using latest_None by (cases "latest ?t") auto
  have "row_time x \<le> row_time r" using latest_in [OF x] assms(2) by (auto simp: mem_polled)
  with latest_max [OF x mem] x show ?thesis by auto
qed

lemma latest_is_poll:
  assumes "\<not> row_time r < c" and "\<And>x. x \<in> set t \<Longrightarrow> row_time x < row_time r"
  shows "latest (prune c (insert_row r t)) = Some r"
proof -
  have le: "row_time x \<le> row_time r" if "x \<in> set t" for x
    using assms(2) [OF that] by simp
  obtain x where x: "latest (prune c (insert_row r t)) = Some x" "row_time x = row_time r"
    using latest_after_poll [of r c t, OF assms(1) le] by blast
  moreover have "x = r \<or> x \<in> set t" using latest_in [OF x(1)] by (simp add: mem_polled)
  ultimately show ?thesis using assms(2) [of x] by auto
qed

end

text \<open>\<^verbatim>\<open>ORDER BY collected_at DESC LIMIT 1\<close>: among equal times the first written row.\<close>

definition newest_row :: "('r \<Rightarrow> string) \<Rightarrow> 'r list \<Rightarrow> 'r option" where
  "newest_row time rows =
     (case rows of
        [] \<Rightarrow> None
      | r # rs \<Rightarrow> Some (foldl (\<lambda>best x. if time best < time x then x else best) r rs))"

lemma newest_fold:
  "let b = foldl (\<lambda>best x. if time best < time x then x else best) r rs in
     b \<in> set (r # rs) \<and> (\<forall>x \<in> set (r # rs). (time x :: string) \<le> time b)"
proof (induction rs arbitrary: r)
  case (Cons y ys)
  from Cons.IH [of r] Cons.IH [of y] show ?case
    by (auto simp: Let_def intro: order_trans)
qed simp

lemma newest_row_laws:
  "newest_row time t = None \<longleftrightarrow> t = []"
  "newest_row time t = Some r \<Longrightarrow> r \<in> set t"
  "newest_row time t = Some r \<Longrightarrow> x \<in> set t \<Longrightarrow> time x \<le> time r"
  using newest_fold [of time] by (auto simp: newest_row_def Let_def split: list.splits)

end
