(* ===== verification/HostMetrics.thy ===== *)
theory HostMetrics
  imports UtcTime History AppLogger Sessions
begin

text \<open>
  \<^verbatim>\<open>app/host_metrics_cache.py\<close>, \<^verbatim>\<open>app/host_metrics_history.py\<close> and the chart that
  \<^verbatim>\<open>api_host_metrics\<close> of \<^verbatim>\<open>app/routes/admin_routes.py\<close> draws from them. One reading of
  psutil is an argument, \<open>None\<close> when it raises; clock readings are seconds since 1970, of
  which the first one of a poll dates the row and a later one prunes the table. Percentages are
  exact rationals.
\<close>

section \<open>The history table\<close>

record host_row =
  hr_at :: string
  hr_cpu :: rat
  hr_mem :: rat
  hr_disk :: rat

definition write_snapshot :: "rat \<Rightarrow> rat \<Rightarrow> rat \<Rightarrow> string \<Rightarrow> host_row list \<Rightarrow> host_row list" where
  "write_snapshot cpu mem disk collected rows =
     rows @ [\<lparr>hr_at = collected, hr_cpu = cpu, hr_mem = mem, hr_disk = disk\<rparr>]"

definition get_history :: "string \<Rightarrow> host_row list \<Rightarrow> host_row list" where
  "get_history since rows = sort_key hr_at (filter (\<lambda>r. since \<le> hr_at r) rows)"

definition RETENTION :: nat where "RETENTION = 30 * 86400"

definition prune_before :: "string \<Rightarrow> host_row list \<Rightarrow> host_row list" where
  "prune_before cutoff rows = filter (\<lambda>r. \<not> hr_at r < cutoff) rows"

definition prune_old_rows :: "nat \<Rightarrow> host_row list \<Rightarrow> host_row list" where
  "prune_old_rows t rows = prune_before (iso_z (t - RETENTION)) rows"

definition put_snapshot :: "host_row \<Rightarrow> host_row list \<Rightarrow> host_row list" where
  "put_snapshot r rows = write_snapshot (hr_cpu r) (hr_mem r) (hr_disk r) (hr_at r) rows"

interpretation host_rows: history_table hr_at put_snapshot prune_before
  by unfold_locales (simp_all add: put_snapshot_def write_snapshot_def prune_before_def mset_filter)

section \<open>The poll\<close>

record host_world =
  ho_rows :: "host_row list"
  ho_log :: logger

record host_poll =
  hp_time :: nat
  hp_pruned :: nat
  hp_reading :: "(rat \<times> rat \<times> rat) option"
  hp_stamp :: string
  hp_error :: string

definition poll_host_metrics :: "host_poll \<Rightarrow> host_world \<Rightarrow> host_world" where
  "poll_host_metrics p w =
     (case hp_reading p of
        None \<Rightarrow>
          w\<lparr>ho_log := app_log (hp_stamp p) ''WARN'' ''host_metrics_cache''
                       (''psutil read failed: '' @ hp_error p) [] (ho_log w)\<rparr>
      | Some (cpu, mem, disk) \<Rightarrow>
          w\<lparr>ho_rows := prune_old_rows (hp_pruned p)
                        (write_snapshot cpu mem disk (iso_z (hp_time p)) (ho_rows w))\<rparr>)"

section \<open>The chart\<close>

definition RANGES :: "(string, nat) dict" where
  "RANGES =
     [(''1h'', 3600), (''4h'', 4 * 3600), (''12h'', 12 * 3600), (''1d'', 86400), (''7d'', 7 * 86400),
      (''14d'', 14 * 86400)]"

definition DEFAULT_RANGE :: string where "DEFAULT_RANGE = ''1h''"

definition MAX_POINTS :: nat where "MAX_POINTS = 150"

definition downsample_rows :: "nat \<Rightarrow> 'a list \<Rightarrow> 'a list" where
  "downsample_rows max_points rows =
     (let n = length rows in
      if n \<le> max_points then rows
      else
        (let step = of_nat n / of_nat max_points :: rat in
         map (\<lambda>i. rows ! nat \<lfloor>of_nat i * step\<rfloor>) [0..<max_points]))"

record chart =
  ch_cpu :: "(nat \<times> rat) list"
  ch_mem :: "(nat \<times> rat) list"
  ch_disk :: "(nat \<times> rat) list"

fun draw_rows :: "host_row list \<Rightarrow> chart result" where
  "draw_rows [] = Inr \<lparr>ch_cpu = [], ch_mem = [], ch_disk = []\<rparr>"
| "draw_rows (r # rs) =
     bind_result (from_iso (hr_at r)) (\<lambda>ts. bind_result (draw_rows rs) (\<lambda>c.
       Inr \<lparr>ch_cpu = (ts, hr_cpu r) # ch_cpu c, ch_mem = (ts, hr_mem r) # ch_mem c,
            ch_disk = (ts, hr_disk r) # ch_disk c\<rparr>))"

definition range_seconds :: "string \<Rightarrow> nat" where
  "range_seconds range_key =
     (case map_of RANGES range_key of Some n \<Rightarrow> n | None \<Rightarrow> the (map_of RANGES DEFAULT_RANGE))"

definition host_chart :: "string \<Rightarrow> nat \<Rightarrow> host_world \<Rightarrow> chart result" where
  "host_chart range_key t w =
     draw_rows (downsample_rows MAX_POINTS (get_history (iso_z (t - range_seconds range_key)) (ho_rows w)))"

definition api_host_metrics ::
  "env \<Rightarrow> string option \<Rightarrow> nat \<Rightarrow> host_world \<Rightarrow> session \<Rightarrow> chart api_response result \<times> session" where
  "api_host_metrics e arg t w s =
     (case admin_required e ''/admin/api/host-metrics'' s of
        (Inl err, s') \<Rightarrow> (Inl err, s')
      | (Inr (Some r), s') \<Rightarrow> (Inr (Guarded r), s')
      | (Inr None, s') \<Rightarrow>
          (bind_result (host_chart (or_default DEFAULT_RANGE arg) t w) (\<lambda>c. Inr (ApiOk c)), s'))"

section \<open>Down-sampling\<close>

lemma downsample_index:
  assumes "i < k" and "0 < k"
  shows "nat \<lfloor>of_nat i * (of_nat n / of_nat k :: rat)\<rfloor> < n \<or> n = 0"
proof (cases "n = 0")
  case False
  then have "of_nat i * (of_nat n / of_nat k :: rat) < of_nat k * (of_nat n / of_nat k)"
    using assms by (intro mult_strict_right_mono) auto
  also have "\<dots> = of_nat n" using assms by simp
  finally have "\<lfloor>of_nat i * (of_nat n / of_nat k :: rat)\<rfloor> < int n" by (simp add: floor_less_iff)
  then show ?thesis using False by linarith
qed simp

text \<open>Thinning the chart keeps its shape: the result is the rows at strictly increasing positions,
  all of them when there are at most the maximum and exactly the maximum otherwise, the first row
  always among them, so no row is repeated or moved.\<close>

theorem downsample_subsequence:
  assumes "0 < max_points"
  shows "\<exists>idx. downsample_rows max_points rows = map ((!) rows) idx \<and> sorted_wrt (<) idx \<and>
    list_all (\<lambda>i. i < length rows) idx \<and> length idx = min max_points (length rows) \<and>
    (if rows = [] then True else hd idx = 0)"
proof (cases "length rows \<le> max_points")
  case True
  then show ?thesis
    by (intro exI [of _ "[0..<length rows]"])
      (auto simp: downsample_rows_def map_nth list_all_iff hd_upt)
next
  case False
  define step where "step = (of_nat (length rows) / of_nat max_points :: rat)"
  define f where "f i = nat \<lfloor>of_nat i * step\<rfloor>" for i :: nat
  have step: "1 \<le> step" using False assms by (simp add: step_def)
  have mono: "f i < f j" if "i < j" for i j
  proof -
    have "of_nat i * step + 1 \<le> of_nat (Suc i) * step" using step by (simp add: algebra_simps)
    also have "\<dots> \<le> of_nat j * step" using that step by (intro mult_right_mono) (simp_all add: Suc_le_eq [symmetric])
    finally have "\<lfloor>of_nat i * step\<rfloor> + 1 \<le> \<lfloor>of_nat j * step\<rfloor>" by (metis floor_mono floor_add_int of_int_1)
    moreover have "0 \<le> \<lfloor>of_nat i * step\<rfloor>" using step by simp
    ultimately show ?thesis unfolding f_def by linarith
  qed
  have bound: "f i < length rows" if "i < max_points" for i
    using downsample_index [OF that assms, of "length rows"] False unfolding f_def step_def by auto
  have "downsample_rows max_points rows = map ((!) rows) (map f [0..<max_points])"
    using False by (simp add: downsample_rows_def Let_def f_def step_def)
  moreover have "sorted_wrt (<) (map f [0..<max_points])"
    using mono by (simp add: sorted_wrt_map sorted_wrt_upt) (metis (mono_tags, lifting) sorted_wrt_mono_rel sorted_wrt_upt)
  moreover have "hd (map f [0..<max_points]) = 0" using assms by (simp add: hd_map hd_upt f_def)
  ultimately show ?thesis
    using bound False by (intro exI [of _ "map f [0..<max_points]"]) (auto simp: list_all_iff)
qed

lemma downsample_subsequence_witness:
  "\<exists>idx. downsample_rows 2 [10, 20, 30, 40, 50 :: nat] = map ((!) [10, 20, 30, 40, 50]) idx \<and>
     sorted_wrt (<) idx \<and> length idx = 2 \<and> hd idx = 0"
  using downsample_subsequence [of 2 "[10, 20, 30, 40, 50 :: nat]"] by auto

section \<open>What the chart shows\<close>

definition row_of :: "nat \<Rightarrow> rat \<times> rat \<times> rat \<Rightarrow> host_row" where
  "row_of t v = \<lparr>hr_at = iso_z t, hr_cpu = fst v, hr_mem = fst (snd v), hr_disk = snd (snd v)\<rparr>"

text \<open>The readings of a sequence of polls.\<close>

definition samples :: "host_poll list \<Rightarrow> (nat \<times> rat \<times> rat \<times> rat) list" where
  "samples polls = List.map_filter (\<lambda>p. map_option (Pair (hp_time p)) (hp_reading p)) polls"

lemma samples_Nil [simp]: "samples [] = []"
  by (simp add: samples_def map_filter_simps)

lemma samples_Cons:
  "samples (p # ps) = (case hp_reading p of None \<Rightarrow> samples ps | Some v \<Rightarrow> (hp_time p, v) # samples ps)"
  by (simp add: samples_def map_filter_simps split: option.split)

lemma samples_times: "(t, v) \<in> set (samples ps) \<Longrightarrow> \<exists>p \<in> set ps. t = hp_time p"
  by (induction ps) (auto simp: samples_Cons split: option.splits)

lemma samples_sorted: "sorted (map hp_time ps) \<Longrightarrow> sorted (map fst (samples ps))"
proof (induction ps)
  case (Cons p ps)
  then have "\<forall>x \<in> fst ` set (samples ps). hp_time p \<le> x" using samples_times by fastforce
  with Cons show ?case by (auto simp: samples_Cons split: option.split)
qed simp

lemma poll_rows:
  "ho_rows (poll_host_metrics p w) =
     (case hp_reading p of
        None \<Rightarrow> ho_rows w
      | Some v \<Rightarrow> prune_old_rows (hp_pruned p) (ho_rows w @ [row_of (hp_time p) v]))"
  by (simp add: poll_host_metrics_def write_snapshot_def row_of_def split: option.split prod.split)

text \<open>Pruning never touches a row the chart can still show.\<close>

lemma window_kept:
  assumes "list_all (\<lambda>p. hp_pruned p \<le> t) ps" and "t \<le> LAST_SECOND" and "back \<le> RETENTION"
  shows "filter (\<lambda>r. iso_z (t - back) \<le> hr_at r) (ho_rows (fold poll_host_metrics ps w)) =
    filter (\<lambda>r. iso_z (t - back) \<le> hr_at r) (ho_rows w @ map (\<lambda>(a, v). row_of a v) (samples ps))"
  using assms(1)
proof (induction ps arbitrary: w)
  case (Cons p ps)
  let ?in = "\<lambda>r. iso_z (t - back) \<le> hr_at r"
  have "hp_pruned p \<le> t" using Cons.prems by simp
  with assms(3) have "hp_pruned p - RETENTION \<le> t - back" by linarith
  then have "\<not> iso_z (t - back) < iso_z (hp_pruned p - RETENTION)"
    using assms(2) Cons.prems by (subst iso_z_less_iff) auto
  then have keep: "filter ?in (prune_old_rows (hp_pruned p) rows) = filter ?in rows" for rows
    unfolding prune_old_rows_def prune_before_def filter_filter
    by (intro filter_cong) auto
  from Cons show ?case by (auto simp: poll_rows samples_Cons keep split: option.split)
qed simp

lemma range_seconds_bound: "range_seconds k \<le> RETENTION"
proof -
  have "range_seconds k \<in> {3600, 4 * 3600, 12 * 3600, 86400, 7 * 86400, 14 * 86400}"
    unfolding range_seconds_def RANGES_def DEFAULT_RANGE_def by simp
  then show ?thesis by (auto simp: RETENTION_def)
qed

definition chart_of :: "(nat \<times> rat \<times> rat \<times> rat) list \<Rightarrow> chart" where
  "chart_of xs =
     \<lparr>ch_cpu = map (\<lambda>(t, v). (t, fst v)) xs, ch_mem = map (\<lambda>(t, v). (t, fst (snd v))) xs,
      ch_disk = map (\<lambda>(t, v). (t, snd (snd v))) xs\<rparr>"

lemma draw_rows_of:
  "list_all (\<lambda>x. fst x \<le> LAST_SECOND) xs \<Longrightarrow> draw_rows (map (\<lambda>(t, v). row_of t v) xs) = Inr (chart_of xs)"
  by (induction xs) (auto simp: chart_of_def row_of_def iso_z_reads_back)

lemma downsample_map: "downsample_rows k (map f xs) = map f (downsample_rows k xs)"
proof (cases "length xs \<le> k")
  case False
  have "nat \<lfloor>of_nat i * (of_nat (length xs) / of_nat k :: rat)\<rfloor> < length xs" if "i < k" for i
    using downsample_index [of i k "length xs"] that False by auto
  with False show ?thesis by (simp add: downsample_rows_def Let_def)
qed (simp add: downsample_rows_def)

lemma set_downsample: "set (downsample_rows k xs) \<subseteq> set xs"
proof (cases "length xs \<le> k")
  case False
  have "nat \<lfloor>of_nat i * (of_nat (length xs) / of_nat k :: rat)\<rfloor> < length xs" if "i < k" for i
    using downsample_index [of i k "length xs"] that False by auto
  with False show ?thesis by (auto simp: downsample_rows_def Let_def)
qed (simp add: downsample_rows_def)

text \<open>C26. The host chart shows the truth: after any polls in order of time, from an empty table, the
  chart of a range is, thinned to 150 points, exactly the successful readings of that range, each
  at the second it was taken and in order of time; pruning, failed readings and the text form of
  the times in the database leave no trace, and drawing never fails.\<close>

theorem host_chart_exact:
  assumes "sorted (map hp_time polls)"
    and "list_all (\<lambda>p. hp_time p \<le> hp_pruned p \<and> hp_pruned p \<le> t) polls" and "t \<le> LAST_SECOND"
  shows "host_chart key t (fold poll_host_metrics polls \<lparr>ho_rows = [], ho_log = lg\<rparr>) =
    Inr (chart_of (downsample_rows MAX_POINTS
          (filter (\<lambda>x. t - range_seconds key \<le> fst x) (samples polls))))"
proof -
  let ?rows = "ho_rows (fold poll_host_metrics polls \<lparr>ho_rows = [], ho_log = lg\<rparr>)"
  let ?since = "iso_z (t - range_seconds key)"
  let ?xs = "filter (\<lambda>x. t - range_seconds key \<le> fst x) (samples polls)"
  have times: "fst x \<le> LAST_SECOND" if "x \<in> set (samples polls)" for x
    using samples_times [of "fst x" "snd x" polls] that assms(2,3) by (fastforce simp: list_all_iff)
  have le: "iso_z a \<le> iso_z b \<longleftrightarrow> a \<le> b" if "a \<le> LAST_SECOND" "b \<le> LAST_SECOND" for a b
    using iso_z_less_iff [OF that(2,1)] by (simp add: linorder_not_less [symmetric])
  have "list_all (\<lambda>p. hp_pruned p \<le> t) polls" using assms(2) by (simp add: list_all_iff)
  from window_kept [OF this assms(3) range_seconds_bound]
  have "filter (\<lambda>r. ?since \<le> hr_at r) ?rows =
      filter (\<lambda>r. ?since \<le> hr_at r) (map (\<lambda>(a, v). row_of a v) (samples polls))"
    by simp
  also have "\<dots> = map (\<lambda>(a, v). row_of a v) ?xs"
    unfolding filter_map using times assms(3)
    by (intro arg_cong [of _ _ "map (\<lambda>(a, v). row_of a v)"] filter_cong) (auto simp: row_of_def le)
  finally have win: "filter (\<lambda>r. ?since \<le> hr_at r) ?rows = map (\<lambda>(a, v). row_of a v) ?xs" .
  have "sorted (map fst ?xs)" using samples_sorted [OF assms(1)] by (simp add: sorted_wrt_filter sorted_map)
  then have "sorted (map hr_at (map (\<lambda>(a, v). row_of a v) ?xs))"
    unfolding sorted_map sorted_wrt_map using times
    by (elim sorted_wrt_mono_rel [rotated]) (auto simp: row_of_def le)
  then have hist: "get_history ?since ?rows = map (\<lambda>(a, v). row_of a v) ?xs"
    unfolding get_history_def win by (rule sort_key_id_if_sorted)
  have "list_all (\<lambda>x. fst x \<le> LAST_SECOND) (downsample_rows MAX_POINTS ?xs)"
    using times set_downsample [of MAX_POINTS ?xs] by (auto simp: list_all_iff)
  then show ?thesis
    unfolding host_chart_def hist downsample_map by (rule draw_rows_of)
qed

definition sample_polls :: "host_poll list" where
  "sample_polls =
     [\<lparr>hp_time = 1767210000, hp_pruned = 1767210001, hp_reading = Some (10, 20, 30), hp_stamp = [], hp_error = []\<rparr>,
      \<lparr>hp_time = 1767223000, hp_pruned = 1767223000, hp_reading = None, hp_stamp = [], hp_error = ''x''\<rparr>,
      \<lparr>hp_time = 1767225000, hp_pruned = 1767225001, hp_reading = Some (15 / 2, 40, 30), hp_stamp = [], hp_error = []\<rparr>]"

lemma host_chart_exact_witness:
  "host_chart ''1h'' 1767225600 (fold poll_host_metrics sample_polls \<lparr>ho_rows = [], ho_log = init_logger\<rparr>) =
     Inr \<lparr>ch_cpu = [(1767225000, 15 / 2)], ch_mem = [(1767225000, 40)], ch_disk = [(1767225000, 30)]\<rparr>"
proof -
  have s: "samples sample_polls = [(1767210000, 10, 20, 30), (1767225000, 15 / 2, 40, 30)]"
    by (simp add: sample_polls_def samples_Cons)
  have "range_seconds ''1h'' = 3600" by (simp add: range_seconds_def RANGES_def)
  then show ?thesis
    by (subst host_chart_exact)
      (simp_all add: s new_year_2026 downsample_rows_def MAX_POINTS_def chart_of_def, simp_all add: sample_polls_def)
qed

end
