(* ===== verification/AdminRoutes.thy ===== *)
theory AdminRoutes
  imports FazTargets ApiTokens AppSettings HostMetrics Registry
begin

text \<open>
  \<^verbatim>\<open>app/routes/admin_routes.py\<close>: the administrator's API. Every request is a constructor,
  every handler a definition over the files, the log and the metrics table, and \<open>admin_api\<close>
  puts the administrator check in front. A body's field that is absent is \<open>None\<close>; a field of
  another JSON type than the page sends is outside the model. Random identifiers, the SHA-256
  function and the texts of exceptions are arguments.
\<close>

record admin_world =
  aw_users :: users_file
  aw_groups :: groups_file
  aw_targets :: targets_file
  aw_tokens :: tokens_file
  aw_settings :: settings_file
  aw_log :: logger
  aw_rows :: "host_row list"

record admin_io =
  ai_stamp :: string
  ai_exc_text :: "py_error \<Rightarrow> string"
  ai_sha :: "string \<Rightarrow> string"
  ai_hex :: string
  ai_uuid :: string
  ai_seconds :: nat
  ai_registry :: registry

record group_body =
  gb_name :: "string option"
  gb_members :: "string list option"
  gb_ad_groups :: "string list option"
  gb_tabs :: "string list option"
  gb_restrict :: "json option"
  gb_adoms :: "string list option"

record target_body =
  tb_label :: "string option"
  tb_host :: "string option"
  tb_adom :: "string option"
  tb_token :: "string option"
  tb_snmp :: "(snmp_field, string) dict"
  tb_poll :: "json option"

text \<open>A target without its token.\<close>

record masked_target =
  mt_label :: "string option"
  mt_host :: "string option"
  mt_adom :: "string option"
  mt_poll :: "bool option"
  mt_snmp :: "(snmp_field, string) dict"
  mt_token_set :: bool

definition mask_target :: "target \<Rightarrow> masked_target" where
  "mask_target t =
     \<lparr>mt_label = label t, mt_host = host t, mt_adom = adom t, mt_poll = threat_poll_enabled t,
      mt_snmp = snmp t, mt_token_set = (or_default [] (token t) \<noteq> [])\<rparr>"

datatype admin_reply =
    Groups "group_dict list"
  | Group "group_dict option" nat
  | Targets "masked_target list"
  | Target "masked_target option" nat
  | Users "(string \<times> string) list"
  | Tabs "(string \<times> string) list"
  | Logs string "string list" nat "log_entry list"
  | Level string
  | Cleared
  | Page
  | Metrics chart
  | Settings json
  | Tokens "token_info list"
  | NewToken token_info string nat
  | Deleted string

type_synonym admin_answer = "admin_reply api_response result \<times> admin_world"

definition admin_log ::
  "admin_io \<Rightarrow> string \<Rightarrow> string \<Rightarrow> (string, string) dict \<Rightarrow> admin_world \<Rightarrow> admin_world" where
  "admin_log io user message extra w =
     w\<lparr>aw_log := app_log (ai_stamp io) ''INFO'' ''admin'' message ([(''by'', user)] @ extra) (aw_log w)\<rparr>"

definition refused :: "string \<Rightarrow> nat \<Rightarrow> admin_world \<Rightarrow> admin_answer" where
  "refused message status w = (Inr (ApiError message status), w)"

definition quoted :: "string \<Rightarrow> string" where
  "quoted s = [CHR 0x27] @ s @ [CHR 0x27]"

text \<open>The page itself is a template; the access is logged.\<close>

definition admin_page :: "admin_io \<Rightarrow> string \<Rightarrow> admin_world \<Rightarrow> admin_answer" where
  "admin_page io user w =
     (Inr (ApiOk Page),
      w\<lparr>aw_log := app_log (ai_stamp io) ''DEBUG'' ''admin'' ''Admin page accessed'' [(''username'', user)]
                    (aw_log w)\<rparr>)"

section \<open>Groups\<close>

definition groups_list :: "admin_world \<Rightarrow> admin_answer" where
  "groups_list w = (bind_result (list_groups (aw_groups w)) (\<lambda>gs. Inr (ApiOk (Groups gs))), w)"

definition group_reply :: "string \<Rightarrow> nat \<Rightarrow> admin_world \<Rightarrow> admin_answer" where
  "group_reply n status w = (bind_result (get_group n (aw_groups w)) (\<lambda>g. Inr (ApiOk (Group g status))), w)"

text \<open>\<^verbatim>\<open>JSONDecodeError\<close> is a \<^verbatim>\<open>ValueError\<close>, so an unreadable file is answered with 400 here.\<close>

definition groups_create :: "admin_io \<Rightarrow> string \<Rightarrow> group_body \<Rightarrow> admin_world \<Rightarrow> admin_answer" where
  "groups_create io user b w =
     (let n = strip (or_default [] (gb_name b)) in
      if n = [] then refused ''name is required'' 400 w
      else
        (case create_group n (Some (or_default [] (gb_members b))) (Some (or_default [] (gb_ad_groups b)))
                (Some (or_default [] (gb_tabs b))) (truthy (or_default (JBool False) (gb_restrict b)))
                (Some (or_default [] (gb_adoms b))) (aw_groups w) of
           Inl (ValueError m) \<Rightarrow> refused (ai_exc_text io (ValueError m)) 400 w
         | Inl JSONDecodeError \<Rightarrow> refused (ai_exc_text io JSONDecodeError) 400 w
         | Inl err \<Rightarrow> (Inl err, w)
         | Inr (False, _) \<Rightarrow> refused (''Group '' @ quoted n @ '' already exists'') 409 w
         | Inr (True, f) \<Rightarrow>
             group_reply n 201 (admin_log io user ''Group created'' [(''group'', n)] (w\<lparr>aw_groups := f\<rparr>))))"

definition groups_update :: "admin_io \<Rightarrow> string list \<Rightarrow> string \<Rightarrow> string \<Rightarrow> group_body \<Rightarrow> admin_world \<Rightarrow> admin_answer"
  where
  "groups_update io known user n b w =
     (case get_group n (aw_groups w) of
        Inl err \<Rightarrow> (Inl err, w)
      | Inr None \<Rightarrow> refused (''Group '' @ quoted n @ '' not found'') 404 w
      | Inr (Some g) \<Rightarrow>
          (case update_group known n (or_default (members g) (gb_members b))
                  (or_default (allowed_tabs g) (gb_tabs b))
                  (truthy (or_default (JBool (adom_restrict g)) (gb_restrict b)))
                  (Some (or_default (allowed_adoms g) (gb_adoms b)))
                  (Some (or_default (ad_groups g) (gb_ad_groups b))) (aw_groups w) of
             Inl err \<Rightarrow> (Inl err, w)
           | Inr (False, _) \<Rightarrow> refused (''Group '' @ quoted n @ '' not found'') 404 w
           | Inr (True, f) \<Rightarrow>
               group_reply n 200 (admin_log io user ''Group updated'' [(''group'', n)] (w\<lparr>aw_groups := f\<rparr>))))"

definition groups_delete :: "admin_io \<Rightarrow> string \<Rightarrow> string \<Rightarrow> admin_world \<Rightarrow> admin_answer" where
  "groups_delete io user n w =
     (case delete_group n (aw_groups w) of
        Inl err \<Rightarrow> (Inl err, w)
      | Inr (False, _) \<Rightarrow> refused (''Group '' @ quoted n @ '' not found'') 404 w
      | Inr (True, f) \<Rightarrow>
          (Inr (ApiOk (Deleted n)), admin_log io user ''Group deleted'' [(''group'', n)] (w\<lparr>aw_groups := f\<rparr>)))"

section \<open>FortiAnalyzer targets\<close>

definition targets_list :: "admin_world \<Rightarrow> admin_answer" where
  "targets_list w = (Inr (ApiOk (Targets (map mask_target (list_targets (aw_targets w))))), w)"

definition target_reply :: "string \<Rightarrow> nat \<Rightarrow> admin_world \<Rightarrow> admin_answer" where
  "target_reply l status w =
     (Inr (ApiOk (Target (map_option mask_target (get_target l (aw_targets w))) status)), w)"

definition snmp_overrides :: "target_body \<Rightarrow> (snmp_field, string) dict" where
  "snmp_overrides b =
     concat (map (\<lambda>k. let v = dict_get (tb_snmp b) k [] in if v = [] then [] else [(k, v)]) SNMP_FIELDS)"

definition targets_create :: "admin_io \<Rightarrow> string \<Rightarrow> target_body \<Rightarrow> admin_world \<Rightarrow> admin_answer" where
  "targets_create io user b w =
     (let l = strip (or_default [] (tb_label b)) in
      if l = [] then refused ''label is required'' 400 w
      else
        (case create_target l (or_default [] (tb_host b)) (or_default ''root'' (tb_adom b))
                (or_default [] (tb_token b)) (Some (snmp_overrides b))
                (truthy (or_default (JBool True) (tb_poll b))) (aw_targets w) of
           Inl err \<Rightarrow> (Inl err, w)
         | Inr (False, _) \<Rightarrow> refused (''Target '' @ quoted l @ '' already exists'') 409 w
         | Inr (True, f) \<Rightarrow>
             target_reply l 201
               (admin_log io user ''FAZ target created'' [(''target'', l)] (w\<lparr>aw_targets := f\<rparr>))))"

definition targets_update :: "admin_io \<Rightarrow> string \<Rightarrow> string \<Rightarrow> target_body \<Rightarrow> admin_world \<Rightarrow> admin_answer" where
  "targets_update io user l b w =
     (case update_target l (or_default [] (tb_host b)) (or_default ''root'' (tb_adom b))
             (or_default [] (tb_token b)) (Some (snmp_overrides b))
             (truthy (or_default (JBool True) (tb_poll b))) (aw_targets w) of
        (False, _) \<Rightarrow> refused (''Target '' @ quoted l @ '' not found'') 404 w
      | (True, f) \<Rightarrow>
          target_reply l 200
            (admin_log io user ''FAZ target updated'' [(''target'', l)] (w\<lparr>aw_targets := f\<rparr>)))"

definition targets_delete :: "admin_io \<Rightarrow> string \<Rightarrow> string \<Rightarrow> admin_world \<Rightarrow> admin_answer" where
  "targets_delete io user l w =
     (case delete_target l (aw_targets w) of
        (False, _) \<Rightarrow> refused (''Target '' @ quoted l @ '' not found'') 404 w
      | (True, f) \<Rightarrow>
          (Inr (ApiOk (Deleted l)),
           admin_log io user ''FAZ target deleted'' [(''target'', l)] (w\<lparr>aw_targets := f\<rparr>)))"

section \<open>Users, tabs and logs\<close>

definition users_list :: "admin_world \<Rightarrow> admin_answer" where
  "users_list w = (bind_result (list_users (aw_users w)) (\<lambda>us. Inr (ApiOk (Users us))), w)"

definition tabs_list :: "admin_io \<Rightarrow> admin_world \<Rightarrow> admin_answer" where
  "tabs_list io w =
     (Inr (ApiOk (Tabs (filter (\<lambda>(k, _). k \<noteq> ''admin'') (registry_tabs (ai_registry io))))), w)"

definition logs_get :: "string option \<Rightarrow> string option \<Rightarrow> string option \<Rightarrow> admin_world \<Rightarrow> admin_answer" where
  "logs_get level component limit_arg w =
     (let some = (\<lambda>x. if or_default [] x = [] then None else x);
          n = (case limit_arg of None \<Rightarrow> 500 | Some s \<Rightarrow> or_default 500 (py_int s));
          entries = get_log_entries (some level) (some component) n (aw_log w)
      in (Inr (ApiOk (Logs (current_level (aw_log w)) LEVELS (length entries) entries)), w))"

definition logs_set_level :: "admin_io \<Rightarrow> string \<Rightarrow> string option \<Rightarrow> admin_world \<Rightarrow> admin_answer" where
  "logs_set_level io user arg w =
     (let level = upper (or_default [] arg) in
      case set_log_level level (aw_log w) of
        Inl (ValueError m) \<Rightarrow> refused (ai_exc_text io (ValueError m)) 400 w
      | Inl err \<Rightarrow> (Inl err, w)
      | Inr lg \<Rightarrow>
          (let w' = admin_log io user ''Log level changed'' [(''new_level'', level)] (w\<lparr>aw_log := lg\<rparr>)
           in (Inr (ApiOk (Level (current_level (aw_log w')))), w')))"

definition logs_clear :: "admin_io \<Rightarrow> string \<Rightarrow> admin_world \<Rightarrow> admin_answer" where
  "logs_clear io user w =
     (Inr (ApiOk Cleared),
      admin_log io user ''Log buffer cleared'' [] (w\<lparr>aw_log := clear_log_entries (aw_log w)\<rparr>))"

definition host_metrics :: "admin_io \<Rightarrow> string option \<Rightarrow> admin_world \<Rightarrow> admin_answer" where
  "host_metrics io arg w =
     (bind_result (host_chart (or_default DEFAULT_RANGE arg) (ai_seconds io)
         \<lparr>ho_rows = aw_rows w, ho_log = aw_log w\<rparr>) (\<lambda>c. Inr (ApiOk (Metrics c))), w)"

section \<open>Settings and API tokens\<close>

definition settings_get :: "admin_world \<Rightarrow> admin_answer" where
  "settings_get w =
     (Inr (ApiOk (Settings (get_setting ''external_api_enabled'' (JBool False) (aw_settings w)))), w)"

definition settings_update :: "admin_io \<Rightarrow> string \<Rightarrow> json option \<Rightarrow> admin_world \<Rightarrow> admin_answer" where
  "settings_update io user v w =
     (let w' = (case v of
                  None \<Rightarrow> w
                | Some x \<Rightarrow>
                    w\<lparr>aw_settings := set_setting ''external_api_enabled'' (JBool (truthy x)) (aw_settings w)\<rparr>)
      in (Inr (ApiOk (Settings (or_default JNull v))), admin_log io user ''Settings updated'' [] w'))"

definition tokens_list :: "admin_world \<Rightarrow> admin_answer" where
  "tokens_list w = (Inr (ApiOk (Tokens (list_tokens (aw_tokens w)))), w)"

definition tokens_create :: "admin_io \<Rightarrow> string \<Rightarrow> string option \<Rightarrow> admin_world \<Rightarrow> admin_answer" where
  "tokens_create io user arg w =
     (let n = strip (or_default [] arg) in
      if n = [] then refused ''name is required'' 400 w
      else
        (case create_token (ai_sha io) (ai_hex io) (ai_uuid io) n (aw_tokens w) of
           ((raw, rcd), f) \<Rightarrow>
             (Inr (ApiOk (NewToken rcd raw 201)),
              admin_log io user ''API token created'' [(''token_name'', n)] (w\<lparr>aw_tokens := f\<rparr>))))"

definition tokens_revoke :: "admin_io \<Rightarrow> string \<Rightarrow> string \<Rightarrow> admin_world \<Rightarrow> admin_answer" where
  "tokens_revoke io user i w =
     (case revoke_token i (aw_tokens w) of
        (False, _) \<Rightarrow> refused (''Token '' @ quoted i @ '' not found'') 404 w
      | (True, f) \<Rightarrow>
          (Inr (ApiOk (Deleted i)),
           admin_log io user ''API token revoked'' [(''token_id'', i)] (w\<lparr>aw_tokens := f\<rparr>)))"

section \<open>The guarded API\<close>

datatype admin_request =
    AdminPage
  | GroupsList
  | GroupsCreate group_body
  | GroupsUpdate string group_body
  | GroupsDelete string
  | TargetsList
  | TargetsCreate target_body
  | TargetsUpdate string target_body
  | TargetsDelete string
  | UsersList
  | TabsList
  | LogsGet "string option" "string option" "string option"
  | LogsSetLevel "string option"
  | LogsClear
  | HostMetricsGet "string option"
  | SettingsGet
  | SettingsUpdate "json option"
  | TokensList
  | TokensCreate "string option"
  | TokensRevoke string

fun admin_handler :: "admin_io \<Rightarrow> string list \<Rightarrow> string \<Rightarrow> admin_request \<Rightarrow> admin_world \<Rightarrow> admin_answer" where
  "admin_handler io known user AdminPage w = admin_page io user w"
| "admin_handler io known user GroupsList w = groups_list w"
| "admin_handler io known user (GroupsCreate b) w = groups_create io user b w"
| "admin_handler io known user (GroupsUpdate n b) w = groups_update io known user n b w"
| "admin_handler io known user (GroupsDelete n) w = groups_delete io user n w"
| "admin_handler io known user TargetsList w = targets_list w"
| "admin_handler io known user (TargetsCreate b) w = targets_create io user b w"
| "admin_handler io known user (TargetsUpdate l b) w = targets_update io user l b w"
| "admin_handler io known user (TargetsDelete l) w = targets_delete io user l w"
| "admin_handler io known user UsersList w = users_list w"
| "admin_handler io known user TabsList w = tabs_list io w"
| "admin_handler io known user (LogsGet level component n) w = logs_get level component n w"
| "admin_handler io known user (LogsSetLevel l) w = logs_set_level io user l w"
| "admin_handler io known user LogsClear w = logs_clear io user w"
| "admin_handler io known user (HostMetricsGet r) w = host_metrics io r w"
| "admin_handler io known user SettingsGet w = settings_get w"
| "admin_handler io known user (SettingsUpdate v) w = settings_update io user v w"
| "admin_handler io known user TokensList w = tokens_list w"
| "admin_handler io known user (TokensCreate n) w = tokens_create io user n w"
| "admin_handler io known user (TokensRevoke i) w = tokens_revoke io user i w"

text \<open>The check reads the same files the handlers write.\<close>

definition env_of :: "env \<Rightarrow> admin_world \<Rightarrow> env" where
  "env_of e w = e\<lparr>users_json := aw_users w, groups_json := aw_groups w\<rparr>"

definition admin_api ::
  "admin_io \<Rightarrow> env \<Rightarrow> string \<Rightarrow> admin_request \<Rightarrow> session \<Rightarrow> admin_world
   \<Rightarrow> admin_reply api_response result \<times> session \<times> admin_world" where
  "admin_api io e path req s w =
     (case admin_required (env_of e w) path s of
        (Inl err, s') \<Rightarrow> (Inl err, s', w)
      | (Inr (Some r), s') \<Rightarrow> (Inr (Guarded r), s', w)
      | (Inr None, s') \<Rightarrow>
          (case admin_handler io (known_tabs e) (or_default [] (s_user s')) req w of
             (r, w') \<Rightarrow> (r, s', w')))"

section \<open>Only administrators\<close>

lemma admin_api_cases:
  obtains (raised) err s' where "admin_required (env_of e w) path s = (Inl err, s')"
      "admin_api io e path req s w = (Inl err, s', w)"
  | (denied) r s' where "admin_required (env_of e w) path s = (Inr (Some r), s')"
      "admin_api io e path req s w = (Inr (Guarded r), s', w)"
  | (passed) s' where "admin_required (env_of e w) path s = (Inr None, s')"
      "admin_api io e path req s w =
         (fst (admin_handler io (known_tabs e) (or_default [] (s_user s')) req w), s',
          snd (admin_handler io (known_tabs e) (or_default [] (s_user s')) req w))"
proof -
  obtain g s' where g: "admin_required (env_of e w) path s = (g, s')" by (metis surj_pair)
  show thesis
  proof (cases g)
    case (Inl err)
    with g raised show ?thesis by (simp add: admin_api_def)
  next
    case (Inr x)
    with g denied passed show ?thesis
      by (cases x) (simp_all add: admin_api_def split: prod.split)
  qed
qed

text \<open>C4. Only administrators get through, in either direction: a request on the administrator's API that
  is answered with data, or that leaves any file, the log or the metrics table changed, came in a
  live session with a user whose role, as just refreshed, is \<^verbatim>\<open>admin\<close>; for a session of a
  local login this means that the account file lists that user as an administrator now.\<close>

theorem admin_api_needs_admin:
  "case admin_api io e path req s w of
     (r, s', w') \<Rightarrow>
       if w' = w \<and> (case r of Inr (ApiOk _) \<Rightarrow> False | _ \<Rightarrow> True) then True
       else session_live (env_of e w) s \<and> s_role s' = Some ''admin'' \<and>
         (if s_auth_source s = Some ''local'' \<and> or_default [] (s_user s) \<noteq> []
          then \<exists>users entry. load_users (aw_users w) = Inr users \<and>
                 map_of users (or_default [] (s_user s)) = Some entry \<and> entry_role entry = ''admin''
          else True)"
proof (cases rule: admin_api_cases [of e w path s io req])
  case (passed s')
  have p: "s_user s \<noteq> None" "revalidate_session (env_of e w) path s = (Inr None, s')"
    "s_role s' = Some ''admin''"
    using passed(1) by (simp_all add: guard_passes)
  have live: "session_live (env_of e w) s"
    using p(2) revalidate_not_live [of "env_of e w" s path] by auto
  have "\<exists>users entry. load_users (aw_users w) = Inr users \<and>
      map_of users (or_default [] (s_user s)) = Some entry \<and> entry_role entry = ''admin''"
    if loc: "s_auth_source s = Some ''local''" "or_default [] (s_user s) \<noteq> []"
  proof -
    have "refresh_user (env_of e w) path (or_default [] (s_user s)) s = (Inr None, s')"
      using p(2) revalidate_live [OF live, of path] loc(2) by simp
    from refresh_user_passes [OF this] loc p(3) show ?thesis
      by (auto simp: env_of_def split: option.splits)
  qed
  with live p(3) show ?thesis by (simp add: passed(2))
qed simp_all

section \<open>Stored tokens stay in the file\<close>

definition same_but_token :: "target \<Rightarrow> target \<Rightarrow> bool" where
  "same_but_token t u \<longleftrightarrow>
     t\<lparr>token := None\<rparr> = u\<lparr>token := None\<rparr> \<and> (or_default [] (token t) = [] \<longleftrightarrow> or_default [] (token u) = [])"

definition same_targets :: "targets_file \<Rightarrow> targets_file \<Rightarrow> bool" where
  "same_targets f g \<longleftrightarrow> list_all2 same_but_token (load_targets f) (load_targets g)"

lemma same_but_token_fields:
  assumes "same_but_token t u"
  shows "label t = label u \<and> mask_target t = mask_target u \<and> snmp t = snmp u \<and>
    threat_poll_enabled t = threat_poll_enabled u"
proof -
  have "t\<lparr>token := None\<rparr> = u\<lparr>token := None\<rparr>" using assms by (simp add: same_but_token_def)
  then have "label t = label u" "host t = host u" "adom t = adom u" "snmp t = snmp u"
    "threat_poll_enabled t = threat_poll_enabled u"
    by (metis target.select_convs target.surjective target.update_convs(4))+
  with assms show ?thesis by (simp add: mask_target_def same_but_token_def)
qed

lemma same_targets_masked: "same_targets f g \<Longrightarrow> map mask_target (list_targets f) = map mask_target (list_targets g)"
  unfolding same_targets_def list_targets_def
  by (induction rule: list_all2_induct) (auto dest: same_but_token_fields)

lemma same_find:
  "list_all2 same_but_token ts us \<Longrightarrow>
     map_option mask_target (find (\<lambda>t. label t = Some l) ts) =
     map_option mask_target (find (\<lambda>t. label t = Some l) us)"
  by (induction rule: list_all2_induct) (auto dest: same_but_token_fields)

lemma same_labels: "list_all2 same_but_token ts us \<Longrightarrow> map label ts = map label us"
  by (induction rule: list_all2_induct) (auto dest: same_but_token_fields)

lemma same_refl: "same_but_token t t"
  by (simp add: same_but_token_def)

lemma load_Content_append: "load_targets (Content (load_targets f @ [build_entry l h a tok ov p])) =
    load_targets f @ [build_entry l h a tok ov p]"
  using loaded_setdefault [of f] by (simp add: load_targets_def [of "Content _"])

lemma list_ex_label: "list_ex (\<lambda>t. label t = Some x) ts \<longleftrightarrow> Some x \<in> set (map label ts)"
  by (simp add: list_ex_iff image_iff) metis

lemma same_create:
  assumes "same_targets f g"
  shows "(case (create_target l h a tok ov p f, create_target l h a tok ov p g) of
     (Inl x, Inl y) \<Rightarrow> x = y
   | (Inr (b, f'), Inr (c, g')) \<Rightarrow> b = c \<and> same_targets f' g'
   | _ \<Rightarrow> False)"
proof -
  have l: "map label (load_targets f) = map label (load_targets g)"
    using assms same_labels by (simp add: same_targets_def)
  have "list_ex (\<lambda>t. label t = Some x) (load_targets f) = list_ex (\<lambda>t. label t = Some x) (load_targets g)" for x
    by (simp only: list_ex_label l)
  with assms show ?thesis
    by (auto simp: create_target_def Let_def same_targets_def load_Content_append same_refl
        intro!: list_all2_appendI)
qed

lemma same_createE:
  assumes "same_targets f g"
  obtains (error) x where "create_target l h a tok ov p f = Inl x" "create_target l h a tok ov p g = Inl x"
  | (answer) b f' g' where "create_target l h a tok ov p f = Inr (b, f')"
      "create_target l h a tok ov p g = Inr (b, g')" "same_targets f' g'"
proof (cases "create_target l h a tok ov p f")
  case (Inl x)
  with same_create [OF assms, of l h a tok ov p] error show thesis by (auto split: sum.splits)
next
  case (Inr r)
  then obtain b f' where f: "create_target l h a tok ov p f = Inr (b, f')" by (cases r) simp
  with same_create [OF assms, of l h a tok ov p]
  obtain g' where "create_target l h a tok ov p g = Inr (b, g')" "same_targets f' g'"
    by (cases "create_target l h a tok ov p g") auto
  with f answer show thesis by blast
qed

lemma same_updated:
  assumes "same_but_token t u"
  shows "same_but_token (updated_entry l h a tok ov p t) (updated_entry l h a tok ov p u)"
proof -
  have "merged_overrides t ov = merged_overrides u ov"
    using same_but_token_fields [OF assms] by (simp add: merged_overrides_def)
  with assms show ?thesis
    by (auto simp: same_but_token_def updated_entry_def build_entry_def or_default_def split: option.splits)
qed

lemma same_replace:
  assumes "list_all2 same_but_token ts us"
  shows "(case (replace_first l (updated_entry l h a tok ov p) ts, replace_first l (updated_entry l h a tok ov p) us) of
     (None, None) \<Rightarrow> True
   | (Some ts', Some us') \<Rightarrow> list_all2 same_but_token ts' us'
   | _ \<Rightarrow> False)"
  using assms
proof (induction rule: list_all2_induct)
  case (Cons t ts u us)
  then have "label t = label u" by (auto dest: same_but_token_fields)
  with Cons same_updated [OF Cons(1)] show ?case by (auto split: option.splits)
qed simp

lemma same_update:
  assumes "same_targets f g"
  shows "fst (update_target l h a tok ov p f) = fst (update_target l h a tok ov p g) \<and>
    same_targets (snd (update_target l h a tok ov p f)) (snd (update_target l h a tok ov p g))"
proof -
  let ?u = "updated_entry l h a tok ov p"
  have load: "load_targets (Content us) = us" if "replace_first l ?u (load_targets f') = Some us" for f' us
    using replace_first_setdefault [OF _ that loaded_setdefault] by (simp add: load_targets_def [of "Content _"])
  show ?thesis
    using same_replace [OF assms [unfolded same_targets_def], of l h a tok ov p] assms load
    by (auto simp: update_target_def same_targets_def split: option.splits)
qed

lemma same_filter:
  "list_all2 same_but_token ts us \<Longrightarrow>
     list_all2 same_but_token (filter (\<lambda>t. label t \<noteq> Some l) ts) (filter (\<lambda>t. label t \<noteq> Some l) us)"
  by (induction rule: list_all2_induct) (auto dest: same_but_token_fields)

lemma load_Content_filter: "load_targets (Content (filter P (load_targets f))) = filter P (load_targets f)"
proof -
  have "map setdefault_poll (filter P ts) = filter P ts" if "map setdefault_poll ts = ts" for ts
    using that by (induction ts) auto
  then show ?thesis using loaded_setdefault [of f] by (simp add: load_targets_def [of "Content _"])
qed

lemma same_delete:
  assumes "same_targets f g"
  shows "fst (delete_target l f) = fst (delete_target l g) \<and>
    same_targets (snd (delete_target l f)) (snd (delete_target l g))"
proof -
  have fl: "list_all2 same_but_token (filter (\<lambda>t. label t \<noteq> Some l) (load_targets f))
      (filter (\<lambda>t. label t \<noteq> Some l) (load_targets g))"
    using assms same_filter by (simp add: same_targets_def)
  have "length (load_targets f) = length (load_targets g)"
    using assms by (simp add: same_targets_def list_all2_lengthD)
  with list_all2_lengthD [OF fl] fl assms show ?thesis
    by (simp add: delete_target_def Let_def same_targets_def load_Content_filter)
qed

text \<open>Two worlds that differ only in the values of stored FortiAnalyzer tokens.\<close>

definition same_world :: "admin_world \<Rightarrow> admin_world \<Rightarrow> bool" where
  "same_world w v \<longleftrightarrow> (\<exists>f. v = w\<lparr>aw_targets := f\<rparr> \<and> same_targets (aw_targets w) f)"

lemma same_world_files:
  "same_targets f g \<Longrightarrow> same_world (w\<lparr>aw_targets := f\<rparr>) (w\<lparr>aw_targets := g\<rparr>)"
  "same_targets f g \<Longrightarrow> same_world (w\<lparr>aw_targets := f, aw_log := lg\<rparr>) (w\<lparr>aw_targets := g, aw_log := lg\<rparr>)"
  unfolding same_world_def
  by (rule exI [of _ g], simp, rule exI [of _ g], cases w, simp)

text \<open>Handlers that do not touch the target file.\<close>

fun targets_request :: "admin_request \<Rightarrow> bool" where
  "targets_request TargetsList = True"
| "targets_request (TargetsCreate _) = True"
| "targets_request (TargetsUpdate _ _) = True"
| "targets_request (TargetsDelete _) = True"
| "targets_request _ = False"

lemmas admin_handler_defs = refused_def admin_log_def admin_page_def groups_list_def group_reply_def groups_create_def
  groups_update_def groups_delete_def users_list_def tabs_list_def logs_get_def logs_set_level_def
  logs_clear_def host_metrics_def settings_get_def settings_update_def tokens_list_def tokens_create_def
  tokens_revoke_def

lemma handler_ignores_targets:
  assumes "\<not> targets_request req"
  shows "admin_handler io known user req (w\<lparr>aw_targets := f\<rparr>) =
    (fst (admin_handler io known user req w), (snd (admin_handler io known user req w))\<lparr>aw_targets := f\<rparr>) \<and>
    aw_targets (snd (admin_handler io known user req w)) = aw_targets w"
  using assms
  by (cases req)
    (simp_all add: admin_handler_defs Let_def split: sum.split option.split prod.split py_error.split bool.split)

text \<open>The four requests on the targets, on two worlds that differ in the token values.\<close>

lemma find_masked_same:
  "same_targets g g' \<Longrightarrow> map_option mask_target (get_target l g) = map_option mask_target (get_target l g')"
  using same_find by (simp add: get_target_def same_targets_def)

lemma targets_create_same:
  assumes s: "same_targets (aw_targets w) f"
  shows "fst (targets_create io user b w) = fst (targets_create io user b (w\<lparr>aw_targets := f\<rparr>)) \<and>
    same_world (snd (targets_create io user b w)) (snd (targets_create io user b (w\<lparr>aw_targets := f\<rparr>)))"
proof (cases "strip (or_default [] (tb_label b)) = []")
  case True
  with s show ?thesis by (auto simp: targets_create_def refused_def same_world_def)
next
  case False
  let ?c = "create_target (strip (or_default [] (tb_label b))) (or_default [] (tb_host b))
    (or_default ''root'' (tb_adom b)) (or_default [] (tb_token b)) (Some (snmp_overrides b))
    (truthy (or_default (JBool True) (tb_poll b)))"
  note d = targets_create_def refused_def target_reply_def admin_log_def Let_def
  have w: "same_world w (w\<lparr>aw_targets := f\<rparr>)" using s by (auto simp: same_world_def)
  consider (error) x where "?c (aw_targets w) = Inl x" "?c f = Inl x"
    | (answer) ok f1 g1 where "?c (aw_targets w) = Inr (ok, f1)" "?c f = Inr (ok, g1)" "same_targets f1 g1"
    using same_createE [OF s] by metis
  then show ?thesis
  proof cases
    case error
    with False w show ?thesis by (auto simp: d split: py_error.split)
  next
    case answer
    with False w find_masked_same [OF answer(3)] show ?thesis
      by (cases ok) (simp_all add: d same_world_files)
  qed
qed

lemma targets_update_same:
  assumes s: "same_targets (aw_targets w) f"
  shows "fst (targets_update io user l b w) = fst (targets_update io user l b (w\<lparr>aw_targets := f\<rparr>)) \<and>
    same_world (snd (targets_update io user l b w)) (snd (targets_update io user l b (w\<lparr>aw_targets := f\<rparr>)))"
proof -
  let ?c = "update_target l (or_default [] (tb_host b)) (or_default ''root'' (tb_adom b))
    (or_default [] (tb_token b)) (Some (snmp_overrides b)) (truthy (or_default (JBool True) (tb_poll b)))"
  obtain ok f1 where f1: "?c (aw_targets w) = (ok, f1)" by (metis surj_pair)
  obtain ok' g1 where g1: "?c f = (ok', g1)" by (metis surj_pair)
  have "ok' = ok" "same_targets f1 g1"
    using same_update [OF s, of l "or_default [] (tb_host b)" "or_default ''root'' (tb_adom b)"
      "or_default [] (tb_token b)" "Some (snmp_overrides b)" "truthy (or_default (JBool True) (tb_poll b))"]
    by (simp_all add: f1 g1)
  moreover have "same_world w (w\<lparr>aw_targets := f\<rparr>)" using s by (auto simp: same_world_def)
  ultimately show ?thesis
    using f1 g1 find_masked_same [OF \<open>same_targets f1 g1\<close>]
    by (cases ok)
      (simp_all add: targets_update_def refused_def target_reply_def admin_log_def Let_def same_world_files)
qed

lemma targets_delete_same:
  assumes s: "same_targets (aw_targets w) f"
  shows "fst (targets_delete io user l w) = fst (targets_delete io user l (w\<lparr>aw_targets := f\<rparr>)) \<and>
    same_world (snd (targets_delete io user l w)) (snd (targets_delete io user l (w\<lparr>aw_targets := f\<rparr>)))"
proof -
  obtain ok f1 where f1: "delete_target l (aw_targets w) = (ok, f1)" by (metis surj_pair)
  obtain ok' g1 where g1: "delete_target l f = (ok', g1)" by (metis surj_pair)
  have "ok' = ok" "same_targets f1 g1" using same_delete [OF s, of l] by (simp_all add: f1 g1)
  moreover have "same_world w (w\<lparr>aw_targets := f\<rparr>)" using s by (auto simp: same_world_def)
  ultimately show ?thesis
    using f1 g1 by (cases ok) (simp_all add: targets_delete_def refused_def admin_log_def Let_def same_world_files)
qed

lemma handler_same:
  assumes "same_world w v"
  shows "fst (admin_handler io known user req w) = fst (admin_handler io known user req v) \<and>
    same_world (snd (admin_handler io known user req w)) (snd (admin_handler io known user req v))"
proof -
  obtain f where v: "v = w\<lparr>aw_targets := f\<rparr>" and s: "same_targets (aw_targets w) f"
    using assms by (auto simp: same_world_def)
  show ?thesis
  proof (cases "targets_request req")
    case False
    from handler_ignores_targets [OF this, of io known user f w] s show ?thesis
      by (auto simp: v same_world_def)
  next
    case True
    have "fst (targets_list w) = fst (targets_list v) \<and> same_world (snd (targets_list w)) (snd (targets_list v))"
      using s same_targets_masked by (auto simp: v targets_list_def same_world_def)
    with True targets_create_same [OF s] targets_update_same [OF s] targets_delete_same [OF s] show ?thesis
      by (cases req) (simp_all add: v)
  qed
qed

text \<open>One request of a client, with the session it comes in.\<close>

type_synonym admin_visit = "admin_io \<times> env \<times> string \<times> admin_request \<times> session"

fun run_admin :: "admin_visit list \<Rightarrow> admin_world \<Rightarrow> admin_reply api_response result list \<times> admin_world" where
  "run_admin [] w = ([], w)"
| "run_admin ((io, e, path, req, s) # vs) w =
     (case admin_api io e path req s w of
        (r, _, w') \<Rightarrow> (case run_admin vs w' of (rs, w'') \<Rightarrow> (r # rs, w'')))"

lemma admin_api_same:
  assumes "same_world w v"
  shows "fst (admin_api io e path req s w) = fst (admin_api io e path req s v) \<and>
    same_world (snd (snd (admin_api io e path req s w))) (snd (snd (admin_api io e path req s v)))"
proof -
  have e: "env_of e v = env_of e w" using assms by (auto simp: same_world_def env_of_def)
  show ?thesis
  proof (cases rule: admin_api_cases [of e w path s io req])
    case (passed s')
    let ?h = "admin_handler io (known_tabs e) (or_default [] (s_user s')) req"
    have "admin_api io e path req s v = (fst (?h v), s', snd (?h v))"
      using passed(1) by (simp add: admin_api_def e split: prod.split)
    with passed(2) handler_same [OF assms] show ?thesis by simp
  qed (use assms in \<open>simp_all add: admin_api_def e\<close>)
qed

text \<open>C18. Stored appliance tokens never leave the server: two installations that differ only in the
  values of their FortiAnalyzer tokens (not in which targets have one) answer every sequence of
  administrator requests, listings, updates and failures included, with exactly the same replies,
  and go on differing in the token values only.\<close>

theorem stored_tokens_not_disclosed:
  assumes "same_world w v"
  shows "fst (run_admin visits w) = fst (run_admin visits v) \<and>
    same_world (snd (run_admin visits w)) (snd (run_admin visits v))"
  using assms
proof (induction visits arbitrary: w v)
  case (Cons x visits)
  obtain io e path req s where x: "x = (io, e, path, req, s)" by (cases x)
  obtain r s1 b where w: "admin_api io e path req s w = (r, s1, b)" by (metis surj_pair)
  obtain r' s2 b' where v: "admin_api io e path req s v = (r', s2, b')" by (metis surj_pair)
  have "r' = r" "same_world b b'"
    using admin_api_same [OF Cons.prems, of io e path req s] by (simp_all add: w v)
  with Cons.IH [of b b'] show ?case by (simp add: x w v split_beta)
qed simp

text \<open>An administrator lists the targets, gives one a new host, an empty token (which keeps the stored
  one) and a new ADOM, and tries to create it again.\<close>

definition admin_env :: env where
  "admin_env =
     \<lparr>now = 1000, checker = None, absolute_lifetime = 600, users_json = Absent, groups_json = Absent,
      known_tabs = [''dashboard'', ''admin'']\<rparr>"

definition admin_session :: session where
  "admin_session =
     empty_session\<lparr>s_user := Some ''root'', s_role := Some ''admin'', s_ad_groups := Some [],
       s_auth_source := Some ''sso'', s_login_at := Some 900\<rparr>"

definition world_with_token :: "string \<Rightarrow> admin_world" where
  "world_with_token tok =
     \<lparr>aw_users = Content [], aw_groups = Absent,
      aw_targets = Content [build_entry ''dc1'' ''10.0.0.1'' ''root'' tok None True],
      aw_tokens = Absent, aw_settings = Absent, aw_log = init_logger, aw_rows = []\<rparr>"

definition admin_visits :: "admin_visit list" where
  "admin_visits =
     (let io = \<lparr>ai_stamp = ''t'', ai_exc_text = (\<lambda>_. ''error''), ai_sha = (\<lambda>x. x), ai_hex = ''ab'', ai_uuid = ''u'',
                ai_seconds = 0, ai_registry = []\<rparr>;
          b = \<lparr>tb_label = Some ''dc1'', tb_host = Some ''10.0.0.2'', tb_adom = Some ''emea'', tb_token = Some [],
               tb_snmp = [], tb_poll = None\<rparr>;
          visit = (\<lambda>req. (io, admin_env, ''/admin/api/targets'', req, admin_session))
      in [visit TargetsList, visit (TargetsUpdate ''dc1'' b), visit (TargetsCreate b)])"

lemma stored_tokens_not_disclosed_witness:
  "fst (run_admin admin_visits (world_with_token ''secret'')) =
     fst (run_admin admin_visits (world_with_token ''other'')) \<and>
   map token (load_targets (aw_targets (snd (run_admin admin_visits (world_with_token ''secret''))))) =
     [Some ''secret''] \<and>
   fst (run_admin admin_visits (world_with_token ''other'')) =
     (let t = \<lambda>h a. \<lparr>mt_label = Some ''dc1'', mt_host = Some h, mt_adom = Some a, mt_poll = Some True,
                      mt_snmp = [], mt_token_set = True\<rparr>
      in [Inr (ApiOk (Targets [t ''10.0.0.1'' ''root''])),
          Inr (ApiOk (Target (Some (t ''10.0.0.2'' ''emea'')) 200)),
          Inr (ApiError (''Target '' @ quoted ''dc1'' @ '' already exists'') 409)])"
proof -
  have "same_world (world_with_token ''secret'') (world_with_token ''other'')"
    by (simp add: same_world_def world_with_token_def same_targets_def load_targets_def same_but_token_def
        build_entry_def setdefault_poll_def)
  from stored_tokens_not_disclosed [OF this, of admin_visits]
  have "fst (run_admin admin_visits (world_with_token ''secret'')) =
     fst (run_admin admin_visits (world_with_token ''other''))" ..
  moreover have "map token (load_targets (aw_targets (snd (run_admin admin_visits (world_with_token ''secret''))))) =
     [Some ''secret'']"
    by code_simp
  moreover have "fst (run_admin admin_visits (world_with_token ''other'')) =
     (let t = \<lambda>h a. \<lparr>mt_label = Some ''dc1'', mt_host = Some h, mt_adom = Some a, mt_poll = Some True,
                      mt_snmp = [], mt_token_set = True\<rparr>
      in [Inr (ApiOk (Targets [t ''10.0.0.1'' ''root''])),
          Inr (ApiOk (Target (Some (t ''10.0.0.2'' ''emea'')) 200)),
          Inr (ApiError (''Target '' @ quoted ''dc1'' @ '' already exists'') 409)])"
    by code_simp
  ultimately show ?thesis by blast
qed

end
