(* ===== verification/LogUsage.thy ===== *)
theory LogUsage
  imports FazClient FazTargets ApiTokens AppSettings
begin

text \<open>
  \<^verbatim>\<open>app/routes/external_api_routes.py\<close>, the gate of the external API and
  \<^verbatim>\<open>POST /external/api/log-usage\<close>: validating the request, resolving device names on the
  appliances of the ADOM, one search per device under a deadline, and the aggregated answer.
  \<^verbatim>\<open>str(x)\<close> of a JSON value and of an exception, SHA-256, and the clock are arguments; the
  clock of the request is a function of the number of its readings. The iteration order of the
  Python set of remaining names, which only orders the error messages, is the sorted one.
\<close>

section \<open>The gate\<close>

datatype gate_response = GateOpen | Disabled503 | Unauthorized401

definition feature_enabled :: "settings_file \<Rightarrow> bool" where
  "feature_enabled f = truthy (get_setting ''external_api_enabled'' (JBool False) f)"

definition api_authenticate ::
  "(string \<Rightarrow> string) \<Rightarrow> string \<Rightarrow> tokens_file \<Rightarrow> token_info option" where
  "api_authenticate sha header f =
     (if startswith ''bearer '' (lower header) then validate_token sha (strip (drop 7 header)) f else None)"

definition gate :: "(string \<Rightarrow> string) \<Rightarrow> settings_file \<Rightarrow> tokens_file \<Rightarrow> string \<Rightarrow> gate_response" where
  "gate sha sf tf header =
     (if \<not> feature_enabled sf then Disabled503
      else if api_authenticate sha header tf = None then Unauthorized401
      else GateOpen)"

section \<open>The request\<close>

record usage_request =
  ur_adom :: string
  ur_devices :: "string list"
  ur_policyid :: int
  ur_days :: int

fun nonblank_strings :: "json list \<Rightarrow> string list option" where
  "nonblank_strings [] = Some []"
| "nonblank_strings (JStr s # xs) =
     (if strip s = [] then None else map_option ((#) s) (nonblank_strings xs))"
| "nonblank_strings (_ # xs) = None"

definition dedupe_names :: "string list \<Rightarrow> string list" where
  "dedupe_names ds =
     dict_values (foldl (\<lambda>d x. dict_setdefault (lower (strip x)) (strip x) d) [] ds)"

definition validate_log_usage_request ::
  "(json \<Rightarrow> string) \<Rightarrow> (string, json) dict \<Rightarrow> string + usage_request" where
  "validate_log_usage_request str_of data =
     (let a = strip (str_of (json_or (dict_get data ''adom'' JNull) (JStr []))) in
      if a = [] then Inl ''adom is required''
      else
        (case (case dict_get data ''devices'' JNull of
                 JList (x # xs) \<Rightarrow> nonblank_strings (x # xs) | _ \<Rightarrow> None) of
           None \<Rightarrow> Inl ''devices must be a non-empty list of strings''
         | Some devices \<Rightarrow>
             (case dict_get data ''policyid'' JNull of
                JInt policyid \<Rightarrow>
                  if policyid \<le> 0 then Inl ''policyid must be a positive integer''
                  else
                    (case dict_get data ''days'' JNull of
                       JInt days \<Rightarrow>
                         if 1 \<le> days \<and> days \<le> 60
                         then Inr \<lparr>ur_adom = a, ur_devices = dedupe_names devices,
                                   ur_policyid = policyid, ur_days = days\<rparr>
                         else Inl ''days must be an integer between 1 and 60''
                     | _ \<Rightarrow> Inl ''days must be an integer between 1 and 60'')
              | _ \<Rightarrow> Inl ''policyid must be a positive integer'')))"

definition match_targets_for_adom :: "string \<Rightarrow> targets_file \<Rightarrow> target list" where
  "match_targets_for_adom a f =
     filter (\<lambda>t. lower (or_default [] (adom t)) = lower a) (list_targets f)"

section \<open>Resolving names and searching a device\<close>

text \<open>The devices with a name and an identifier, by lower-case name; the last one wins.\<close>

fun names_to_ids :: "device list \<Rightarrow> (string, json) dict \<Rightarrow> (string, json) dict reply" where
  "names_to_ids [] d = Inr d"
| "names_to_ids (x # xs) d =
     (if truthy (dev_name x) \<and> truthy (devid x) then
        (case dev_name x of
           JStr n \<Rightarrow> names_to_ids xs (dict_set (lower n) (devid x) d)
         | _ \<Rightarrow> Inl (PyErr (AttributeError ''lower'')))
      else names_to_ids xs d)"

definition resolve_devices_for_target ::
  "post \<Rightarrow> string list \<Rightarrow> client \<Rightarrow> ((string \<times> json) list \<times> string list) reply \<times> client" where
  "resolve_devices_for_target post requested c =
     (case get_devices post c of
        (r, c') \<Rightarrow>
          (bind_result r (\<lambda>devices.
             bind_result (names_to_ids devices []) (\<lambda>by_name.
               Inr (concat (map (\<lambda>n. case map_of by_name (lower n) of
                                       Some i \<Rightarrow> [(n, i)] | None \<Rightarrow> []) requested),
                    filter (\<lambda>n. map_of by_name (lower n) = None) requested))), c'))"

record contribution =
  cb_start :: string
  cb_end :: string
  cb_srcips :: "string set"
  cb_dstips :: "string set"
  cb_dstports :: "int set"
  cb_count :: nat
  cb_truncated :: bool

text \<open>The port of one row: integers are taken, other values when their text looks like an
  integer. A text that looks like one to \<^verbatim>\<open>lstrip("-").isdigit()\<close> and is none to
  \<^verbatim>\<open>int()\<close> raises.\<close>

definition row_port :: "(json \<Rightarrow> string) \<Rightarrow> (string, json) dict \<Rightarrow> int option reply" where
  "row_port str_of row =
     (case dict_get row ''dstport'' JNull of
        JNull \<Rightarrow> Inr None
      | JBool _ \<Rightarrow> Inr None
      | JInt i \<Rightarrow> Inr (Some i)
      | v \<Rightarrow>
          (let s = strip (str_of v) in
           if isdigit (lstrip_char (CHR ''-'') s)
           then (case py_int s of
                   None \<Rightarrow> Inl (PyErr (ValueError ''invalid literal for int()''))
                 | Some i \<Rightarrow> Inr (Some i))
           else Inr None))"

definition column :: "(json \<Rightarrow> string) \<Rightarrow> string \<Rightarrow> (string, json) dict list \<Rightarrow> string list" where
  "column str_of k rows =
     map (\<lambda>r. str_of (dict_get r k JNull)) (filter (\<lambda>r. truthy (dict_get r k JNull)) rows)"

definition contribution_of ::
  "(json \<Rightarrow> string) \<Rightarrow> string \<times> string \<Rightarrow> search_result \<Rightarrow> contribution reply" where
  "contribution_of str_of window sr =
     bind_result (iterate_objects (sr_rows sr)) (\<lambda>rows.
     bind_result (map_reply (row_port str_of) rows) (\<lambda>ports.
     bind_result (json_length (sr_rows sr)) (\<lambda>n.
       Inr \<lparr>cb_start = fst window, cb_end = snd window,
            cb_srcips = set (column str_of ''srcip'' rows),
            cb_dstips = set (column str_of ''dstip'' rows),
            cb_dstports = set (concat (map (\<lambda>p. case p of None \<Rightarrow> [] | Some i \<Rightarrow> [i]) ports)),
            cb_count = nat n, cb_truncated = sr_truncated sr\<rparr>)))"

text \<open>What a device search is given: the appliance, the clock of the polls, the conversion to the
  appliance's time zone, the texts, and the configured limit and timeout. Out of fuel is
  reported as a timeout; the fuel covers the timeout, so it does not happen
  (\<^theory_text>\<open>polling_terminates\<close>).\<close>

record search_env =
  se_convert :: "string \<Rightarrow> string \<Rightarrow> string option"
  se_clock :: "nat \<Rightarrow> rat"
  se_fuel :: nat
  se_str :: "json \<Rightarrow> string"
  se_limit :: int
  se_timeout :: rat

definition search_one_device ::
  "search_env \<Rightarrow> post \<Rightarrow> json \<Rightarrow> int \<Rightarrow> string \<Rightarrow> string \<Rightarrow> client \<Rightarrow> contribution reply \<times> client" where
  "search_one_device se post dev policyid start_iso end_iso c =
     (case local_time_range (se_convert se) post start_iso end_iso c of
        (window, c1) \<Rightarrow>
          (case search_logs (se_fuel se) (se_clock se) post (se_str se) ''traffic'' dev
                  (''policyid=='' @ show_int policyid) (fst window) (snd window) (se_limit se)
                  (se_timeout se) c1 of
             None \<Rightarrow> (Inl FazSearchTimeout, c1)
           | Some (r, c2) \<Rightarrow> (bind_result r (contribution_of (se_str se) window), c2)))"

section \<open>The search over all targets\<close>

record usage_state =
  us_remaining :: "string set"
  us_queried :: "string list"
  us_errors :: "(string, string) dict"
  us_srcips :: "string set"
  us_dstips :: "string set"
  us_dstports :: "int set"
  us_count :: nat
  us_truncated :: bool
  us_range :: "(string \<times> string) option"
  us_ticks :: nat

text \<open>The exceptions the search recovers from, with the message it keeps.\<close>

definition caught :: "(client_error \<Rightarrow> string) \<Rightarrow> client_error \<Rightarrow> string option" where
  "caught text_of e =
     (case e of
        Http _ \<Rightarrow> Some (summarize_connection_error e)
      | PyErr _ \<Rightarrow> None
      | _ \<Rightarrow> Some (text_of e))"

definition add_contribution :: "string \<Rightarrow> contribution \<Rightarrow> usage_state \<Rightarrow> usage_state" where
  "add_contribution n cb st =
     st\<lparr>us_queried := us_queried st @ [n],
        us_srcips := us_srcips st \<union> cb_srcips cb,
        us_dstips := us_dstips st \<union> cb_dstips cb,
        us_dstports := us_dstports st \<union> cb_dstports cb,
        us_count := us_count st + cb_count cb,
        us_truncated := us_truncated st \<or> cb_truncated cb,
        us_range := Some (cb_start cb, cb_end cb)\<rparr>"

text \<open>The inner loop over the resolved names of one target. The first component tells that the
  deadline was hit, or the exception that escapes.\<close>

fun search_names ::
  "(json \<Rightarrow> client \<Rightarrow> contribution reply \<times> client) \<Rightarrow> (client_error \<Rightarrow> string) \<Rightarrow> (nat \<Rightarrow> rat) \<Rightarrow> rat
   \<Rightarrow> (string \<times> json) list \<Rightarrow> client \<Rightarrow> usage_state \<Rightarrow> bool reply \<times> usage_state" where
  "search_names search text_of clk deadline [] c st = (Inr False, st)"
| "search_names search text_of clk deadline ((n, i) # ns) c st =
     (let st0 = st\<lparr>us_ticks := Suc (us_ticks st)\<rparr> in
      if clk (us_ticks st) \<ge> deadline then (Inr True, st0)
      else
        (let st1 = st0\<lparr>us_remaining := us_remaining st - {n}, us_errors := dict_del n (us_errors st)\<rparr> in
         case search i c of
           (Inr cb, c') \<Rightarrow> search_names search text_of clk deadline ns c' (add_contribution n cb st1)
         | (Inl e, c') \<Rightarrow>
             (case caught text_of e of
                None \<Rightarrow> (Inl e, st1)
              | Some msg \<Rightarrow>
                  search_names search text_of clk deadline ns c'
                    (st1\<lparr>us_errors := dict_set n msg (us_errors st1)\<rparr>))))"

definition record_failures :: "string \<Rightarrow> usage_state \<Rightarrow> usage_state" where
  "record_failures msg st =
     st\<lparr>us_errors := foldl (\<lambda>d n. dict_setdefault n msg d) (us_errors st)
                      (sorted_list_of_set (us_remaining st))\<rparr>"

fun search_targets ::
  "(target \<Rightarrow> json \<Rightarrow> client \<Rightarrow> contribution reply \<times> client) \<Rightarrow> (target \<Rightarrow> post)
   \<Rightarrow> (client_error \<Rightarrow> string) \<Rightarrow> (nat \<Rightarrow> rat) \<Rightarrow> rat \<Rightarrow> target list \<Rightarrow> usage_state
   \<Rightarrow> bool reply \<times> usage_state" where
  "search_targets search post_of text_of clk deadline [] st = (Inr False, st)"
| "search_targets search post_of text_of clk deadline (t # ts) st =
     (if us_remaining st = {} then (Inr False, st)
      else
        (case host t of
           None \<Rightarrow> (Inl (PyErr (KeyError ''host'')), st)
         | Some h \<Rightarrow>
             (case resolve_devices_for_target (post_of t) (sorted_list_of_set (us_remaining st))
                     (make_client h 443 (or_default ''root'' (adom t)) None) of
                (Inl e, c) \<Rightarrow>
                  (case caught text_of e of
                     None \<Rightarrow> (Inl e, st)
                   | Some msg \<Rightarrow>
                       search_targets search post_of text_of clk deadline ts (record_failures msg st))
              | (Inr (resolved, _), c) \<Rightarrow>
                  (case search_names (search t) text_of clk deadline resolved c st of
                     (Inr False, st') \<Rightarrow> search_targets search post_of text_of clk deadline ts st'
                   | r \<Rightarrow> r))))"

record usage_response =
  rs_policyid :: int
  rs_days :: int
  rs_time_range :: "(string \<times> string) option"
  rs_srcips :: "string list"
  rs_dstips :: "string list"
  rs_dstports :: "int list"
  rs_log_count :: nat
  rs_truncated :: bool
  rs_queried :: "string list"
  rs_not_found :: "string list"
  rs_errors :: "(string, string) dict"

datatype usage_outcome =
    UsageOk usage_response
  | UsageError string nat

definition LOG_USAGE_DEADLINE :: rat where "LOG_USAGE_DEADLINE = 75"

definition start_state :: "usage_request \<Rightarrow> usage_state" where
  "start_state req =
     \<lparr>us_remaining = set (ur_devices req), us_queried = [], us_errors = [], us_srcips = {},
      us_dstips = {}, us_dstports = {}, us_count = 0, us_truncated = False, us_range = None,
      us_ticks = 1\<rparr>"

text \<open>After the deadline, every name not yet searched is reported as skipped, never as not
  found.\<close>

definition skip_remaining :: "usage_state \<Rightarrow> usage_state" where
  "skip_remaining st =
     st\<lparr>us_errors := foldl (\<lambda>d n. dict_set n ''skipped: request deadline exceeded'' d) (us_errors st)
                      (sorted_list_of_set (us_remaining st)),
        us_remaining := {}\<rparr>"

definition usage_answer :: "usage_request \<Rightarrow> usage_state \<Rightarrow> usage_outcome" where
  "usage_answer req st =
     (if us_queried st = [] \<and> us_errors st \<noteq> []
      then UsageError (join_with ''; '' (map (\<lambda>(n, m). n @ '': '' @ m) (us_errors st))) 502
      else UsageOk
        \<lparr>rs_policyid = ur_policyid req, rs_days = ur_days req, rs_time_range = us_range st,
         rs_srcips = sorted_list_of_set (us_srcips st), rs_dstips = sorted_list_of_set (us_dstips st),
         rs_dstports = sorted_list_of_set (us_dstports st), rs_log_count = us_count st,
         rs_truncated = us_truncated st, rs_queried = sort (us_queried st),
         rs_not_found = sorted_list_of_set (us_remaining st), rs_errors = us_errors st\<rparr>)"

text \<open>\<^verbatim>\<open>_run_log_usage_search\<close>; the left side is an exception that escapes it.\<close>

definition run_log_usage_search ::
  "(target \<Rightarrow> json \<Rightarrow> client \<Rightarrow> contribution reply \<times> client) \<Rightarrow> (target \<Rightarrow> post)
   \<Rightarrow> (client_error \<Rightarrow> string) \<Rightarrow> (nat \<Rightarrow> rat) \<Rightarrow> targets_file \<Rightarrow> usage_request \<Rightarrow> usage_outcome reply" where
  "run_log_usage_search search post_of text_of clk f req =
     (let targets = match_targets_for_adom (ur_adom req) f in
      if targets = []
      then Inr (UsageError
        (''No FortiAnalyzer target configured for ADOM '' @ CHR 0x27 # ur_adom req @ [CHR 0x27]) 404)
      else
        (case search_targets search post_of text_of clk (clk 0 + LOG_USAGE_DEADLINE) targets
                (start_state req) of
           (Inl e, st) \<Rightarrow> Inl e
         | (Inr hit, st) \<Rightarrow> Inr (usage_answer req (if hit then skip_remaining st else st))))"

section \<open>Validated requests\<close>

lemma dict_setdefault_fold_keys:
  "fst ` set (foldl (\<lambda>d x. dict_setdefault (f x) (g x) d) d xs) = fst ` set d \<union> f ` set xs"
  by (induction xs arbitrary: d) (auto simp del: dict_has_lookup)

lemma dict_setdefault_fold_wf:
  "wf_dict d \<Longrightarrow> wf_dict (foldl (\<lambda>d x. dict_setdefault (f x) (g x) d) d xs)"
  by (induction xs arbitrary: d) auto

lemma dict_setdefault_fold_vals:
  "\<forall>(k, v) \<in> set d. k = lower v \<and> P v \<Longrightarrow> \<forall>x \<in> set xs. P (strip x) \<Longrightarrow>
     \<forall>(k, v) \<in> set (foldl (\<lambda>d x. dict_setdefault (lower (strip x)) (strip x) d) d xs). k = lower v \<and> P v"
proof (induction xs arbitrary: d)
  case (Cons x xs)
  have "\<forall>(k, v) \<in> set (dict_setdefault (lower (strip x)) (strip x) d). k = lower v \<and> P v"
    using Cons.prems by (auto simp: dict_setdefault_def)
  with Cons show ?case by simp
qed simp

lemma dedupe_names_props:
  "distinct (map lower (dedupe_names ds))"
  "set (map lower (dedupe_names ds)) = (\<lambda>d. lower (strip d)) ` set ds"
  "set (dedupe_names ds) \<subseteq> strip ` set ds"
proof -
  let ?d = "foldl (\<lambda>d x. dict_setdefault (lower (strip x)) (strip x) d) [] ds"
  have v: "\<forall>(k, v) \<in> set ?d. k = lower v \<and> v \<in> strip ` set ds"
    by (rule dict_setdefault_fold_vals) auto
  then have keys: "map lower (dedupe_names ds) = map fst ?d"
    by (auto simp: dedupe_names_def dict_values_def)
  show "distinct (map lower (dedupe_names ds))"
    unfolding keys by (rule dict_setdefault_fold_wf) simp
  show "set (map lower (dedupe_names ds)) = (\<lambda>d. lower (strip d)) ` set ds"
    unfolding keys using dict_setdefault_fold_keys [of "\<lambda>x. lower (strip x)" strip "[]" ds] by simp
  show "set (dedupe_names ds) \<subseteq> strip ` set ds"
    using v by (auto simp: dedupe_names_def dict_values_def)
qed

lemma nonblank_strings_Some:
  "nonblank_strings xs = Some ds \<Longrightarrow> xs = map JStr ds \<and> (\<forall>d \<in> set ds. strip d \<noteq> [])"
  by (induction xs arbitrary: ds rule: nonblank_strings.induct) (auto split: if_splits)

text \<open>A log-usage request that passes validation is in normal form: a non-blank ADOM, a positive
  policy number, 1 to 60 days, and a non-empty list of device names that are the requested ones
  without surrounding white space, none of them occurring twice in any spelling of upper and
  lower case and none dropped. Every other body is refused with one of four messages.\<close>

theorem usage_request_normal:
  "case validate_log_usage_request str_of data of
     Inr r \<Rightarrow>
       (\<exists>ds. map_of data ''devices'' = Some (JList (map JStr ds)) \<and>
          ur_devices r \<noteq> [] \<and> distinct (map lower (ur_devices r)) \<and>
          set (ur_devices r) \<subseteq> strip ` set ds \<and>
          set (map lower (ur_devices r)) = (\<lambda>d. lower (strip d)) ` set ds \<and>
          [] \<notin> set (ur_devices r)) \<and>
       ur_adom r \<noteq> [] \<and> strip (ur_adom r) = ur_adom r \<and> 0 < ur_policyid r \<and>
       map_of data ''policyid'' = Some (JInt (ur_policyid r)) \<and>
       map_of data ''days'' = Some (JInt (ur_days r)) \<and> 1 \<le> ur_days r \<and> ur_days r \<le> 60
   | Inl message \<Rightarrow>
       message \<in> {''adom is required'', ''devices must be a non-empty list of strings'',
         ''policyid must be a positive integer'', ''days must be an integer between 1 and 60''}"
proof (cases "validate_log_usage_request str_of data")
  case (Inl message)
  then show ?thesis
    by (auto simp: validate_log_usage_request_def Let_def split: if_splits option.splits json.splits)
next
  case (Inr r)
  have get: "dict_get data k JNull = v \<Longrightarrow> v \<noteq> JNull \<Longrightarrow> map_of data k = Some v" for k v
    by (auto simp: dict_get_def split: option.splits)
  from Inr obtain x xs ds where dev: "dict_get data ''devices'' JNull = JList (x # xs)"
    and nb: "nonblank_strings (x # xs) = Some ds"
    and r: "ur_devices r = dedupe_names ds" "ur_adom r = strip (str_of (json_or (dict_get data ''adom'' JNull) (JStr [])))"
      "ur_adom r \<noteq> []" "dict_get data ''policyid'' JNull = JInt (ur_policyid r)" "0 < ur_policyid r"
      "dict_get data ''days'' JNull = JInt (ur_days r)" "1 \<le> ur_days r" "ur_days r \<le> 60"
    by (auto simp: validate_log_usage_request_def Let_def split: if_splits option.splits json.splits list.splits)
  from nonblank_strings_Some [OF nb] have ds: "x # xs = map JStr ds" "\<forall>d \<in> set ds. strip d \<noteq> []" by auto
  have "ur_devices r \<noteq> []"
    using dedupe_names_props(2) [of ds] ds(1) r(1) by auto
  moreover have "[] \<notin> set (ur_devices r)" using dedupe_names_props(3) [of ds] ds(2) r(1) by force
  moreover have "map_of data ''devices'' = Some (JList (map JStr ds))" using get [OF dev] ds(1) by simp
  ultimately show ?thesis
    using Inr r get dedupe_names_props [of ds] by auto
qed

section \<open>Every device is accounted for\<close>

lemma sort_Nil_iff: "sort xs = [] \<longleftrightarrow> xs = []"
  by (metis set_empty set_sort)

definition usage_inv :: "string set \<Rightarrow> usage_state \<Rightarrow> bool" where
  "usage_inv ds st \<longleftrightarrow>
     finite ds \<and> distinct (us_queried st) \<and>
     set (us_queried st) \<union> us_remaining st \<union> fst ` set (us_errors st) = ds \<and>
     set (us_queried st) \<inter> us_remaining st = {} \<and>
     set (us_queried st) \<inter> fst ` set (us_errors st) = {}"

lemma usage_inv_finite: "usage_inv ds st \<Longrightarrow> finite (us_remaining st)"
  unfolding usage_inv_def by (metis finite_Un)

lemma usage_inv_ticks [simp]: "usage_inv ds (st\<lparr>us_ticks := k\<rparr>) = usage_inv ds st"
  by (simp add: usage_inv_def)

lemma usage_inv_found:
  "usage_inv ds st \<Longrightarrow> n \<in> us_remaining st \<Longrightarrow>
     usage_inv ds (add_contribution n cb (st\<lparr>us_ticks := k, us_remaining := us_remaining st - {n},
       us_errors := dict_del n (us_errors st)\<rparr>))"
  by (auto simp: usage_inv_def add_contribution_def)

lemma usage_inv_failed:
  "usage_inv ds st \<Longrightarrow> n \<in> us_remaining st \<Longrightarrow>
     usage_inv ds (st\<lparr>us_ticks := k, us_remaining := us_remaining st - {n},
       us_errors := dict_set n m (dict_del n (us_errors st))\<rparr>)"
  by (auto simp: usage_inv_def)

lemma search_names_inv:
  assumes "search_names search text_of clk deadline ns c st = (Inr hit, st')" and "usage_inv ds st"
    and "distinct (map fst ns)" and "fst ` set ns \<subseteq> us_remaining st"
  shows "usage_inv ds st'"
  using assms
proof (induction ns arbitrary: c st)
  case (Cons p ns)
  obtain n i where p: "p = (n, i)" by (cases p)
  let ?st1 = "st\<lparr>us_ticks := Suc (us_ticks st), us_remaining := us_remaining st - {n},
                 us_errors := dict_del n (us_errors st)\<rparr>"
  obtain r c' where s: "search i c = (r, c')" by (metis surj_pair)
  have n: "n \<in> us_remaining st" using Cons.prems(4) p by simp
  have sub: "fst ` set ns \<subseteq> us_remaining ?st1" using Cons.prems(3, 4) p by auto
  show ?case
  proof (cases "clk (us_ticks st) \<ge> deadline")
    case True
    with Cons.prems(1, 2) p show ?thesis by (auto simp: Let_def)
  next
    case False
    show ?thesis
    proof (cases r)
      case (Inr cb)
      then have "search_names search text_of clk deadline ns c' (add_contribution n cb ?st1) = (Inr hit, st')"
        using Cons.prems(1) p s False by (simp add: Let_def)
      from Cons.IH [OF this usage_inv_found [OF Cons.prems(2) n]] Cons.prems(3) p sub
      show ?thesis by (simp add: add_contribution_def)
    next
      case (Inl e)
      then obtain m where m: "caught text_of e = Some m"
        using Cons.prems(1) p s False by (cases "caught text_of e") (auto simp: Let_def)
      then have "search_names search text_of clk deadline ns c'
          (?st1\<lparr>us_errors := dict_set n m (us_errors ?st1)\<rparr>) = (Inr hit, st')"
        using Cons.prems(1) p s False Inl by (simp add: Let_def)
      from Cons.IH [OF this] usage_inv_failed [OF Cons.prems(2) n] Cons.prems(3) p sub
      show ?thesis by simp
    qed
  qed
qed simp

lemma search_names_escape:
  "search_names search text_of clk deadline ns c st = (Inl e, st') \<Longrightarrow> caught text_of e = None"
  by (induction ns arbitrary: c st)
    (auto simp: Let_def split: if_splits prod.splits sum.splits option.splits)

lemma resolved_names:
  assumes "resolve_devices_for_target post requested c = (Inr (resolved, nf), c')" and "distinct requested"
  shows "distinct (map fst resolved) \<and> fst ` set resolved \<subseteq> set requested"
proof -
  obtain by_name where res: "resolved = concat (map (\<lambda>n. case map_of by_name (lower n) of
      Some i \<Rightarrow> [(n, i)] | None \<Rightarrow> []) requested)"
    using assms(1) by (auto simp: resolve_devices_for_target_def bind_result_Inr_iff split: prod.splits)
  have "map fst resolved = filter (\<lambda>n. map_of by_name (lower n) \<noteq> None) requested"
    unfolding res by (induction requested) (auto split: option.splits)
  then show ?thesis using assms(2) by (metis distinct_filter filter_is_subset image_set)
qed

lemma record_failures_inv: "usage_inv ds st \<Longrightarrow> usage_inv ds (record_failures msg st)"
  using usage_inv_finite [of ds st]
    dict_setdefault_fold_keys [of "\<lambda>n. n" "\<lambda>_. msg" "us_errors st" "sorted_list_of_set (us_remaining st)"]
  by (auto simp: usage_inv_def record_failures_def)

lemma search_targets_inv:
  assumes "search_targets search post_of text_of clk deadline ts st = (r, st')" and "usage_inv ds st"
  shows "case r of Inl e \<Rightarrow> caught text_of e = None | Inr _ \<Rightarrow> usage_inv ds st'"
  using assms
proof (induction ts arbitrary: st)
  case (Cons t ts)
  show ?case
  proof (cases "us_remaining st = {} \<or> host t = None")
    case True
    with Cons.prems show ?thesis by (auto simp: caught_def split: option.splits if_splits)
  next
    case False
    then obtain h where h: "host t = Some h" and ne: "us_remaining st \<noteq> {}" by auto
    obtain q c where q: "resolve_devices_for_target (post_of t) (sorted_list_of_set (us_remaining st))
        (make_client h 443 (or_default ''root'' (adom t)) None) = (q, c)" by (metis surj_pair)
    show ?thesis
    proof (cases q)
      case (Inl e)
      with Cons q h ne record_failures_inv show ?thesis by (cases "caught text_of e") auto
    next
      case (Inr x)
      then obtain resolved nf where x: "q = Inr (resolved, nf)" by (cases x) auto
      obtain b st1 where b: "search_names (search t) text_of clk deadline resolved c st = (b, st1)"
        by (metis surj_pair)
      from resolved_names [OF q [unfolded x]] usage_inv_finite [OF Cons.prems(2)]
      have rn: "distinct (map fst resolved)" "fst ` set resolved \<subseteq> us_remaining st" by auto
      show ?thesis
      proof (cases b)
        case (Inl e)
        with b q x h ne Cons.prems(1) search_names_escape [of "search t" text_of clk deadline resolved c st e st1]
        show ?thesis by auto
      next
        case (Inr hit)
        then have "usage_inv ds st1" using search_names_inv [OF b [unfolded Inr] Cons.prems(2) rn] by simp
        with Cons.IH [of st1] Cons.prems(1) b q x h ne Inr show ?thesis by (cases hit) auto
      qed
    qed
  qed
qed auto

lemma dict_set_fold_keys:
  "fst ` set (foldl (\<lambda>d n. dict_set n m d) d ns) = fst ` set d \<union> set ns"
  by (induction ns arbitrary: d) auto

lemma skip_remaining_inv: "usage_inv ds st \<Longrightarrow> usage_inv ds (skip_remaining st)"
  using usage_inv_finite [of ds st]
    dict_set_fold_keys [of "''skipped: request deadline exceeded''" "us_errors st" "sorted_list_of_set (us_remaining st)"]
  by (auto simp: usage_inv_def skip_remaining_def)

text \<open>C7. No requested device is lost: whatever the appliances answer, when and in which order, a
  successful log-usage answer lists every requested device as queried, as not found, or with an
  error; a queried device is listed once and is in neither of the other two. Otherwise the
  answer is the 404 of an ADOM without appliances or the 502 of a request in which no device
  could be queried, or the exception is one the code does not expect from an appliance (neither a
  FortiAnalyzer error nor a network error).\<close>

theorem usage_accounts_for_devices:
  "case run_log_usage_search search post_of text_of clk f req of
     Inl e \<Rightarrow> caught text_of e = None
   | Inr (UsageError _ status) \<Rightarrow> status = (if match_targets_for_adom (ur_adom req) f = [] then 404 else 502)
   | Inr (UsageOk r) \<Rightarrow>
       set (rs_queried r) \<union> set (rs_not_found r) \<union> fst ` set (rs_errors r) = set (ur_devices req) \<and>
       distinct (rs_queried r) \<and> set (rs_queried r) \<inter> set (rs_not_found r) = {} \<and>
       set (rs_queried r) \<inter> fst ` set (rs_errors r) = {} \<and>
       \<not> (rs_queried r = [] \<and> rs_errors r \<noteq> [])"
proof -
  let ?ts = "match_targets_for_adom (ur_adom req) f"
  obtain q st where s: "search_targets search post_of text_of clk (clk 0 + LOG_USAGE_DEADLINE) ?ts
      (start_state req) = (q, st)" by (metis surj_pair)
  have "usage_inv (set (ur_devices req)) (start_state req)" by (simp add: usage_inv_def start_state_def)
  note inv = search_targets_inv [OF s this]
  show ?thesis
  proof (cases "?ts = []")
    case True
    then show ?thesis by (simp add: run_log_usage_search_def)
  next
    case False
    show ?thesis
    proof (cases q)
      case (Inl e)
      with inv s False show ?thesis by (simp add: run_log_usage_search_def)
    next
      case (Inr hit)
      let ?st = "if hit then skip_remaining st else st"
      have i: "usage_inv (set (ur_devices req)) ?st" using inv Inr skip_remaining_inv by simp
      have "run_log_usage_search search post_of text_of clk f req = Inr (usage_answer req ?st)"
        using False s Inr by (simp add: run_log_usage_search_def)
      then show ?thesis
        using i usage_inv_finite [OF i] False
        by (simp add: usage_answer_def usage_inv_def del: set_sorted_list_of_set split del: if_split)
           (auto simp: set_sorted_list_of_set sort_Nil_iff split: if_splits)
    qed
  qed
qed

section \<open>A port that ends the request\<close>

text \<open>A log row whose port is a text of two or more hyphens before digits passes the test meant to
  skip what is not an integer, and the conversion raises an exception no caller expects.\<close>

lemma hyphen_port_raises:
  assumes "ds \<noteq> []" and "list_all ascii_digit ds" and "str_of (JStr p) = p"
    and "p = replicate (Suc (Suc k)) (CHR ''-'') @ ds"
  shows "row_port str_of [(''dstport'', JStr p)] = Inl (PyErr (ValueError ''invalid literal for int()''))"
proof -
  have nospace: "\<not> is_space (CHR ''-'')" by (simp add: is_space_def)
  have "ascii_digit (last ds)" using assms(1, 2) by (simp add: list_all_iff)
  then have last: "\<not> is_space (last ds)" by (auto simp: ascii_digit_def is_space_def)
  have hd: "hd ds \<noteq> CHR ''-''" and dl: "list_all digit_like ds"
    using assms(1, 2) by (auto simp: list_all_iff ascii_digit_def digit_like_def neq_Nil_conv)
  have st: "strip p = p"
    using assms(1, 4) last nospace by (intro strip_id) simp
  have "lstrip_char (CHR ''-'') p = ds"
  proof -
    have "dropWhile (\<lambda>x. x = CHR ''-'') ds = ds" using hd by (metis (full_types) dropWhile_eq_self_iff)
    moreover have "lstrip_char (CHR ''-'') (replicate j (CHR ''-'') @ ds) = dropWhile (\<lambda>x. x = CHR ''-'') ds" for j
      by (induction j) (simp_all add: lstrip_char_def)
    ultimately show ?thesis using assms(4) by metis
  qed
  moreover have "int_digits (CHR ''-'' # xs) = None" for xs by (cases xs) (simp_all add: ascii_digit_def)
  then have "py_int p = None" using st assms(4) by (simp add: py_int_def)
  ultimately show ?thesis
    using assms(1, 3) dl st by (simp add: row_port_def dict_get_def isdigit_def Let_def)
qed

end
