(* ===== verification/Polling.thy ===== *)
theory Polling
  imports FazClient FazTargets AppLogger
begin

text \<open>
  What the pollers of \<^verbatim>\<open>log_stats_cache.py\<close> and \<^verbatim>\<open>threat_stats_cache.py\<close> share: which
  targets are asked, the client made for a target, and the log message of a failed poll (the text
  of a FortiAnalyzer error is left out of it). A sequence of calls on one client is a state
  monad with exceptions over the client and the log, in which \<open>None\<close> is a polling loop out of
  fuel.
\<close>

definition pollable :: "target \<Rightarrow> bool" where
  "pollable t \<longleftrightarrow> or_default [] (label t) \<noteq> [] \<and> or_default [] (host t) \<noteq> []"

definition target_client :: "target \<Rightarrow> client" where
  "target_client t = make_client (or_default [] (host t)) 443 (or_default ''root'' (adom t)) None"

definition failure_message :: "string \<Rightarrow> target \<Rightarrow> client_error \<Rightarrow> string" where
  "failure_message what t e =
     (case e of
        FazError _ \<Rightarrow> what @ '' poll failed for '' @ or_default [] (label t)
      | FazSearchTimeout \<Rightarrow> what @ '' poll failed for '' @ or_default [] (label t)
      | _ \<Rightarrow> what @ '' poll failed for '' @ or_default [] (label t) @ '' ('' @ or_default [] (host t)
              @ ''): '' @ summarize_connection_error e)"

section \<open>Sequences of calls\<close>

type_synonym 'a call = "client \<times> logger \<Rightarrow> ('a reply \<times> (client \<times> logger)) option"

definition call_return :: "'a \<Rightarrow> 'a call" where
  "call_return x s = Some (Inr x, s)"

definition call_reply :: "'a reply \<Rightarrow> 'a call" where
  "call_reply r s = Some (r, s)"

definition call_bind :: "'a call \<Rightarrow> ('a \<Rightarrow> 'b call) \<Rightarrow> 'b call" where
  "call_bind m f s =
     (case m s of
        None \<Rightarrow> None
      | Some (Inl e, s') \<Rightarrow> Some (Inl e, s')
      | Some (Inr x, s') \<Rightarrow> f x s')"

definition on_client :: "(client \<Rightarrow> ('a reply \<times> client) option) \<Rightarrow> 'a call" where
  "on_client op s = map_option (\<lambda>(r, c'). (r, (c', snd s))) (op (fst s))"

definition log_line :: "(logger \<Rightarrow> logger) \<Rightarrow> unit call" where
  "log_line write s = Some (Inr (), (fst s, write (snd s)))"

fun call_map :: "('a \<Rightarrow> 'b call) \<Rightarrow> 'a list \<Rightarrow> 'b list call" where
  "call_map f [] = call_return []"
| "call_map f (x # xs) =
     call_bind (f x) (\<lambda>y. call_bind (call_map f xs) (\<lambda>ys. call_return (y # ys)))"

text \<open>A sequence ends when none of its loops runs out of fuel.\<close>

definition ends :: "'a call \<Rightarrow> bool" where
  "ends m \<longleftrightarrow> (\<forall>s. m s \<noteq> None)"

named_theorems ends_intros \<open>sequences of calls that end\<close>

lemma ends_return [ends_intros]: "ends (call_return x)"
  and ends_reply [ends_intros]: "ends (call_reply r)"
  and ends_log_line [ends_intros]: "ends (log_line w)"
  by (simp_all add: ends_def call_return_def call_reply_def log_line_def)

lemma ends_on_client [ends_intros]: "(\<And>c. op c \<noteq> None) \<Longrightarrow> ends (on_client op)"
  by (simp add: ends_def on_client_def)

lemma ends_bind [ends_intros]: "ends m \<Longrightarrow> (\<And>x. ends (f x)) \<Longrightarrow> ends (call_bind m f)"
  unfolding ends_def call_bind_def by (auto split: option.splits sum.splits)

lemma ends_map [ends_intros]: "(\<And>x. ends (f x)) \<Longrightarrow> ends (call_map f xs)"
  by (induction xs) (auto intro!: ends_intros)

lemma ends_if [ends_intros]: "ends m \<Longrightarrow> ends m' \<Longrightarrow> ends (if b then m else m')"
  by simp

lemma ends_case_option [ends_intros]:
  "ends m \<Longrightarrow> (\<And>x. ends (f x)) \<Longrightarrow> ends (case v of None \<Rightarrow> m | Some x \<Rightarrow> f x)"
  by (cases v) simp_all

text \<open>What a sequence returned.\<close>

definition returns :: "'a call \<Rightarrow> client \<times> logger \<Rightarrow> 'a \<Rightarrow> client \<times> logger \<Rightarrow> bool" where
  "returns m s x s' \<longleftrightarrow> m s = Some (Inr x, s')"

lemma returns_bind: "returns (call_bind m f) s y s' \<longleftrightarrow> (\<exists>x s1. returns m s x s1 \<and> returns (f x) s1 y s')"
  by (auto simp: returns_def call_bind_def split: option.splits sum.splits)

lemma returns_return [simp]: "returns (call_return x) s y s' \<longleftrightarrow> y = x \<and> s' = s"
  and returns_reply [simp]: "returns (call_reply r) s y s' \<longleftrightarrow> r = Inr y \<and> s' = s"
  by (auto simp: returns_def call_return_def call_reply_def)

text \<open>A sequence whose answer and client do not depend on the log; every sequence built from these
  operations is one.\<close>

definition outcome :: "('a reply \<times> (client \<times> logger)) option \<Rightarrow> ('a reply \<times> client) option" where
  "outcome r = map_option (\<lambda>(x, (c, _)). (x, c)) r"

definition log_blind :: "'a call \<Rightarrow> bool" where
  "log_blind m \<longleftrightarrow> (\<forall>c lg lg'. outcome (m (c, lg)) = outcome (m (c, lg')))"

named_theorems blind_intros \<open>sequences of calls that do not read the log\<close>

lemma blind_return [blind_intros]: "log_blind (call_return x)"
  and blind_reply [blind_intros]: "log_blind (call_reply r)"
  and blind_log_line [blind_intros]: "log_blind (log_line w)"
  by (simp_all add: log_blind_def outcome_def call_return_def call_reply_def log_line_def)

lemma blind_on_client [blind_intros]: "log_blind (on_client op)"
  by (simp add: log_blind_def outcome_def on_client_def option.map_comp comp_def case_prod_unfold)

lemma outcome_simps [simp]:
  "outcome None = None" "outcome (Some (x, (c, lg))) = Some (x, c)"
  by (simp_all add: outcome_def)

lemma blind_bind [blind_intros]:
  assumes "log_blind m" and "\<And>x. log_blind (f x)"
  shows "log_blind (call_bind m f)"
  unfolding log_blind_def
proof (intro allI)
  fix c lg lg'
  have o: "outcome (m (c, lg)) = outcome (m (c, lg'))" using assms(1) by (simp add: log_blind_def)
  show "outcome (call_bind m f (c, lg)) = outcome (call_bind m f (c, lg'))"
  proof (cases "m (c, lg)")
    case None
    with o have "m (c, lg') = None" by (simp add: outcome_def)
    with None show ?thesis by (simp add: call_bind_def)
  next
    case (Some p)
    obtain x c1 lg1 where p: "p = (x, (c1, lg1))" by (metis surj_pair)
    with Some o obtain lg2 where m': "m (c, lg') = Some (x, (c1, lg2))"
      by (cases "m (c, lg')") (auto simp: outcome_def)
    show ?thesis
      using Some p m' assms(2) by (cases x) (simp_all add: call_bind_def log_blind_def)
  qed
qed

lemma blind_map [blind_intros]: "(\<And>x. log_blind (f x)) \<Longrightarrow> log_blind (call_map f xs)"
  by (induction xs) (auto intro!: blind_intros)

lemma blind_if [blind_intros]: "log_blind m \<Longrightarrow> log_blind m' \<Longrightarrow> log_blind (if b then m else m')"
  by simp

lemma blind_case_option [blind_intros]:
  "log_blind m \<Longrightarrow> (\<And>x. log_blind (f x)) \<Longrightarrow> log_blind (case v of None \<Rightarrow> m | Some x \<Rightarrow> f x)"
  by (cases v) simp_all

end
