(* ===== verification/LogStats.thy ===== *)
theory LogStats
  imports Polling History ReadThrough "HOL-Library.Product_Lexorder"
    "HOL-Library.Multiset"
begin

text \<open>
  \<^verbatim>\<open>app/log_stats_cache.py\<close> and \<^verbatim>\<open>app/log_stats_history.py\<close>: silent-device detection over
  all appliances and the history of its totals. The state of the module is a record: the
  in-memory cache, the collector's snapshot table, the history table and the log. The
  appliances are a function from a target to its \<open>post\<close>; the clock readings and the
  ISO 8601 text of a timestamp are arguments. The jobs that call
  \<open>poll_all_targets\<close> are those of \<^theory_text>\<open>Startup\<close>.
\<close>

section \<open>Classifying devices\<close>

text \<open>A timestamp of 0 counts as never.\<close>

definition last_log :: "log_stat \<Rightarrow> rat option" where
  "last_log d = (case ls_last d of None \<Rightarrow> None | Some ts \<Rightarrow> if ts = 0 then None else Some ts)"

definition is_logging :: "rat \<Rightarrow> rat \<Rightarrow> log_stat \<Rightarrow> bool" where
  "is_logging t threshold_minutes d =
     (case last_log d of None \<Rightarrow> False | Some ts \<Rightarrow> t - ts \<le> threshold_minutes * 60)"

definition classify_devices ::
  "log_stat list \<Rightarrow> rat \<Rightarrow> rat \<Rightarrow> log_stat list \<times> log_stat list" where
  "classify_devices stats t threshold_minutes =
     foldl (\<lambda>(logging, silent) d.
              if is_logging t threshold_minutes d then (logging @ [d], silent)
              else (logging, silent @ [d])) ([], []) stats"

definition SILENT_DETAILS_MAX :: nat where "SILENT_DETAILS_MAX = 50"

record silent_detail =
  sd_devid :: json
  sd_devname :: json
  sd_last_log_at :: "string option"

definition severity_key :: "log_stat \<Rightarrow> nat \<times> rat" where
  "severity_key d = (case last_log d of None \<Rightarrow> (0, 0) | Some ts \<Rightarrow> (1, ts))"

definition build_silent_details :: "(rat \<Rightarrow> string) \<Rightarrow> log_stat list \<Rightarrow> nat \<Rightarrow> silent_detail list" where
  "build_silent_details isofmt silent limit =
     map (\<lambda>d. \<lparr>sd_devid = ls_devid d, sd_devname = ls_devname d,
               sd_last_log_at = map_option isofmt (last_log d)\<rparr>)
       (take limit (sort_key severity_key silent))"

section \<open>History\<close>

record rollup =
  ru_collected_at :: string
  ru_logging :: nat
  ru_silent :: nat
  ru_lograte :: rat

definition write_rollup :: "nat \<Rightarrow> nat \<Rightarrow> rat \<Rightarrow> string \<Rightarrow> rollup list \<Rightarrow> rollup list" where
  "write_rollup logging silent lograte collected rows =
     rows @ [\<lparr>ru_collected_at = collected, ru_logging = logging, ru_silent = silent,
              ru_lograte = lograte\<rparr>]"

text \<open>\<^verbatim>\<open>ORDER BY collected_at DESC LIMIT 1\<close> on text; among equal times the first written is
  taken.\<close>

definition get_latest_rollup :: "rollup list \<Rightarrow> rollup option" where
  "get_latest_rollup rows = newest_row ru_collected_at rows"

definition prune_old_rows :: "string \<Rightarrow> rollup list \<Rightarrow> rollup list" where
  "prune_old_rows cutoff rows = filter (\<lambda>r. \<not> ru_collected_at r < cutoff) rows"

definition put_rollup :: "rollup \<Rightarrow> rollup list \<Rightarrow> rollup list" where
  "put_rollup r rows = write_rollup (ru_logging r) (ru_silent r) (ru_lograte r) (ru_collected_at r) rows"

interpretation rollups: latest_table ru_collected_at put_rollup prune_old_rows get_latest_rollup
  by unfold_locales
    (auto simp: put_rollup_def write_rollup_def prune_old_rows_def get_latest_rollup_def newest_row_laws
       mset_filter)

section \<open>The cache and the poll\<close>

record log_cache =
  lc_logging :: "log_stat list"
  lc_silent :: "log_stat list"
  lc_details :: "silent_detail list"
  lc_collected_at :: "string option"

definition empty_log_cache :: log_cache where
  "empty_log_cache = \<lparr>lc_logging = [], lc_silent = [], lc_details = [], lc_collected_at = None\<rparr>"

definition CACHE_KEY :: string where "CACHE_KEY = ''log_stats''"

record log_world =
  lw_cache :: log_cache
  lw_store :: "log_cache cache_table"
  lw_history :: "rollup list"
  lw_log :: logger

text \<open>A stored snapshot holds all four keys, so \<^verbatim>\<open>_cache.update(stored)\<close> replaces the cache.\<close>

definition log_cache_filled :: "log_cache \<Rightarrow> bool" where
  "log_cache_filled c \<longleftrightarrow> lc_collected_at c \<noteq> None"

definition log_cache_takeover :: "log_cache \<Rightarrow> log_cache \<Rightarrow> log_cache" where
  "log_cache_takeover c stored = stored"

definition get_cached :: "log_world \<Rightarrow> log_cache \<times> log_world" where
  "get_cached w =
     (let c = read_through log_cache_filled log_cache_takeover (read_cache CACHE_KEY (lw_store w)) (lw_cache w)
      in (c, w\<lparr>lw_cache := c\<rparr>))"

definition poll_log_stats :: "(target \<Rightarrow> post) \<Rightarrow> target \<Rightarrow> log_stat list reply" where
  "poll_log_stats post_of t = fst (get_log_stats (post_of t) None (target_client t))"

text \<open>One target: on success its records overwrite earlier ones of the same device.\<close>

definition merge_stats :: "log_stat list \<Rightarrow> (json, log_stat) dict \<Rightarrow> (json, log_stat) dict" where
  "merge_stats stats d = fold (\<lambda>s. dict_set (ls_devid s) s) stats d"

fun poll_targets ::
  "(target \<Rightarrow> post) \<Rightarrow> string \<Rightarrow> target list \<Rightarrow> (json, log_stat) dict \<times> bool \<times> logger
   \<Rightarrow> (json, log_stat) dict \<times> bool \<times> logger" where
  "poll_targets post_of stamp [] acc = acc"
| "poll_targets post_of stamp (t # ts) (devs, polled_ok, lg) =
     (if \<not> pollable t then poll_targets post_of stamp ts (devs, polled_ok, lg)
      else
        (case poll_log_stats post_of t of
           Inl e \<Rightarrow>
             poll_targets post_of stamp ts
               (devs, polled_ok,
                app_log stamp ''WARN'' ''log_stats_cache'' (failure_message ''logstats'' t e) [] lg)
         | Inr stats \<Rightarrow> poll_targets post_of stamp ts (merge_stats stats devs, True, lg)))"

definition poll_all_targets ::
  "(target \<Rightarrow> post) \<Rightarrow> (rat \<Rightarrow> string) \<Rightarrow> rat \<Rightarrow> string \<Rightarrow> string \<Rightarrow> rat \<Rightarrow> targets_file
   \<Rightarrow> log_world \<Rightarrow> log_world" where
  "poll_all_targets post_of isofmt t collected cutoff threshold f w =
     (case poll_targets post_of collected (list_targets f) ([], False, lw_log w) of
        (devs, polled_ok, lg) \<Rightarrow>
          if \<not> polled_ok then w\<lparr>lw_log := lg\<rparr>
          else
            (let (logging, silent) = classify_devices (dict_values devs) t threshold;
                 c = \<lparr>lc_logging = logging, lc_silent = silent,
                      lc_details = build_silent_details isofmt silent SILENT_DETAILS_MAX,
                      lc_collected_at = Some collected\<rparr>
             in \<lparr>lw_cache = c,
                 lw_store = write_cache CACHE_KEY c (Some collected) (lw_store w),
                 lw_history =
                   prune_old_rows cutoff
                     (write_rollup (length logging) (length silent) (sum_list (map ls_rate logging))
                        collected (lw_history w)),
                 lw_log = lg\<rparr>))"

section \<open>Lemmas\<close>

lemma classify_filter:
  "classify_devices stats t m = (filter (is_logging t m) stats, filter (\<lambda>d. \<not> is_logging t m d) stats)"
proof -
  have "foldl (\<lambda>(logging, silent) d. if is_logging t m d then (logging @ [d], silent)
              else (logging, silent @ [d])) (a, b) stats =
          (a @ filter (is_logging t m) stats, b @ filter (\<lambda>d. \<not> is_logging t m d) stats)" for a b
    by (induction stats arbitrary: a b) auto
  then show ?thesis by (simp add: classify_devices_def)
qed

lemma sort_key_take_min:
  assumes "x \<in> set (take n (sort_key f xs))" and "y \<in> set (drop n (sort_key f xs))"
  shows "f x \<le> f y"
proof -
  have "sorted (map f (take n (sort_key f xs) @ drop n (sort_key f xs)))" by simp
  with assms show ?thesis by (simp only: map_append sorted_append) auto
qed

text \<open>The detail row of a device.\<close>

definition detail_of :: "(rat \<Rightarrow> string) \<Rightarrow> log_stat \<Rightarrow> silent_detail" where
  "detail_of isofmt d =
     \<lparr>sd_devid = ls_devid d, sd_devname = ls_devname d, sd_last_log_at = map_option isofmt (last_log d)\<rparr>"

text \<open>The drill-down list of the silent devices is the most severe ones: it has one row for each of
  the first 50 of a list that holds the same devices, ordered so that those that never logged
  come first and then the longest silent, with ties in input order; no omitted device is more
  severe than a listed one, and the time of a row is missing exactly when the device never
  logged.\<close>

theorem silent_details_most_severe:
  "\<exists>shown omitted.
     build_silent_details isofmt silent SILENT_DETAILS_MAX = map (detail_of isofmt) shown \<and>
     mset (shown @ omitted) = mset silent \<and> length shown = min 50 (length silent) \<and>
     sorted (map severity_key shown) \<and>
     list_all (\<lambda>x. list_all (\<lambda>y. severity_key x \<le> severity_key y) omitted) shown \<and>
     (\<forall>k. filter (\<lambda>d. severity_key d = k) (shown @ omitted) = filter (\<lambda>d. severity_key d = k) silent)"
proof (intro exI conjI)
  let ?s = "sort_key severity_key silent"
  show "build_silent_details isofmt silent SILENT_DETAILS_MAX = map (detail_of isofmt) (take 50 ?s)"
    by (simp add: build_silent_details_def detail_of_def SILENT_DETAILS_MAX_def)
  show "sorted (map severity_key (take 50 ?s))"
    by (metis sorted_sort_key sorted_wrt_take take_map)
  show "list_all (\<lambda>x. list_all (\<lambda>y. severity_key x \<le> severity_key y) (drop 50 ?s)) (take 50 ?s)"
    using sort_key_take_min by (fastforce simp: list_all_iff)
  show "\<forall>k. filter (\<lambda>d. severity_key d = k) (take 50 ?s @ drop 50 ?s) = filter (\<lambda>d. severity_key d = k) silent"
    by (simp add: sort_key_stable)
qed (simp_all add: min.commute mset_sort)

lemma severity_never_first:
  "last_log x = None \<Longrightarrow> severity_key x \<le> severity_key y"
  by (auto simp: severity_key_def less_eq_prod_def split: option.splits)

section \<open>A poll cycle\<close>

lemma map_of_merge_stats:
  "map_of (merge_stats stats d) k =
     (case find (\<lambda>s. ls_devid s = k) (rev stats) of Some s \<Rightarrow> Some s | None \<Rightarrow> map_of d k)"
  unfolding merge_stats_def
  by (induction stats arbitrary: d) (auto simp: find_append split: option.splits)

lemma wf_merge_stats: "wf_dict d \<Longrightarrow> wf_dict (merge_stats stats d)"
  unfolding merge_stats_def by (induction stats arbitrary: d) auto

text \<open>The records of the targets that answered, in target order.\<close>

definition answered_stats :: "(target \<Rightarrow> post) \<Rightarrow> target list \<Rightarrow> log_stat list" where
  "answered_stats post_of ts =
     concat (map (\<lambda>t. case poll_log_stats post_of t of Inl _ \<Rightarrow> [] | Inr stats \<Rightarrow> stats) (filter pollable ts))"

definition any_answered :: "(target \<Rightarrow> post) \<Rightarrow> target list \<Rightarrow> bool" where
  "any_answered post_of ts \<longleftrightarrow>
     list_ex (\<lambda>t. pollable t \<and> (case poll_log_stats post_of t of Inl _ \<Rightarrow> False | Inr _ \<Rightarrow> True)) ts"

lemma merge_stats_append: "merge_stats (xs @ ys) d = merge_stats ys (merge_stats xs d)"
  by (simp add: merge_stats_def)

lemma poll_targets_result:
  "\<exists>lg'. poll_targets post_of stamp ts (d, b, lg) =
     (merge_stats (answered_stats post_of ts) d, b \<or> any_answered post_of ts, lg')"
proof (induction ts arbitrary: d b lg)
  case (Cons t ts)
  show ?case
  proof (cases "pollable t")
    case True
    show ?thesis
    proof (cases "poll_log_stats post_of t")
      case (Inl e)
      with True Cons.IH show ?thesis by (simp add: answered_stats_def any_answered_def)
    next
      case (Inr stats)
      with True Cons.IH [of "merge_stats stats d" True lg] show ?thesis
        by (simp add: answered_stats_def any_answered_def merge_stats_append)
    qed
  qed (use Cons.IH in \<open>simp add: answered_stats_def any_answered_def\<close>)
qed (simp add: answered_stats_def any_answered_def merge_stats_def)

lemma merged_values_distinct:
  "wf_dict d \<Longrightarrow> \<forall>(k, s) \<in> set d. ls_devid s = k \<Longrightarrow> distinct (map ls_devid (dict_values d))"
proof -
  assume wf: "wf_dict d" and keys: "\<forall>(k, s) \<in> set d. ls_devid s = k"
  have "map ls_devid (dict_values d) = map fst d"
    using keys by (auto simp: dict_values_def)
  with wf show ?thesis by simp
qed

lemma merge_stats_keys:
  "\<forall>(k, s) \<in> set d. ls_devid s = k \<Longrightarrow> \<forall>(k, s) \<in> set (merge_stats stats d). ls_devid s = k"
proof (induction stats arbitrary: d)
  case (Cons s stats)
  have "set (dict_set (ls_devid s) s d) \<subseteq> insert (ls_devid s, s) (set d)"
    unfolding dict_set_def by (induction d) auto
  with Cons.prems have "\<forall>(k, s) \<in> set (dict_set (ls_devid s) s d). ls_devid s = k" by fastforce
  with Cons.IH show ?case by (simp add: merge_stats_def)
qed (simp add: merge_stats_def)

text \<open>The history row of a filled cache, and what a successful poll leaves behind.\<close>

definition totals_row :: "string \<Rightarrow> log_cache \<Rightarrow> rollup" where
  "totals_row collected c =
     \<lparr>ru_collected_at = collected, ru_logging = length (lc_logging c), ru_silent = length (lc_silent c),
      ru_lograte = sum_list (map ls_rate (lc_logging c))\<rparr>"

lemma poll_success:
  assumes "any_answered post_of (list_targets f)"
    and w'_def: "w' = poll_all_targets post_of isofmt t collected cutoff threshold f w"
  shows "lc_collected_at (lw_cache w') = Some collected"
    and "read_cache CACHE_KEY (lw_store w') = Some (lw_cache w')"
    and "lw_history w' = prune_old_rows cutoff (put_rollup (totals_row collected (lw_cache w')) (lw_history w))"
proof -
  obtain d lg where p: "poll_targets post_of collected (list_targets f) ([], False, lw_log w) = (d, True, lg)"
    using poll_targets_result [of post_of collected "list_targets f" "[]" False "lw_log w"] assms(1) by auto
  show "lc_collected_at (lw_cache w') = Some collected"
    and "read_cache CACHE_KEY (lw_store w') = Some (lw_cache w')"
    and "lw_history w' = prune_old_rows cutoff (put_rollup (totals_row collected (lw_cache w')) (lw_history w))"
    by (simp_all add: w'_def poll_all_targets_def p classify_filter Let_def totals_row_def put_rollup_def)
qed


section \<open>What a web worker reads\<close>

interpretation log_reads: read_through_cache log_cache_filled log_cache_takeover log_cache_filled
  by unfold_locales (simp add: log_cache_takeover_def)

text \<open>One read by a web worker while the collector's table is \<open>tbl\<close>.\<close>

definition worker_read :: "log_cache cache_table \<Rightarrow> log_world \<Rightarrow> log_world" where
  "worker_read tbl w = snd (get_cached (w\<lparr>lw_store := tbl\<rparr>))"

lemma worker_reads_cache:
  "lw_cache (fold worker_read tbls w) =
     fold (read_through log_cache_filled log_cache_takeover) (map (read_cache CACHE_KEY) tbls) (lw_cache w)"
  by (induction tbls arbitrary: w) (simp_all add: worker_read_def get_cached_def Let_def)

text \<open>A web worker, which never polls itself, shows the first snapshot it ever reads for as long as
  it runs: once a read found the collector's snapshot \<open>c\<close>, every later read returns \<open>c\<close>,
  whatever snapshots the collector has written since.\<close>

theorem worker_snapshot_never_refreshed:
  assumes "lc_collected_at (lw_cache w) = None" and "read_cache CACHE_KEY tbl = Some c"
    and "lc_collected_at c \<noteq> None"
  shows "fst (get_cached ((fold worker_read (tbl # earlier) w)\<lparr>lw_store := latest\<rparr>)) = c"
proof -
  have "lw_cache (fold worker_read (tbl # earlier) w) = c"
    using log_reads.first_read_sticks [of "lw_cache w" c 0 "map (read_cache CACHE_KEY) earlier"] assms
    by (simp only: worker_reads_cache) (simp add: log_cache_filled_def log_cache_takeover_def)
  with assms(3) show ?thesis by (simp add: get_cached_def read_through_def log_cache_filled_def)
qed

definition snapshot_at :: "string \<Rightarrow> log_cache" where
  "snapshot_at t = empty_log_cache\<lparr>lc_collected_at := Some t\<rparr>"

lemma worker_snapshot_never_refreshed_witness:
  "let w = \<lparr>lw_cache = empty_log_cache, lw_store = [], lw_history = [], lw_log = init_logger\<rparr>;
       tbl = (\<lambda>t. write_cache CACHE_KEY (snapshot_at t) (Some t) [])
   in fst (get_cached ((fold worker_read [tbl ''10:00'', tbl ''10:05''] w)\<lparr>lw_store := tbl ''23:00''\<rparr>))
        = snapshot_at ''10:00''"
  unfolding Let_def
  by (rule worker_snapshot_never_refreshed) (simp_all add: empty_log_cache_def snapshot_at_def)

end
