(* ===== verification/ThreatStats.thy ===== *)
theory ThreatStats
  imports Polling History ReadThrough
begin

text \<open>
  \<^verbatim>\<open>app/threat_stats_cache.py\<close> and \<^verbatim>\<open>app/threat_stats_history.py\<close>: alert counts, IPS
  activity, administrator logins and VPN liveness over all appliances. One target is a sequence of
  calls (\<^theory_text>\<open>Polling\<close>); a poll of all targets merges the results into the cache, the snapshot
  table and the history. Names in the rows are JSON values; one that Python cannot hash (a list or
  an object) raises \<^verbatim>\<open>TypeError\<close> where it becomes a key. Clock readings are seconds; the time
  zone database and the ISO 8601 text are arguments. Long dashes of log messages are written as
  hyphens.
\<close>

section \<open>Business hours\<close>

text \<open>\<^verbatim>\<open>datetime.time(h, m)\<close>.\<close>

definition make_time :: "int \<Rightarrow> int \<Rightarrow> (int \<times> int) result" where
  "make_time h m =
     (if h < 0 \<or> h > 23 then Inl (ValueError ''hour must be in 0..23'')
      else if m < 0 \<or> m > 59 then Inl (ValueError ''minute must be in 0..59'')
      else Inr (h, m))"

definition parse_clock :: "string \<Rightarrow> (int \<times> int) result" where
  "parse_clock s =
     (let ints = map py_int (split_on (CHR '':'') s) in
      if None \<in> set ints then Inl (ValueError ''invalid literal'')
      else (case ints of
              [Some h, Some m] \<Rightarrow> Inr (h, m)
            | _ \<Rightarrow> Inl (ValueError ''values to unpack'')))"

definition parse_business_hours :: "string \<Rightarrow> ((int \<times> int) \<times> (int \<times> int)) result" where
  "parse_business_hours hours =
     (case partition_at (CHR ''-'') hours of (start_str, _, end_str) \<Rightarrow>
        bind_result (parse_clock start_str) (\<lambda>(start_h, start_m).
        bind_result (parse_clock end_str) (\<lambda>(end_h, end_m).
        bind_result (make_time start_h start_m) (\<lambda>start.
        bind_result (make_time end_h end_m) (\<lambda>end. Inr (start, end))))))"

text \<open>A time zone: the wall clock and its fold at an instant, and the instant of a wall clock.\<close>

record zone =
  z_local :: "rat \<Rightarrow> rat \<times> bool"
  z_utc :: "rat \<times> bool \<Rightarrow> rat"

definition DAY :: rat where "DAY = 86400"

text \<open>\<^verbatim>\<open>now_local.replace(hour=h, minute=m, second=0, microsecond=0)\<close>.\<close>

definition at_clock :: "rat \<Rightarrow> int \<times> int \<Rightarrow> rat" where
  "at_clock wall t = of_int \<lfloor>wall / DAY\<rfloor> * DAY + of_int (fst t * 3600 + snd t * 60)"

text \<open>The window in UTC; datetimes of one zone compare by their wall clocks.\<close>

definition business_window :: "zone \<Rightarrow> (int \<times> int) \<times> (int \<times> int) \<Rightarrow> rat \<Rightarrow> (rat \<times> rat) option" where
  "business_window z hours t =
     (let (wall, fold) = z_local z t;
          start = at_clock wall (fst hours);
          finish = min (at_clock wall (snd hours)) wall
      in if start \<ge> finish then None else Some (z_utc z (start, fold), z_utc z (finish, fold)))"

record threat_config =
  th_post :: "target \<Rightarrow> post"
  th_fuel :: nat
  th_clock :: "nat \<Rightarrow> nat \<Rightarrow> rat"
  th_show :: "json \<Rightarrow> string"
  th_convert :: "string \<Rightarrow> string \<Rightarrow> string option"
  th_iso :: "rat \<Rightarrow> string"
  th_hours :: string
  th_zone :: "zone option"
  th_hours_message :: "string \<Rightarrow> string"
  th_stamp :: string

definition warn_line :: "threat_config \<Rightarrow> string \<Rightarrow> unit call" where
  "warn_line tc message = log_line (app_log (th_stamp tc) ''WARN'' ''threat_stats_cache'' message [])"

definition time_range_call :: "threat_config \<Rightarrow> post \<Rightarrow> rat \<Rightarrow> rat \<Rightarrow> (string \<times> string) call" where
  "time_range_call tc post a b =
     on_client (\<lambda>c. case local_time_range (th_convert tc) post (th_iso tc a) (th_iso tc b) c of
                      (w, c') \<Rightarrow> Some (Inr w, c'))"

text \<open>\<^verbatim>\<open>_business_hours_range\<close>: a malformed setting is logged and counts as no window.\<close>

definition business_hours_range ::
  "threat_config \<Rightarrow> post \<Rightarrow> rat \<Rightarrow> (string \<times> string) option call" where
  "business_hours_range tc post t =
     (case (parse_business_hours (th_hours tc), th_zone tc) of
        (Inr hours, Some z) \<Rightarrow>
          (case business_window z hours t of
             None \<Rightarrow> call_return None
           | Some (a, b) \<Rightarrow>
               call_bind (time_range_call tc post a b) (\<lambda>w. call_return (Some w)))
      | _ \<Rightarrow> call_bind (warn_line tc (th_hours_message tc (th_hours tc))) (\<lambda>_. call_return None))"

section \<open>Rows of a FortiView answer\<close>

definition SEVERITIES :: "string list" where
  "SEVERITIES = [''critical'', ''high'', ''medium'', ''low'']"

text \<open>\<^verbatim>\<open>int(r.get(key, 0) or 0)\<close>.\<close>

definition int_field :: "string \<Rightarrow> (string, json) dict \<Rightarrow> int reply" where
  "int_field key r = json_int (json_or (dict_get r key (JInt 0)) (JInt 0))"

fun hashable :: "json \<Rightarrow> bool" where
  "hashable (JList _) = False"
| "hashable (JObj _) = False"
| "hashable _ = True"

definition hash_key :: "json \<Rightarrow> json reply" where
  "hash_key x = (if hashable x then Inr x else Inl (PyErr (TypeError ''unhashable type'')))"

text \<open>The first row of type \<^verbatim>\<open>ips\<close>; rows after it are not looked at.\<close>

definition ips_type :: "(string, json) dict \<Rightarrow> bool" where
  "ips_type r = (case dict_get r ''type'' (JStr []) of JStr s \<Rightarrow> lower (strip s) = ''ips'' | _ \<Rightarrow> False)"

fun first_ips :: "json list \<Rightarrow> (string, json) dict option reply" where
  "first_ips [] = Inr None"
| "first_ips (JObj r # rs) = (if ips_type r then Inr (Some r) else first_ips rs)"
| "first_ips (_ # rs) = Inl (PyErr (AttributeError ''get''))"

definition ips_row :: "json \<Rightarrow> (string, json) dict option reply" where
  "ips_row rows =
     (case rows of JList rs \<Rightarrow> first_ips rs | _ \<Rightarrow> bind_result (iterate_objects rows) (\<lambda>_. Inr None))"

definition ips_count :: "string \<Rightarrow> (string, json) dict option \<Rightarrow> int reply" where
  "ips_count key r = (case r of None \<Rightarrow> Inr 0 | Some r \<Rightarrow> if r = [] then Inr 0 else int_field key r)"

definition sum_field :: "string \<Rightarrow> json \<Rightarrow> int reply" where
  "sum_field key rows =
     bind_result (iterate_objects rows) (\<lambda>ds. bind_result (map_reply (int_field key) ds) (\<lambda>ns. Inr (sum_list ns)))"

type_synonym top_list = "(json \<times> int) list"

definition top_rows :: "string \<Rightarrow> string \<Rightarrow> json \<Rightarrow> top_list reply" where
  "top_rows name_key count_key rows =
     bind_result (iterate_objects rows)
       (map_reply (\<lambda>r. bind_result (int_field count_key r) (\<lambda>n. Inr (dict_get r name_key (JStr []), n))))"

definition failed_login_devices :: "json \<Rightarrow> json set reply" where
  "failed_login_devices rows =
     bind_result (iterate_objects rows) (\<lambda>ds.
     bind_result (map_reply (\<lambda>r. bind_result (int_field ''login_fail_num'' r) (\<lambda>n.
         if n > 0 then bind_result (hash_key (dict_get r ''fortigate'' (JStr []))) (\<lambda>d. Inr [d])
         else Inr [])) ds) (\<lambda>names.
       Inr (set (concat names) - {JStr []})))"

section \<open>VPN tunnels\<close>

type_synonym tunnel = "json \<times> json"

definition tunnel_name :: "(string, json) dict \<Rightarrow> json" where
  "tunnel_name r = json_or (json_or (dict_get r ''vpnname'' JNull) (dict_get r ''tunnelid'' JNull)) (JStr [])"

definition tunnel_key :: "(string, json) dict \<Rightarrow> tunnel" where
  "tunnel_key r = (dict_get r ''dvid'' (JStr []), tunnel_name r)"

definition is_open :: "string \<Rightarrow> (string, json) dict \<Rightarrow> bool" where
  "is_open end_key r \<longleftrightarrow> \<not> truthy (dict_get r end_key JNull)"

fun tunnel_states :: "(string, json) dict list \<Rightarrow> (tunnel, bool) dict \<Rightarrow> (tunnel, bool) dict reply" where
  "tunnel_states [] up = Inr up"
| "tunnel_states (r # rs) up =
     (if \<not> truthy (tunnel_name r) then tunnel_states rs up
      else if \<not> (hashable (fst (tunnel_key r)) \<and> hashable (snd (tunnel_key r)))
        then Inl (PyErr (TypeError ''unhashable type''))
      else tunnel_states rs
             (dict_set (tunnel_key r) (dict_get up (tunnel_key r) False \<or> is_open ''e_time'' r) up))"

definition ssl_user :: "(string, json) dict \<Rightarrow> tunnel" where
  "ssl_user r = (dict_get r ''dvid'' (JStr []), dict_get r ''f_user'' (JStr []))"

definition ssl_users_now :: "json \<Rightarrow> tunnel set reply" where
  "ssl_users_now rows =
     bind_result (iterate_objects rows) (\<lambda>ds.
       let live = filter (\<lambda>r. is_open ''end_time'' r \<and> truthy (dict_get r ''f_user'' JNull)) ds in
       if list_all (\<lambda>r. hashable (fst (ssl_user r)) \<and> hashable (snd (ssl_user r))) live
       then Inr (set (map ssl_user live))
       else Inl (PyErr (TypeError ''unhashable type'')))"

section \<open>One target\<close>

record target_threats =
  tt_alerts :: int
  tt_by_severity :: "(string \<times> int) list"
  tt_detections :: int
  tt_blocked :: int
  tt_signatures :: top_list
  tt_countries :: top_list
  tt_failed_logins :: int
  tt_failed_devices :: "json set"
  tt_failed_sources :: top_list
  tt_outside_hours :: int
  tt_tunnels :: "tunnel set"
  tt_tunnels_up :: "tunnel set"
  tt_ssl_users :: "tunnel set"

definition alerts_call :: "post \<Rightarrow> string \<Rightarrow> int call" where
  "alerts_call post flt = on_client (\<lambda>c. Some (get_alert_counts post (c_adom c) flt c))"

text \<open>Each FortiView run reads its own clock, named by the request it starts with; its timeout is the
  default of 60 seconds.\<close>

definition view_call ::
  "threat_config \<Rightarrow> post \<Rightarrow> string \<Rightarrow> string \<times> string \<Rightarrow> int \<Rightarrow> string option \<Rightarrow> json call" where
  "view_call tc post view time_range limit flt =
     on_client (\<lambda>c. run_fortiview (th_fuel tc) (th_clock tc (c_req_id c)) post (th_show tc) (c_adom c) view
                       time_range limit flt 60 c)"

definition truncated_message :: "string \<Rightarrow> int \<Rightarrow> string \<Rightarrow> string" where
  "truncated_message view n metric =
     view @ '' FortiView returned '' @ show_int n
     @ '' rows (>= limit=1000) - results may be truncated, which can silently skew '' @ metric"

definition warn_truncated :: "threat_config \<Rightarrow> string \<Rightarrow> string \<Rightarrow> json \<Rightarrow> unit call" where
  "warn_truncated tc view metric rows =
     call_bind (call_reply (json_length rows)) (\<lambda>n.
       if n \<ge> 1000 then warn_line tc (truncated_message view n metric) else call_return ())"

definition poll_one_target :: "threat_config \<Rightarrow> post \<Rightarrow> rat \<Rightarrow> target_threats call" where
  "poll_one_target tc post t =
     call_bind (alerts_call post ''ackflag=no'') (\<lambda>total.
     call_bind (call_map (\<lambda>sev. call_bind (alerts_call post (''ackflag=no and severity='' @ sev))
                  (\<lambda>n. call_return (sev, n))) SEVERITIES) (\<lambda>by_severity.
     call_bind (time_range_call tc post (t - DAY) t) (\<lambda>range24.
     call_bind (view_call tc post ''top-type'' range24 50 None) (\<lambda>type_rows.
     call_bind (call_reply (ips_row type_rows)) (\<lambda>ips.
     call_bind (call_reply (ips_count ''count'' ips)) (\<lambda>detections.
     call_bind (call_reply (ips_count ''blockedsessions'' ips)) (\<lambda>blocked.
     call_bind (view_call tc post ''top-threats'' range24 5 (Some ''type==ips'')) (\<lambda>signature_rows.
     call_bind (view_call tc post ''top-countries'' range24 5 (Some ''type==ips'')) (\<lambda>country_rows.
     call_bind (view_call tc post ''admin-logins'' range24 1000 None) (\<lambda>login_rows.
     call_bind (view_call tc post ''failed-authentication-attempts'' range24 1000 None) (\<lambda>failed_rows.
     call_bind (call_reply (sum_field ''login_fail_num'' login_rows)) (\<lambda>failed_logins.
     call_bind (call_reply (sum_field ''login_num'' login_rows)) (\<lambda>total_logins.
     call_bind (call_reply (failed_login_devices login_rows)) (\<lambda>failed_devices.
     call_bind (business_hours_range tc post t) (\<lambda>hours.
     call_bind (case hours of
                  None \<Rightarrow> call_return 0
                | Some w \<Rightarrow> call_bind (view_call tc post ''admin-logins'' w 1000 None)
                              (\<lambda>rows. call_reply (sum_field ''login_num'' rows))) (\<lambda>business_logins.
     call_bind (view_call tc post ''site-to-site-ipsec'' range24 1000 None) (\<lambda>site_rows.
     call_bind (view_call tc post ''ssl-dialup-ipsec'' range24 1000 None) (\<lambda>ssl_rows.
     call_bind (warn_truncated tc ''site-to-site-ipsec'' ''ipsec_tunnels_down'' site_rows) (\<lambda>_.
     call_bind (warn_truncated tc ''ssl-dialup-ipsec'' ''ssl_vpn_users_now'' ssl_rows) (\<lambda>_.
     call_bind (call_reply (bind_result (iterate_objects site_rows) (\<lambda>ds. tunnel_states ds []))) (\<lambda>up.
     call_bind (call_reply (ssl_users_now ssl_rows)) (\<lambda>ssl_users.
     call_bind (call_reply (top_rows ''threatname'' ''count'' signature_rows)) (\<lambda>signatures.
     call_bind (call_reply (top_rows ''srccountry'' ''count'' country_rows)) (\<lambda>countries.
     call_bind (call_reply (top_rows ''src_ip'' ''total_num'' failed_rows)) (\<lambda>sources.
       call_return
         \<lparr>tt_alerts = total, tt_by_severity = by_severity, tt_detections = detections,
          tt_blocked = blocked, tt_signatures = signatures, tt_countries = countries,
          tt_failed_logins = failed_logins, tt_failed_devices = failed_devices,
          tt_failed_sources = sources, tt_outside_hours = max (total_logins - business_logins) 0,
          tt_tunnels = set (map fst up), tt_tunnels_up = set (map fst (filter snd up)),
          tt_ssl_users = ssl_users\<rparr>)))))))))))))))))))))))))"

section \<open>The fleet\<close>

text \<open>Counts of one name are added up; the ranking is a stable sort, largest first.\<close>

definition add_count :: "json \<times> int \<Rightarrow> (json, int) dict \<Rightarrow> (json, int) dict" where
  "add_count row totals = dict_set (fst row) (dict_get totals (fst row) 0 + snd row) totals"

definition merge_top_lists :: "top_list list \<Rightarrow> nat \<Rightarrow> top_list result" where
  "merge_top_lists tops limit =
     (let rows = concat tops in
      if list_all (\<lambda>(x, _). hashable x) rows
      then Inr (take limit (sort_key (\<lambda>kv. - snd kv) (fold add_count rows [])))
      else Inl (TypeError ''unhashable type''))"

record threat_rollup =
  tr_collected_at :: string
  tr_alerts :: int
  tr_by_severity :: "(string \<times> int) list"
  tr_detections :: int
  tr_blocked :: int
  tr_blocked_pct :: rat
  tr_signatures :: top_list
  tr_countries :: top_list
  tr_failed_logins :: int
  tr_failed_devices :: nat
  tr_failed_sources :: top_list
  tr_outside_hours :: int
  tr_tunnels_total :: nat
  tr_tunnels_down :: nat
  tr_ssl_users :: nat

definition severity_count :: "string \<Rightarrow> target_threats \<Rightarrow> int" where
  "severity_count sev r = dict_get (tt_by_severity r) sev 0"

definition blocked_pct :: "int \<Rightarrow> int \<Rightarrow> rat" where
  "blocked_pct blocked detections =
     (if detections \<noteq> 0 then round_tenth (of_int blocked / of_int detections * 100) else 0)"

definition union_of :: "('a \<Rightarrow> 'b set) \<Rightarrow> 'a list \<Rightarrow> 'b set" where
  "union_of f rs = fold (\<lambda>r. (\<union>) (f r)) rs {}"

definition fleet_rollup :: "string \<Rightarrow> target_threats list \<Rightarrow> threat_rollup result" where
  "fleet_rollup collected rs =
     (let total = (\<lambda>f. sum_list (map f rs));
          tunnels = union_of tt_tunnels rs; up = union_of tt_tunnels_up rs
      in bind_result (merge_top_lists (map tt_signatures rs) 5) (\<lambda>signatures.
         bind_result (merge_top_lists (map tt_countries rs) 5) (\<lambda>countries.
         bind_result (merge_top_lists (map tt_failed_sources rs) 5) (\<lambda>sources.
           Inr \<lparr>tr_collected_at = collected, tr_alerts = total tt_alerts,
                tr_by_severity = map (\<lambda>sev. (sev, total (severity_count sev))) SEVERITIES,
                tr_detections = total tt_detections, tr_blocked = total tt_blocked,
                tr_blocked_pct = blocked_pct (total tt_blocked) (total tt_detections),
                tr_signatures = signatures, tr_countries = countries,
                tr_failed_logins = total tt_failed_logins,
                tr_failed_devices = card (union_of tt_failed_devices rs),
                tr_failed_sources = sources, tr_outside_hours = total tt_outside_hours,
                tr_tunnels_total = card tunnels, tr_tunnels_down = card (tunnels - up),
                tr_ssl_users = card (union_of tt_ssl_users rs)\<rparr>))))"

section \<open>History, cache and poll\<close>

text \<open>A row of the table holds the fields of a rollup (the lists as JSON text, read back as they were).\<close>

definition write_rollup :: "threat_rollup \<Rightarrow> threat_rollup list \<Rightarrow> threat_rollup list" where
  "write_rollup r rows = rows @ [r]"

definition get_latest_rollup :: "threat_rollup list \<Rightarrow> threat_rollup option" where
  "get_latest_rollup rows = newest_row tr_collected_at rows"

definition prune_old_rows :: "string \<Rightarrow> threat_rollup list \<Rightarrow> threat_rollup list" where
  "prune_old_rows cutoff rows = filter (\<lambda>r. \<not> tr_collected_at r < cutoff) rows"

interpretation threat_rows: latest_table tr_collected_at write_rollup prune_old_rows get_latest_rollup
  by unfold_locales
    (auto simp: write_rollup_def prune_old_rows_def get_latest_rollup_def newest_row_laws mset_filter)

text \<open>The cache is empty (zeros and no time, \<^verbatim>\<open>_EMPTY_CACHE\<close>) until the first poll or read.\<close>

definition CACHE_KEY :: string where "CACHE_KEY = ''threat_stats''"

record threat_world =
  tw_cache :: "threat_rollup option"
  tw_store :: "threat_rollup cache_table"
  tw_history :: "threat_rollup list"
  tw_log :: logger

definition empty_threat_cache :: "threat_rollup" where
  "empty_threat_cache =
     \<lparr>tr_collected_at = [], tr_alerts = 0, tr_by_severity = map (\<lambda>sev. (sev, 0)) SEVERITIES,
      tr_detections = 0, tr_blocked = 0, tr_blocked_pct = 0, tr_signatures = [], tr_countries = [],
      tr_failed_logins = 0, tr_failed_devices = 0, tr_failed_sources = [], tr_outside_hours = 0,
      tr_tunnels_total = 0, tr_tunnels_down = 0, tr_ssl_users = 0\<rparr>"

definition threat_takeover :: "threat_rollup option \<Rightarrow> threat_rollup \<Rightarrow> threat_rollup option" where
  "threat_takeover c stored = Some stored"

definition get_cached :: "threat_world \<Rightarrow> threat_rollup option \<times> threat_world" where
  "get_cached w =
     (let c = read_through (\<lambda>c. c \<noteq> None) threat_takeover (read_cache CACHE_KEY (tw_store w)) (tw_cache w)
      in (c, w\<lparr>tw_cache := c\<rparr>))"

interpretation threat_reads: read_through_cache "\<lambda>c. c \<noteq> None" threat_takeover "\<lambda>_. True"
  by unfold_locales (simp add: threat_takeover_def)

definition threat_pollable :: "target \<Rightarrow> bool" where
  "threat_pollable t \<longleftrightarrow> pollable t \<and> or_default True (threat_poll_enabled t)"

fun poll_targets ::
  "threat_config \<Rightarrow> rat \<Rightarrow> target list \<Rightarrow> target_threats list \<times> logger
   \<Rightarrow> (target_threats list \<times> logger) option" where
  "poll_targets tc t [] acc = Some acc"
| "poll_targets tc t (x # xs) (results, lg) =
     (if \<not> threat_pollable x then poll_targets tc t xs (results, lg)
      else
        (case poll_one_target tc (th_post tc x) t (target_client x, lg) of
           None \<Rightarrow> None
         | Some (Inl e, (_, lg')) \<Rightarrow>
             poll_targets tc t xs
               (results, app_log (th_stamp tc) ''WARN'' ''threat_stats_cache''
                           (failure_message ''threat-stats'' x e) [] lg')
         | Some (Inr r, (_, lg')) \<Rightarrow> poll_targets tc t xs (results @ [r], lg')))"

text \<open>\<^verbatim>\<open>polled_ok\<close> is set exactly when a result was appended. An exception while merging leaves the
  function before the cache is written. \<open>None\<close> is out of fuel.\<close>

definition poll_all_targets ::
  "threat_config \<Rightarrow> rat \<Rightarrow> string \<Rightarrow> string \<Rightarrow> targets_file \<Rightarrow> threat_world
   \<Rightarrow> (unit result \<times> threat_world) option" where
  "poll_all_targets tc t collected cutoff f w =
     map_option (\<lambda>(results, lg).
        if results = [] then (Inr (), w\<lparr>tw_log := lg\<rparr>)
        else
          (case fleet_rollup collected results of
             Inl err \<Rightarrow> (Inl err, w\<lparr>tw_log := lg\<rparr>)
           | Inr r \<Rightarrow>
               (Inr (), \<lparr>tw_cache = Some r,
                         tw_store = write_cache CACHE_KEY r (Some collected) (tw_store w),
                         tw_history = prune_old_rows cutoff (write_rollup r (tw_history w)),
                         tw_log = lg\<rparr>)))
       (poll_targets tc t (list_targets f) ([], tw_log w))"

section \<open>Tunnel liveness\<close>

definition named_rows :: "(string, json) dict list \<Rightarrow> (string, json) dict list" where
  "named_rows ds = filter (\<lambda>r. truthy (tunnel_name r)) ds"

lemma tunnel_states_lookup:
  assumes "tunnel_states ds up = Inr up'"
  shows "map_of up' k =
    (if k \<in> tunnel_key ` set (named_rows ds)
     then Some (dict_get up k False \<or> (\<exists>r \<in> set (named_rows ds). tunnel_key r = k \<and> is_open ''e_time'' r))
     else map_of up k)"
  using assms
proof (induction ds up rule: tunnel_states.induct)
  case (2 r rs up)
  show ?case
  proof (cases "truthy (tunnel_name r)")
    case True
    with "2.prems" have h: "hashable (fst (tunnel_key r)) \<and> hashable (snd (tunnel_key r))"
      and st: "tunnel_states rs (dict_set (tunnel_key r) (dict_get up (tunnel_key r) False \<or> is_open ''e_time'' r) up)
        = Inr up'"
      by (simp_all split: if_splits)
    have IH: "map_of up' k =
        (if k \<in> tunnel_key ` set (named_rows rs)
         then Some (dict_get (dict_set (tunnel_key r) (dict_get up (tunnel_key r) False \<or> is_open ''e_time'' r) up) k False
                    \<or> (\<exists>r \<in> set (named_rows rs). tunnel_key r = k \<and> is_open ''e_time'' r))
         else map_of (dict_set (tunnel_key r) (dict_get up (tunnel_key r) False \<or> is_open ''e_time'' r) up) k)"
      by (rule "2.IH"(2)) (use True h st in simp_all)
    have n: "named_rows (r # rs) = r # named_rows rs" using True by (simp add: named_rows_def)
    show ?thesis unfolding IH n by (auto simp: dict_get_set image_iff)
  qed (use 2 in \<open>simp add: named_rows_def\<close>)
qed (simp add: named_rows_def)

lemma tunnel_states_wf: "tunnel_states ds up = Inr up' \<Longrightarrow> wf_dict up \<Longrightarrow> wf_dict up'"
  by (induction ds up rule: tunnel_states.induct) (auto split: if_splits)

lemma tunnel_states_sets:
  assumes "tunnel_states ds [] = Inr up"
  shows "set (map fst up) = tunnel_key ` set (named_rows ds)"
    and "set (map fst (filter snd up)) = tunnel_key ` set (filter (is_open ''e_time'') (named_rows ds))"
proof -
  note look = tunnel_states_lookup [OF assms]
  have "set (map fst up) = {k. map_of up k \<noteq> None}" by (auto simp: map_of_eq_None_iff)
  then show "set (map fst up) = tunnel_key ` set (named_rows ds)" by (simp add: look)
  have "k \<in> fst ` set (filter snd up) \<longleftrightarrow> map_of up k = Some True" for k
    using tunnel_states_wf [OF assms] by (force simp: map_of_eq_Some_iff)
  then have "set (map fst (filter snd up)) = {k. map_of up k = Some True}" by (simp add: set_eq_iff)
  also have "\<dots> = tunnel_key ` set (filter (is_open ''e_time'') (named_rows ds))"
    by (auto simp: look dict_get_def image_iff split: if_splits) metis+
  finally show "set (map fst (filter snd up)) = tunnel_key ` set (filter (is_open ''e_time'') (named_rows ds))" .
qed

section \<open>The merged top lists\<close>

text \<open>The reference: what a name counts over all rows.\<close>

definition fleet_total :: "(json \<times> int) list \<Rightarrow> json \<Rightarrow> int" where
  "fleet_total rows x = sum_list (map snd (filter (\<lambda>r. fst r = x) rows))"

lemma fleet_total_absent: "x \<notin> fst ` set rows \<Longrightarrow> fleet_total rows x = 0"
  unfolding fleet_total_def by (subst filter_False) auto

lemma fleet_total_Cons: "fleet_total (r # rows) x = (if fst r = x then snd r else 0) + fleet_total rows x"
  by (simp add: fleet_total_def)

lemma add_count_lookup:
  "map_of (add_count r d) x = (if x = fst r then Some (dict_get d x 0 + snd r) else map_of d x)"
  by (simp add: add_count_def)

lemma dict_get_add_count: "dict_get (add_count r d) x 0 = dict_get d x 0 + (if x = fst r then snd r else 0)"
  by (simp add: add_count_def dict_get_set)

lemma add_counts_lookup:
  "map_of (fold add_count rows d) x =
     (if x \<in> fst ` set rows then Some (dict_get d x 0 + fleet_total rows x) else map_of d x)"
proof (induction rows arbitrary: d)
  case (Cons r rows)
  show ?case
    by (cases "x \<in> fst ` set rows")
      (auto simp: Cons.IH add_count_lookup dict_get_add_count fleet_total_Cons fleet_total_absent)
qed simp

lemma add_counts_wf: "wf_dict d \<Longrightarrow> wf_dict (fold add_count rows d)"
  by (induction rows arbitrary: d) (simp_all add: add_count_def)

lemma add_counts_items: "(x, n) \<in> set (fold add_count rows []) \<longleftrightarrow> x \<in> fst ` set rows \<and> n = fleet_total rows x"
proof -
  have "wf_dict (fold add_count rows [])" by (simp add: add_counts_wf)
  then have "(x, n) \<in> set (fold add_count rows []) \<longleftrightarrow> map_of (fold add_count rows []) x = Some n"
    by (simp add: map_of_eq_Some_iff)
  then show ?thesis by (auto simp: add_counts_lookup dict_get_def)
qed

lemma sorted_take_drop:
  assumes "sorted (map f xs)" and "a \<in> set (take n xs)" and "b \<in> set (drop n xs)"
  shows "f a \<le> f b"
proof -
  have "sorted (map f (take n xs @ drop n xs))" using assms(1) by simp
  with assms(2,3) show ?thesis by (simp only: map_append sorted_append) auto
qed

lemma top_counts_spec:
  assumes "out = take k (sort_key (\<lambda>kv. - snd kv) (fold add_count rows []))"
  shows "distinct (map fst out)"
    and "(x, n) \<in> set out \<Longrightarrow> x \<in> fst ` set rows \<and> n = fleet_total rows x"
    and "sorted (rev (map snd out))"
    and "length out = min k (card (fst ` set rows))"
    and "x \<in> fst ` set rows \<Longrightarrow> x \<in> fst ` set out \<or> (\<forall>p \<in> set out. fleet_total rows x \<le> snd p)"
proof -
  let ?s = "sort_key (\<lambda>kv. - snd kv) (fold add_count rows [])"
  note out = assms
  have wf: "wf_dict (fold add_count rows [])" by (simp add: add_counts_wf)
  have items: "(x, n) \<in> set ?s \<longleftrightarrow> x \<in> fst ` set rows \<and> n = fleet_total rows x" for x n
    using add_counts_items [of x n rows] by simp
  have dist: "distinct (map fst ?s)"
    using wf by (metis mset_sort mset_map mset_eq_imp_distinct_iff)
  then show "distinct (map fst out)" unfolding out by (metis distinct_take take_map)
  show "x \<in> fst ` set rows \<and> n = fleet_total rows x" if "(x, n) \<in> set out"
  proof -
    have "(x, n) \<in> set ?s" using that unfolding out by (rule in_set_takeD)
    then show ?thesis by (simp only: items)
  qed
  have keys: "fst ` set ?s = fst ` set rows"
  proof -
    have "fst ` set ?s = {x. map_of (fold add_count rows []) x \<noteq> None}"
      by (auto simp: map_of_eq_None_iff)
    then show ?thesis by (simp add: add_counts_lookup)
  qed
  have "length ?s = card (fst ` set ?s)" using dist by (metis distinct_card length_map set_map)
  then show "length out = min k (card (fst ` set rows))"
    unfolding out keys by (simp add: min.commute)
  have srt: "sorted (map (\<lambda>kv. - snd kv) ?s)" by simp
  then have "sorted (map (\<lambda>kv. - snd kv) out)" unfolding out by (metis sorted_wrt_take take_map)
  then show "sorted (rev (map snd out))" by (simp add: sorted_wrt_rev sorted_wrt_map)
  show "x \<in> fst ` set out \<or> (\<forall>p \<in> set out. fleet_total rows x \<le> snd p)" if "x \<in> fst ` set rows"
  proof -
    have "(x, fleet_total rows x) \<in> set (take k ?s) \<or> (x, fleet_total rows x) \<in> set (drop k ?s)"
      using items [of x] that by (metis UnE append_take_drop_id set_append)
    with sorted_take_drop [OF srt] show ?thesis unfolding out by force
  qed
qed

text \<open>C25. The merged top list is the fleet's: every entry carries the sum of the counts of all rows of
  that name, over all targets; each name occurs once, the entries are in descending order, there
  are as many as the limit allows, and no name that was left out counts more than one that was
  kept. The merge fails exactly when some name cannot be hashed.\<close>

theorem merge_top_lists_spec:
  "case merge_top_lists tops k of
     Inl _ \<Rightarrow> \<not> list_all (hashable \<circ> fst) (concat tops)
   | Inr out \<Rightarrow>
       list_all (hashable \<circ> fst) (concat tops) \<and>
       distinct (map fst out) \<and>
       list_all (\<lambda>(x, n). x \<in> fst ` set (concat tops) \<and> n = fleet_total (concat tops) x) out \<and>
       sorted (rev (map snd out)) \<and>
       length out = min k (card (fst ` set (concat tops))) \<and>
       list_all (\<lambda>x. x \<in> fst ` set out \<or> list_all (\<lambda>(_, n). fleet_total (concat tops) x \<le> n) out)
         (map fst (concat tops))"
proof (cases "list_all (\<lambda>(x, _). hashable x) (concat tops)")
  case False
  then show ?thesis by (simp add: merge_top_lists_def case_prod_unfold comp_def)
next
  case True
  define rows where "rows = concat tops"
  define out where "out = take k (sort_key (\<lambda>kv. - snd kv) (fold add_count rows []))"
  note spec = top_counts_spec [OF out_def]
  have "list_all (hashable \<circ> fst) rows" using True by (simp add: rows_def case_prod_unfold comp_def)
  moreover have "list_all (\<lambda>(x, n). x \<in> fst ` set rows \<and> n = fleet_total rows x) out"
    using spec(2) by (auto simp: list_all_iff)
  moreover have "list_all (\<lambda>x. x \<in> fst ` set out \<or> list_all (\<lambda>(_, n). fleet_total rows x \<le> n) out) (map fst rows)"
    using spec(5) by (fastforce simp: list_all_iff)
  moreover have "merge_top_lists tops k = Inr out"
    using True by (simp add: merge_top_lists_def out_def rows_def)
  ultimately show ?thesis using spec(1,3,4) unfolding rows_def by simp
qed

section \<open>A poll of one target\<close>

lemmas target_call_defs = alerts_call_def time_range_call_def view_call_def warn_line_def

lemma blind_hours: "log_blind (business_hours_range tc post t)"
  unfolding business_hours_range_def target_call_defs
  by (auto intro!: blind_intros split: sum.split option.split prod.split)

lemma blind_poll_one_target: "log_blind (poll_one_target tc post t)"
  unfolding poll_one_target_def warn_truncated_def target_call_defs
  by (intro blind_intros blind_hours)

text \<open>Every FortiView clock is paced and the fuel covers the timeout of 60 seconds.\<close>

definition enough_fuel :: "threat_config \<Rightarrow> bool" where
  "enough_fuel tc \<longleftrightarrow>
     (\<exists>pause n. (\<forall>i. paced pause (th_clock tc i)) \<and> 60 \<le> of_nat n * pause \<and> th_fuel tc = Suc n)"

lemma ends_view_call:
  assumes "enough_fuel tc"
  shows "ends (view_call tc post view w limit flt)"
proof -
  obtain pause n where p: "\<And>i. paced pause (th_clock tc i)" "60 \<le> of_nat n * pause" "th_fuel tc = Suc n"
    using assms by (auto simp: enough_fuel_def)
  show ?thesis
    unfolding view_call_def p(3) by (intro ends_on_client fortiview_ends [OF p(1,2)])
qed

lemma ends_time_range: "ends (time_range_call tc post a b)"
  unfolding time_range_call_def by (intro ends_on_client) (simp split: prod.split)

lemma ends_hours: "ends (business_hours_range tc post t)"
  unfolding business_hours_range_def warn_line_def
  by (auto intro!: ends_intros ends_time_range split: sum.split option.split prod.split)

lemma ends_alerts: "ends (alerts_call post flt)"
  unfolding alerts_call_def by (intro ends_on_client) simp

lemma ends_poll_one_target: "enough_fuel tc \<Longrightarrow> ends (poll_one_target tc post t)"
  unfolding poll_one_target_def warn_truncated_def warn_line_def
  by (intro ends_intros ends_hours ends_time_range ends_alerts ends_view_call)

section \<open>A poll of all targets\<close>

text \<open>What polling one target alone gives.\<close>

definition reading :: "threat_config \<Rightarrow> rat \<Rightarrow> target \<Rightarrow> target_threats option" where
  "reading tc t x =
     (case poll_one_target tc (th_post tc x) t (target_client x, init_logger) of
        Some (Inr r, _) \<Rightarrow> Some r
      | _ \<Rightarrow> None)"

lemma reading_any_log:
  "poll_one_target tc (th_post tc x) t (target_client x, lg) = Some (v, (c', lg')) \<Longrightarrow>
     reading tc t x = (case v of Inl _ \<Rightarrow> None | Inr r \<Rightarrow> Some r)"
proof -
  assume p: "poll_one_target tc (th_post tc x) t (target_client x, lg) = Some (v, (c', lg'))"
  have "outcome (poll_one_target tc (th_post tc x) t (target_client x, init_logger)) = Some (v, c')"
    using blind_poll_one_target [of tc "th_post tc x" t] p by (simp add: log_blind_def) (metis outcome_simps(2))
  then obtain lg2 where "poll_one_target tc (th_post tc x) t (target_client x, init_logger) = Some (v, (c', lg2))"
    by (auto simp: outcome_def)
  then show ?thesis by (simp add: reading_def split: sum.split)
qed

definition readings :: "threat_config \<Rightarrow> rat \<Rightarrow> target list \<Rightarrow> target_threats list" where
  "readings tc t ts = List.map_filter (reading tc t) (filter threat_pollable ts)"

lemma poll_targets_readings:
  "poll_targets tc t ts (rs, lg) = Some (rs', lg') \<Longrightarrow> rs' = rs @ readings tc t ts"
proof (induction ts arbitrary: rs lg)
  case (Cons x ts)
  show ?case
  proof (cases "threat_pollable x")
    case True
    with Cons.prems obtain v c1 lg1 where
      p: "poll_one_target tc (th_post tc x) t (target_client x, lg) = Some (v, (c1, lg1))"
      by (auto split: option.splits)
    show ?thesis
    proof (cases v)
      case (Inl err)
      with Cons.prems True p have "rs' = rs @ readings tc t ts" by (intro Cons.IH) simp
      with Inl True reading_any_log [OF p] show ?thesis by (simp add: readings_def map_filter_simps)
    next
      case (Inr r)
      with Cons.prems True p have "rs' = (rs @ [r]) @ readings tc t ts" by (intro Cons.IH) simp
      with Inr True reading_any_log [OF p] show ?thesis by (simp add: readings_def map_filter_simps)
    qed
  qed (use Cons in \<open>simp add: readings_def\<close>)
qed (simp add: readings_def map_filter_simps)

lemma poll_targets_ends: "enough_fuel tc \<Longrightarrow> poll_targets tc t ts acc \<noteq> None"
proof (induction ts arbitrary: acc)
  case (Cons x ts)
  obtain rs lg where acc: "acc = (rs, lg)" by (cases acc)
  have e: "poll_one_target tc (th_post tc x) t (target_client x, lg) \<noteq> None"
    using ends_poll_one_target [OF Cons.prems] by (auto simp: ends_def)
  show ?case using Cons e unfolding acc by (auto split: sum.split prod.split)
qed simp

text \<open>C13. A threat poll is all or nothing and adds up. With fuel for the timeouts it always comes back.
  When no enabled target answers, the cache, the snapshot and the history stay as they were.
  Otherwise the totals are exactly those of the readings of the targets that answered (each as if
  polled alone), and cache, snapshot and newest history row are one and the same rollup; when the
  names cannot be merged, the poll raises and all three stay as they were.\<close>

theorem threat_poll_accounts:
  assumes "enough_fuel tc"
  shows "\<exists>res w'. poll_all_targets tc t collected cutoff f w = Some (res, w') \<and>
    (if readings tc t (list_targets f) = []
     then res = Inr () \<and> tw_cache w' = tw_cache w \<and> tw_store w' = tw_store w \<and> tw_history w' = tw_history w
     else case fleet_rollup collected (readings tc t (list_targets f)) of
            Inl err \<Rightarrow>
              res = Inl err \<and> tw_cache w' = tw_cache w \<and> tw_store w' = tw_store w \<and>
              tw_history w' = tw_history w
          | Inr r \<Rightarrow>
              res = Inr () \<and> tw_cache w' = Some r \<and> read_cache CACHE_KEY (tw_store w') = Some r \<and>
              tw_history w' = prune_old_rows cutoff (tw_history w @ [r]))"
proof -
  obtain rs lg where p: "poll_targets tc t (list_targets f) ([], tw_log w) = Some (rs, lg)"
    using poll_targets_ends [OF assms, of t "list_targets f" "([], tw_log w)"] by auto
  then have rs: "rs = readings tc t (list_targets f)" using poll_targets_readings by fastforce
  show ?thesis
    using p unfolding poll_all_targets_def rs
    by (cases "fleet_rollup collected (readings tc t (list_targets f))") (auto simp: write_rollup_def)
qed

lemma threat_poll_success:
  assumes "poll_all_targets tc t collected cutoff f w = Some (Inr (), w')" and "tw_cache w' \<noteq> tw_cache w"
  obtains r where "tr_collected_at r = collected" and "tw_cache w' = Some r"
    and "read_cache CACHE_KEY (tw_store w') = Some r"
    and "tw_history w' = prune_old_rows cutoff (write_rollup r (tw_history w))"
proof -
  from assms obtain rs lg where rs: "poll_targets tc t (list_targets f) ([], tw_log w) = Some (rs, lg)"
    by (auto simp: poll_all_targets_def)
  with assms have "rs \<noteq> []" by (auto simp: poll_all_targets_def)
  with assms(1) rs obtain r where r: "fleet_rollup collected rs = Inr r"
    by (cases "fleet_rollup collected rs") (auto simp: poll_all_targets_def)
  then have "tr_collected_at r = collected"
    by (auto simp: fleet_rollup_def Let_def bind_result_Inr_iff)
  with assms(1) rs r \<open>rs \<noteq> []\<close> show thesis
    by (intro that [of r]) (auto simp: poll_all_targets_def)
qed

section \<open>What a reading says\<close>

text \<open>The rows a view of an appliance answered with.\<close>

definition answered_view :: "threat_config \<Rightarrow> post \<Rightarrow> string \<Rightarrow> (string, json) dict list \<Rightarrow> bool" where
  "answered_view tc post view ds \<longleftrightarrow>
     (\<exists>w s rows s'. returns (view_call tc post view w 1000 None) s rows s' \<and> iterate_objects rows = Inr ds)"

lemma poll_one_target_tunnels:
  assumes "returns (poll_one_target tc post t) s r s'"
  shows "\<exists>ds. answered_view tc post ''site-to-site-ipsec'' ds \<and>
    tt_tunnels r = tunnel_key ` set (named_rows ds) \<and>
    tt_tunnels_up r = tunnel_key ` set (filter (is_open ''e_time'') (named_rows ds)) \<and>
    0 \<le> tt_outside_hours r"
proof -
  obtain w s1 site_rows s2 up total business where
    v: "returns (view_call tc post ''site-to-site-ipsec'' w 1000 None) s1 site_rows s2"
    and u: "bind_result (iterate_objects site_rows) (\<lambda>ds. tunnel_states ds []) = Inr up"
    and r: "tt_tunnels r = set (map fst up)" "tt_tunnels_up r = set (map fst (filter snd up))"
      "tt_outside_hours r = max (total - business) 0"
    using assms unfolding poll_one_target_def returns_bind returns_reply returns_return
    by (elim exE conjE) (erule that; simp)
  from u obtain ds where ds: "iterate_objects site_rows = Inr ds" "tunnel_states ds [] = Inr up"
    by (auto simp: bind_result_Inr_iff)
  have a: "answered_view tc post ''site-to-site-ipsec'' ds" unfolding answered_view_def using v ds(1) by blast
  show ?thesis
    using r tunnel_states_sets [OF ds(2)] by (intro exI [of _ ds] conjI a) simp_all
qed

lemma reading_returns:
  "reading tc t x = Some r \<Longrightarrow> \<exists>s'. returns (poll_one_target tc (th_post tc x) t) (target_client x, init_logger) r s'"
  by (auto simp: reading_def returns_def split: option.splits sum.splits)

lemma union_of_set: "union_of f rs = (\<Union>r \<in> set rs. f r)"
proof -
  have "fold (\<lambda>r. (\<union>) (f r)) rs A = A \<union> (\<Union>r \<in> set rs. f r)" for A
    by (induction rs arbitrary: A) auto
  then show ?thesis by (simp add: union_of_def)
qed

text \<open>The targets a poll got a reading from, in the order of the file.\<close>

definition responders :: "threat_config \<Rightarrow> rat \<Rightarrow> target list \<Rightarrow> target list" where
  "responders tc t ts = filter (\<lambda>x. threat_pollable x \<and> reading tc t x \<noteq> None) ts"

lemma readings_responders: "list_all2 (\<lambda>x r. reading tc t x = Some r) (responders tc t ts) (readings tc t ts)"
  by (induction ts) (auto simp: responders_def readings_def map_filter_simps split: option.split)

lemma readings_tunnels:
  "\<exists>dss. list_all2 (\<lambda>x ds. answered_view tc (th_post tc x) ''site-to-site-ipsec'' ds) (responders tc t ts) dss \<and>
     (\<Union>r \<in> set (readings tc t ts). tt_tunnels r) = tunnel_key ` set (named_rows (concat dss)) \<and>
     (\<Union>r \<in> set (readings tc t ts). tt_tunnels_up r) =
       tunnel_key ` set (filter (is_open ''e_time'') (named_rows (concat dss)))"
  using readings_responders [of tc t ts]
proof (induction rule: list_all2_induct)
  case (Cons x xs r rs)
  from Cons(1) obtain s' where "returns (poll_one_target tc (th_post tc x) t) (target_client x, init_logger) r s'"
    using reading_returns by blast
  from poll_one_target_tunnels [OF this] obtain ds where
    ds: "answered_view tc (th_post tc x) ''site-to-site-ipsec'' ds"
    "tt_tunnels r = tunnel_key ` set (named_rows ds)"
    "tt_tunnels_up r = tunnel_key ` set (filter (is_open ''e_time'') (named_rows ds))" by blast
  from Cons.IH obtain dss where
    "list_all2 (\<lambda>x ds. answered_view tc (th_post tc x) ''site-to-site-ipsec'' ds) xs dss"
    "(\<Union>r \<in> set rs. tt_tunnels r) = tunnel_key ` set (named_rows (concat dss))"
    "(\<Union>r \<in> set rs. tt_tunnels_up r) = tunnel_key ` set (filter (is_open ''e_time'') (named_rows (concat dss)))"
    by (elim exE conjE) (rule that; assumption)
  note rest = this
  have n: "named_rows (concat (ds # dss)) = named_rows ds @ named_rows (concat dss)"
    by (simp add: named_rows_def)
  show ?case
  proof (intro exI [of _ "ds # dss"] conjI)
    show "list_all2 (\<lambda>x ds. answered_view tc (th_post tc x) ''site-to-site-ipsec'' ds) (x # xs) (ds # dss)"
      using ds(1) rest(1) by simp
  qed (simp_all only: n ds(2,3) rest(2,3) list.set UN_insert filter_append set_append image_Un)
qed (intro exI [of _ "[]"], simp add: named_rows_def)

lemma fleet_rollup_tunnels:
  assumes "fleet_rollup collected rs = Inr r"
  shows "tr_tunnels_total r = card (union_of tt_tunnels rs) \<and>
    tr_tunnels_down r = card (union_of tt_tunnels rs - union_of tt_tunnels_up rs)"
  using assms unfolding fleet_rollup_def Let_def bind_result_Inr_iff
  by (elim exE conjE) (simp only: sum.inject(2), hypsubst, simp)

text \<open>C24. The VPN figures of a poll mean what they say: over the site-to-site rows the responding
  appliances returned, the total is the number of distinct tunnels (device and name) that were
  seen, and the number down is that of the tunnels every one of whose sessions, on every
  appliance, has ended; rows without a name count for nothing.\<close>

theorem vpn_counts:
  assumes "fleet_rollup collected (readings tc t ts) = Inr r"
  shows "\<exists>dss. list_all2 (\<lambda>x ds. answered_view tc (th_post tc x) ''site-to-site-ipsec'' ds) (responders tc t ts) dss \<and>
    tr_tunnels_total r = card (tunnel_key ` set (named_rows (concat dss))) \<and>
    tr_tunnels_down r =
      card {k \<in> tunnel_key ` set (named_rows (concat dss)).
              list_all (\<lambda>d. if tunnel_key d = k then \<not> is_open ''e_time'' d else True) (named_rows (concat dss))} \<and>
    tr_tunnels_down r \<le> tr_tunnels_total r"
proof -
  obtain dss where dss:
    "list_all2 (\<lambda>x ds. answered_view tc (th_post tc x) ''site-to-site-ipsec'' ds) (responders tc t ts) dss"
    "(\<Union>r \<in> set (readings tc t ts). tt_tunnels r) = tunnel_key ` set (named_rows (concat dss))"
    "(\<Union>r \<in> set (readings tc t ts). tt_tunnels_up r) =
       tunnel_key ` set (filter (is_open ''e_time'') (named_rows (concat dss)))"
    using readings_tunnels [of tc t ts] by (elim exE conjE) (rule that; assumption)
  let ?rows = "named_rows (concat dss)"
  have r: "tr_tunnels_total r = card (tunnel_key ` set ?rows)"
    "tr_tunnels_down r = card (tunnel_key ` set ?rows - tunnel_key ` set (filter (is_open ''e_time'') ?rows))"
    using fleet_rollup_tunnels [OF assms] unfolding union_of_set dss(2,3) by simp_all
  have "tunnel_key ` set ?rows - tunnel_key ` set (filter (is_open ''e_time'') ?rows) =
      {k \<in> tunnel_key ` set ?rows. list_all (\<lambda>d. if tunnel_key d = k then \<not> is_open ''e_time'' d else True) ?rows}"
    by (auto simp: list_all_iff image_iff) (metis surj_pair)+
  moreover have "tr_tunnels_down r \<le> tr_tunnels_total r"
    unfolding r by (intro card_mono) auto
  ultimately show ?thesis using dss(1) r by (intro exI [of _ dss] conjI) simp_all
qed

section \<open>Business hours, characterised\<close>

definition two_digits :: "nat \<Rightarrow> string" where
  "two_digits n = [digit_char (n div 10), digit_char (n mod 10)]"

definition clock_text :: "nat \<Rightarrow> nat \<Rightarrow> string" where
  "clock_text h m = two_digits h @ CHR '':'' # two_digits m"

lemma two_digits_props:
  assumes "n < 100"
  shows "py_int (two_digits n) = Some (int n)" and "list_all ascii_digit (two_digits n)"
proof -
  have d: "n div 10 < 10" "n mod 10 < 10" using assms by auto
  show a: "list_all ascii_digit (two_digits n)" by (simp add: two_digits_def digit_char_props d)
  have "decimal_value (two_digits n) = n"
    by (simp add: two_digits_def decimal_value_def digit_char_props d)
  with py_int_digits [OF _ a] show "py_int (two_digits n) = Some (int n)" by (simp add: two_digits_def)
qed

lemma digits_no_sep: "list_all ascii_digit s \<Longrightarrow> CHR '':'' \<notin> set s \<and> CHR ''-'' \<notin> set s"
  by (auto simp: list_all_iff ascii_digit_def)

lemma clock_text_parses:
  assumes "h < 100" "m < 100"
  shows "parse_clock (clock_text h m) = Inr (int h, int m)" and "CHR ''-'' \<notin> set (clock_text h m)"
proof -
  note hp = two_digits_props [OF assms(1)] and mp = two_digits_props [OF assms(2)]
  have "split_on (CHR '':'') (clock_text h m) = [two_digits h, two_digits m]"
    using digits_no_sep [OF hp(2)] digits_no_sep [OF mp(2)]
    by (simp add: clock_text_def split_on_append_sep split_on_id)
  then show "parse_clock (clock_text h m) = Inr (int h, int m)"
    by (simp add: parse_clock_def hp(1) mp(1))
  show "CHR ''-'' \<notin> set (clock_text h m)"
    using digits_no_sep [OF hp(2)] digits_no_sep [OF mp(2)] by (simp add: clock_text_def)
qed

text \<open>The business-hours setting reads back what it says: every window written as
  \<^verbatim>\<open>HH:MM-HH:MM\<close> with hours up to 23 and minutes up to 59 parses to exactly those times, and
  with an hour from 24 to 99 it is refused.\<close>

theorem business_hours_roundtrip:
  assumes "h < 100" "h' < 24" "m < 60" "m' < 60"
  shows "parse_business_hours (clock_text h m @ CHR ''-'' # clock_text h' m') =
    (if h < 24 then Inr ((int h, int m), (int h', int m')) else Inl (ValueError ''hour must be in 0..23''))"
proof -
  have lt: "m < 100" "h' < 100" "m' < 100" using assms by auto
  have "partition_at (CHR ''-'') (clock_text h m @ CHR ''-'' # clock_text h' m') =
      (clock_text h m, True, clock_text h' m')"
    using partition_at_sep clock_text_parses(2) [OF assms(1) lt(1)] by blast
  with clock_text_parses(1) [OF assms(1) lt(1)] clock_text_parses(1) [OF lt(2,3)] assms show ?thesis
    by (simp add: parse_business_hours_def make_time_def)
qed

lemma business_hours_roundtrip_witness:
  "parse_business_hours (clock_text 8 0 @ CHR ''-'' # clock_text 18 30) = Inr ((8, 0), (18, 30)) \<and>
   parse_business_hours (clock_text 24 0 @ CHR ''-'' # clock_text 18 30) = Inl (ValueError ''hour must be in 0..23'')"
  using business_hours_roundtrip [of 8 18 0 30] business_hours_roundtrip [of 24 18 0 30] by simp

text \<open>\<open>minutes\<close> after midnight, and the second of the day of a wall clock.\<close>

definition minutes :: "int \<times> int \<Rightarrow> int" where
  "minutes c = fst c * 60 + snd c"

definition second_of_day :: "rat \<Rightarrow> rat" where
  "second_of_day wall = wall - of_int \<lfloor>wall / DAY\<rfloor> * DAY"

lemma at_clock_minutes: "at_clock wall c = of_int \<lfloor>wall / DAY\<rfloor> * DAY + 60 * of_int (minutes c)"
  by (simp add: at_clock_def minutes_def)

text \<open>C36. The window of an administrator's business hours is empty exactly when the day has not reached
  its start, or when it does not end after it starts: a window across midnight, such as
  \<^verbatim>\<open>22:00-06:00\<close>, is accepted and never opens. Otherwise it runs from the start on today's
  wall clock to its end or to now, whichever comes first.\<close>

theorem business_window_iff:
  "case z_local z t of (wall, fld) \<Rightarrow>
     let day = of_int \<lfloor>wall / DAY\<rfloor> * DAY; now = second_of_day wall;
         opens = 60 * of_int (minutes (fst hours)); closes = 60 * of_int (minutes (snd hours))
     in if minutes (snd hours) \<le> minutes (fst hours) \<or> now \<le> opens
        then business_window z hours t = None
        else business_window z hours t =
               Some (z_utc z (day + opens, fld), z_utc z (if now < closes then wall else day + closes, fld))"
proof -
  obtain wall fld where z: "z_local z t = (wall, fld)" by (metis surj_pair)
  have le: "(60 * of_int (minutes (snd hours)) \<le> (60 * of_int (minutes (fst hours)) :: rat)) \<longleftrightarrow>
      minutes (snd hours) \<le> minutes (fst hours)"
    by simp
  have min: "min (D + a) wall \<le> D + b \<longleftrightarrow> a \<le> b \<or> wall - D \<le> b" for D a b :: rat
    by (auto simp: min_def)
  have min': "min (D + a) wall = (if wall - D < a then wall else D + a)" for D a :: rat
    by (auto simp: min_def)
  show ?thesis
    unfolding z business_window_def Let_def prod.case at_clock_minutes second_of_day_def
    by (simp only: min le) (simp add: min')
qed

text \<open>The business-hours step cannot take a poll down: it always returns; a malformed window or an
  unknown zone gives no window, uses no call on the appliance and leaves one warning in the log,
  and a proper setting logs nothing.\<close>

theorem business_hours_degrade:
  "case business_hours_range tc post t (c, lg) of
     Some (Inr v, (c', lg')) \<Rightarrow>
       (case (parse_business_hours (th_hours tc), th_zone tc) of
          (Inr hours, Some z) \<Rightarrow> lg' = lg \<and> (v = None \<longleftrightarrow> business_window z hours t = None)
        | _ \<Rightarrow>
            v = None \<and> c' = c \<and>
            lg' = app_log (th_stamp tc) ''WARN'' ''threat_stats_cache''
                    (th_hours_message tc (th_hours tc)) [] lg)
   | _ \<Rightarrow> False"
proof (cases "parse_business_hours (th_hours tc)")
  case (Inl err)
  then show ?thesis by (simp add: business_hours_range_def call_bind_def warn_line_def log_line_def call_return_def)
next
  case (Inr hours)
  show ?thesis
  proof (cases "th_zone tc")
    case None
    with Inr show ?thesis
      by (simp add: business_hours_range_def call_bind_def warn_line_def log_line_def call_return_def)
  next
    case (Some z)
    with Inr show ?thesis
      by (cases "business_window z hours t")
        (auto simp: business_hours_range_def call_bind_def call_return_def time_range_call_def on_client_def
           split: prod.split)
  qed
qed

section \<open>A poll of one appliance, computed\<close>

definition sample_row :: "string \<Rightarrow> json \<Rightarrow> json" where
  "sample_row nm ended =
     JObj [(''vpnname'', JStr nm), (''dvid'', JStr ''fw1''), (''e_time'', ended), (''type'', JStr '' IPS''),
           (''count'', JInt 3), (''blockedsessions'', JInt 1), (''threatname'', JStr ''worm'')]"

definition sample_post :: post where
  "sample_post =
     (\<lambda>r. Inr (JObj [(''result'',
        JObj [(''tid'', JInt 1), (''percentage'', JInt 100),
              (''data'', JList [sample_row ''hq'' (JInt 5), sample_row ''dr'' (JInt 0)])])]))"

definition sample_config :: threat_config where
  "sample_config =
     \<lparr>th_post = (\<lambda>_. sample_post), th_fuel = 31, th_clock = (\<lambda>i k. 2 * of_nat k), th_show = (\<lambda>_. ''1''),
      th_convert = (\<lambda>z s. None), th_iso = (\<lambda>_. ''t''), th_hours = ''08:00-18:00'',
      th_zone = Some \<lparr>z_local = (\<lambda>t. (t, False)), z_utc = fst\<rparr>, th_hours_message = (\<lambda>h. h),
      th_stamp = ''s''\<rparr>"

definition sample_file :: targets_file where
  "sample_file =
     Content [build_entry ''dc1'' ''192.0.2.1'' ''root'' ''tok'' None True,
              build_entry ''lab'' ''192.0.2.2'' ''root'' ''tok'' None False]"

lemma sample_fuel: "enough_fuel sample_config"
  unfolding enough_fuel_def by (intro exI [of _ 2] exI [of _ 30]) (simp add: sample_config_def paced_def)

definition sample_rows :: json where
  "sample_rows = JList [sample_row ''hq'' (JInt 5), sample_row ''dr'' (JInt 0)]"

lemma sample_call:
  "call_api sample_post m u ps c =
     (Inr [(''tid'', JInt 1), (''percentage'', JInt 100), (''data'', sample_rows)], c\<lparr>c_req_id := Suc (c_req_id c)\<rparr>)"
  by (simp add: call_api_def sample_post_def unwrap_result_def check_status_def dict_get_def Let_def sample_rows_def)

lemma sample_poll:
  "poll_task 31 (\<lambda>k. 2 * of_nat k) sample_post u ps late 60 (Suc 0) c =
     Some (Inr [(''tid'', JInt 1), (''percentage'', JInt 100), (''data'', sample_rows)],
           c\<lparr>c_req_id := Suc (c_req_id c)\<rparr>)"
proof -
  have "31 = Suc 30" by simp
  then show ?thesis
    by (simp only: poll_task.simps) (simp add: sample_call done_percentage_def dict_get_def)
qed

lemma sample_view:
  "view_call sample_config sample_post v w k flt (c, lg) =
     Some (Inr sample_rows, (c\<lparr>c_req_id := Suc (Suc (c_req_id c))\<rparr>, lg))"
  by (simp add: view_call_def on_client_def run_fortiview_def submit_and_poll_def sample_call Let_def
      dict_get_def sample_config_def sample_poll)

lemma sample_alerts:
  "alerts_call sample_post flt (c, lg) = Some (Inr 3, (c\<lparr>c_req_id := Suc (c_req_id c)\<rparr>, lg))"
proof -
  have "alert_count_of [(''tid'', JInt 1), (''percentage'', JInt 100), (''data'', sample_rows)] = Inr 3"
    by code_simp
  then show ?thesis by (simp add: alerts_call_def on_client_def get_alert_counts_def sample_call)
qed

lemma sample_range:
  "time_range_call sample_config sample_post a b (c, lg) =
     Some (Inr (''t'', ''t''), (c\<lparr>c_req_id := Suc (c_req_id c)\<rparr>, lg))"
  by (simp add: time_range_call_def on_client_def local_time_range_def get_sys_status_def sample_call
      dict_get_def sample_rows_def) (simp add: sample_config_def)

lemma sample_hours: "business_hours_range sample_config sample_post 100000 = call_return None"
proof -
  have "parse_business_hours (th_hours sample_config) = Inr ((8, 0), (18, 0))"
    "business_window (the (th_zone sample_config)) ((8, 0), (18, 0)) 100000 = None"
    by code_simp+
  then show ?thesis
    by (simp add: business_hours_range_def) (simp add: sample_config_def)
qed

lemma sample_replies:
  "ips_row sample_rows = Inr (case sample_row ''hq'' (JInt 5) of JObj d \<Rightarrow> Some d)"
  "ips_count ''count'' (case sample_row ''hq'' (JInt 5) of JObj d \<Rightarrow> Some d) = Inr 3"
  "ips_count ''blockedsessions'' (case sample_row ''hq'' (JInt 5) of JObj d \<Rightarrow> Some d) = Inr 1"
  "sum_field ''login_fail_num'' sample_rows = Inr 0" "sum_field ''login_num'' sample_rows = Inr 0"
  "failed_login_devices sample_rows = Inr {}" "ssl_users_now sample_rows = Inr {}"
  "json_length sample_rows = Inr 2"
  "bind_result (iterate_objects sample_rows) (\<lambda>ds. tunnel_states ds []) =
     Inr [((JStr ''fw1'', JStr ''hq''), False), ((JStr ''fw1'', JStr ''dr''), True)]"
  "top_rows ''threatname'' ''count'' sample_rows = Inr [(JStr ''worm'', 3), (JStr ''worm'', 3)]"
  "top_rows ''srccountry'' ''count'' sample_rows = Inr [(JStr [], 3), (JStr [], 3)]"
  "top_rows ''src_ip'' ''total_num'' sample_rows = Inr [(JStr [], 0), (JStr [], 0)]"
  by code_simp+

definition sample_reading :: target_threats where
  "sample_reading =
     \<lparr>tt_alerts = 3, tt_by_severity = map (\<lambda>s. (s, 3)) SEVERITIES, tt_detections = 3, tt_blocked = 1,
      tt_signatures = [(JStr ''worm'', 3), (JStr ''worm'', 3)], tt_countries = [(JStr [], 3), (JStr [], 3)],
      tt_failed_logins = 0, tt_failed_devices = {}, tt_failed_sources = [(JStr [], 0), (JStr [], 0)],
      tt_outside_hours = 0, tt_tunnels = {(JStr ''fw1'', JStr ''hq''), (JStr ''fw1'', JStr ''dr'')},
      tt_tunnels_up = {(JStr ''fw1'', JStr ''dr'')}, tt_ssl_users = {}\<rparr>"

lemma sample_readings: "readings sample_config 100000 (list_targets sample_file) = [sample_reading]"
proof -
  let ?t = "build_entry ''dc1'' ''192.0.2.1'' ''root'' ''tok'' None True"
  have "th_post sample_config = (\<lambda>_. sample_post)" by (simp add: sample_config_def)
  then have "reading sample_config 100000 ?t = Some sample_reading"
    unfolding reading_def poll_one_target_def SEVERITIES_def call_map.simps
    by (simp add: call_bind_def sample_alerts sample_range sample_view sample_hours sample_replies
        call_reply_def call_return_def warn_truncated_def sample_reading_def SEVERITIES_def) force
  moreover have "filter threat_pollable (list_targets sample_file) = [?t]" by code_simp
  ultimately show ?thesis by (simp add: readings_def map_filter_simps)
qed

lemma sample_rollup:
  "case fleet_rollup ''now'' [sample_reading] of
     Inr r \<Rightarrow> tr_alerts r = 3 \<and> tr_blocked_pct r = 333 / 10 \<and> tr_tunnels_total r = 2 \<and> tr_tunnels_down r = 1 \<and>
       tr_signatures r = [(JStr ''worm'', 6)]
   | Inl _ \<Rightarrow> False"
  by code_simp

lemma sample_rollup_Inr:
  obtains r where "fleet_rollup ''now'' [sample_reading] = Inr r" "tr_alerts r = 3" "tr_tunnels_total r = 2"
    "tr_tunnels_down r = 1"
  using sample_rollup by (cases "fleet_rollup ''now'' [sample_reading]") auto

lemma threat_poll_accounts_witness:
  "let w = \<lparr>tw_cache = None, tw_store = [], tw_history = [], tw_log = init_logger\<rparr> in
   \<exists>w'. poll_all_targets sample_config 100000 ''now'' ''a'' sample_file w = Some (Inr (), w') \<and>
     map_option tr_alerts (tw_cache w') = Some 3 \<and> read_cache CACHE_KEY (tw_store w') = tw_cache w'"
proof -
  obtain r where r: "fleet_rollup ''now'' [sample_reading] = Inr r" "tr_alerts r = 3"
    using sample_rollup_Inr by metis
  show ?thesis
    unfolding Let_def
    using threat_poll_accounts [OF sample_fuel, of 100000 "''now''" "''a''" sample_file
        "\<lparr>tw_cache = None, tw_store = [], tw_history = [], tw_log = init_logger\<rparr>"] r
    by (auto simp: sample_readings)
qed

lemma vpn_counts_witness:
  "\<exists>r dss. fleet_rollup ''now'' [sample_reading] = Inr r \<and> tr_tunnels_total r = 2 \<and> tr_tunnels_down r = 1 \<and>
     card (tunnel_key ` set (named_rows (concat dss))) = 2"
proof -
  obtain r where r: "fleet_rollup ''now'' [sample_reading] = Inr r" "tr_tunnels_total r = 2"
    "tr_tunnels_down r = 1"
    using sample_rollup_Inr by metis
  have "fleet_rollup ''now'' (readings sample_config 100000 (list_targets sample_file)) = Inr r"
    using r(1) by (simp add: sample_readings)
  from vpn_counts [OF this] obtain dss where
    "tr_tunnels_total r = card (tunnel_key ` set (named_rows (concat dss)))"
    by (elim exE conjE) (rule that; assumption)
  with r show ?thesis by (intro exI [of _ r] exI [of _ dss]) simp
qed

end
