(* ===== verification/ExternalApi.thy ===== *)
theory ExternalApi
  imports LogUsage FazHealth LogStats ThreatStats UtcTime
begin

text \<open>
  \<^verbatim>\<open>app/routes/external_api_routes.py\<close>, the handlers behind the gate: the executive summary,
  which joins the health cards, the log statistics and the threat statistics (each from its cache,
  or from the newest row of its history while the cache is empty), and the wrapper of the log-usage
  search. The regular expression of the disk text is read as backtracking search: every
  sub-pattern is a function to the list of its matches in the order the engine tries them.
\<close>

section \<open>The disk text\<close>

text \<open>\<^verbatim>\<open>\w\<close> and the class \<^verbatim>\<open>[\d.]\<close>.\<close>

definition word_char :: "char \<Rightarrow> bool" where
  "word_char c \<longleftrightarrow> c = CHR ''_'' \<or> ascii_digit c \<or> is_upper c \<or> is_lower c
     \<or> list_ex (\<lambda>k. code c = k) [178, 179, 185, 188, 189, 190]"

definition number_char :: "char \<Rightarrow> bool" where
  "number_char c \<longleftrightarrow> ascii_digit c \<or> c = CHR ''.''"

text \<open>A greedy repetition: the matched text and the rest, longest match first.\<close>

fun star_matches :: "(char \<Rightarrow> bool) \<Rightarrow> string \<Rightarrow> (string \<times> string) list" where
  "star_matches p [] = [([], [])]"
| "star_matches p (c # s) =
     (if p c then map (\<lambda>(a, b). (c # a, b)) (star_matches p s) @ [([], c # s)] else [([], c # s)])"

definition plus_matches :: "(char \<Rightarrow> bool) \<Rightarrow> string \<Rightarrow> (string \<times> string) list" where
  "plus_matches p s = filter (\<lambda>(a, b). a \<noteq> []) (star_matches p s)"

definition literal_matches :: "string \<Rightarrow> string \<Rightarrow> string list" where
  "literal_matches w s = (if startswith w s then [drop (length w) s] else [])"

definition then_match :: "'a list \<Rightarrow> ('a \<Rightarrow> 'b list) \<Rightarrow> 'b list" where
  "then_match xs f = concat (map f xs)"

text \<open>\<^verbatim>\<open>\s+([\d.]+)\s*\w+\<close>: the captured number and the rest.\<close>

definition amount_matches :: "string \<Rightarrow> (string \<times> string) list" where
  "amount_matches s =
     then_match (plus_matches is_space s) (\<lambda>(_, r1).
     then_match (plus_matches number_char r1) (\<lambda>(n, r2).
     then_match (star_matches is_space r2) (\<lambda>(_, r3).
     map (\<lambda>(_, r4). (n, r4)) (plus_matches word_char r3))))"

definition usage_matches :: "string \<Rightarrow> (string \<times> string) list" where
  "usage_matches s =
     then_match (literal_matches ''Free'' s) (\<lambda>r1.
     then_match (amount_matches r1) (\<lambda>(free, r2).
     then_match (literal_matches '','' r2) (\<lambda>r3.
     then_match (star_matches is_space r3) (\<lambda>(_, r4).
     then_match (literal_matches ''Total'' r4) (\<lambda>r5.
     map (\<lambda>(total, _). (free, total)) (amount_matches r5))))))"

fun search_usage :: "string \<Rightarrow> (string \<times> string) option" where
  "search_usage [] = None"
| "search_usage (c # s) = (case usage_matches (c # s) of [] \<Rightarrow> search_usage s | m # _ \<Rightarrow> Some m)"

text \<open>\<^verbatim>\<open>float(s)\<close> of a text of digits and dots.\<close>

definition dotted_number :: "string \<Rightarrow> rat option" where
  "dotted_number s =
     (case partition_at (CHR ''.'') s of
        (a, dot, b) \<Rightarrow>
          if a @ b = [] \<or> CHR ''.'' \<in> set b then None
          else Some (of_nat (decimal_value (a @ b)) / 10 ^ length b))"

definition float_result :: "string \<Rightarrow> rat result" where
  "float_result s =
     (case dotted_number s of None \<Rightarrow> Inl (ValueError ''could not convert string to float'') | Some q \<Rightarrow> Inr q)"

definition parse_disk_used_pct :: "json \<Rightarrow> rat option result" where
  "parse_disk_used_pct disk_used =
     (if \<not> truthy disk_used then Inr None
      else
        (case disk_used of
           JStr s \<Rightarrow>
             (case search_usage s of
                None \<Rightarrow> Inr None
              | Some (f, t) \<Rightarrow>
                  bind_result (float_result f) (\<lambda>free. bind_result (float_result t) (\<lambda>total.
                    Inr (if total \<le> 0 then None else Some (round_tenth ((total - free) / total * 100))))))
         | _ \<Rightarrow> Inl (TypeError ''expected string or bytes-like object'')))"

section \<open>The parts of the summary\<close>

text \<open>\<^verbatim>\<open>None\<close> and \<^verbatim>\<open>"n/a"\<close> become \<^verbatim>\<open>None\<close>.\<close>

definition normalize_str :: "json \<Rightarrow> json" where
  "normalize_str v = (if v = JNull \<or> v = JStr ''n/a'' then JNull else v)"

record infra_item =
  in_label :: "string option"
  in_hostname :: json
  in_version :: json
  in_cpu :: "rat option"
  in_mem :: "rat option"
  in_disk_pct :: "rat option"
  in_ha_role :: json
  in_status :: string
  in_updated :: "string option"

definition infra_item_of :: "health_entry \<Rightarrow> infra_item result" where
  "infra_item_of t =
     bind_result (parse_disk_used_pct (he_disk_used t)) (\<lambda>pct.
       Inr \<lparr>in_label = he_label t, in_hostname = normalize_str (he_hostname t),
            in_version = normalize_str (he_version t), in_cpu = he_cpu t, in_mem = he_mem t,
            in_disk_pct = pct, in_ha_role = normalize_str (he_ha_role t), in_status = he_status t,
            in_updated = he_last_updated t\<rparr>)"

fun map_result :: "('a \<Rightarrow> 'b result) \<Rightarrow> 'a list \<Rightarrow> 'b list result" where
  "map_result f [] = Inr []"
| "map_result f (x # xs) = bind_result (f x) (\<lambda>y. bind_result (map_result f xs) (\<lambda>ys. Inr (y # ys)))"

definition build_infra_list :: "health_entry list \<Rightarrow> infra_item list result" where
  "build_infra_list targets = map_result infra_item_of targets"

text \<open>\<^verbatim>\<open>cache if cache.get("collected_at") is not None else (rollup or {})\<close>; every field is then read
  with the default of the empty cache.\<close>

definition threat_source :: "threat_rollup option \<Rightarrow> threat_rollup option \<Rightarrow> threat_rollup option" where
  "threat_source cache rollup = (case cache of Some c \<Rightarrow> Some c | None \<Rightarrow> rollup)"

record threats_view =
  tv_alerts :: int
  tv_by_severity :: "(string \<times> int) list"
  tv_detections :: int
  tv_blocked_pct :: rat
  tv_signatures :: top_list
  tv_countries :: top_list
  tv_collected_at :: "string option"

definition build_threats :: "threat_rollup option \<Rightarrow> threat_rollup option \<Rightarrow> threats_view" where
  "build_threats cache rollup =
     (let source = threat_source cache rollup; s = or_default empty_threat_cache source in
      \<lparr>tv_alerts = tr_alerts s, tv_by_severity = tr_by_severity s, tv_detections = tr_detections s,
       tv_blocked_pct = tr_blocked_pct s, tv_signatures = tr_signatures s, tv_countries = tr_countries s,
       tv_collected_at = map_option tr_collected_at source\<rparr>)"

record access_view =
  av_failed_logins :: int
  av_failed_devices :: nat
  av_failed_sources :: top_list
  av_outside_hours :: int
  av_business_hours :: string
  av_collected_at :: "string option"

definition build_admin_access :: "string \<Rightarrow> threat_rollup option \<Rightarrow> threat_rollup option \<Rightarrow> access_view" where
  "build_admin_access hours cache rollup =
     (let source = threat_source cache rollup; s = or_default empty_threat_cache source in
      \<lparr>av_failed_logins = tr_failed_logins s, av_failed_devices = tr_failed_devices s,
       av_failed_sources = tr_failed_sources s, av_outside_hours = tr_outside_hours s,
       av_business_hours = hours, av_collected_at = map_option tr_collected_at source\<rparr>)"

record vpn_view =
  vv_tunnels_total :: nat
  vv_tunnels_down :: nat
  vv_ssl_users :: nat
  vv_collected_at :: "string option"

definition build_vpn :: "threat_rollup option \<Rightarrow> threat_rollup option \<Rightarrow> vpn_view" where
  "build_vpn cache rollup =
     (let source = threat_source cache rollup; s = or_default empty_threat_cache source in
      \<lparr>vv_tunnels_total = tr_tunnels_total s, vv_tunnels_down = tr_tunnels_down s,
       vv_ssl_users = tr_ssl_users s, vv_collected_at = map_option tr_collected_at source\<rparr>)"

text \<open>\<^verbatim>\<open>max\<close> of a list, \<open>None\<close> for the empty one.\<close>

definition max_or_none :: "'a::linorder list \<Rightarrow> 'a option" where
  "max_or_none xs = (case xs of [] \<Rightarrow> None | y # ys \<Rightarrow> Some (foldl max y ys))"

definition faz_health_freshness :: "health_entry list \<Rightarrow> string option" where
  "faz_health_freshness targets =
     max_or_none (concat (map (\<lambda>t. case he_last_updated t of
                                     None \<Rightarrow> [] | Some s \<Rightarrow> if s = [] then [] else [s]) targets))"

record log_view =
  lv_logging :: nat
  lv_silent :: nat
  lv_details :: "silent_detail list"
  lv_rate :: rat
  lv_collected_at :: "string option"

definition log_section :: "log_world \<Rightarrow> log_view \<times> log_world" where
  "log_section w =
     (case LogStats.get_cached w of
        (c, w') \<Rightarrow>
          (if lc_collected_at c \<noteq> None
           then \<lparr>lv_logging = length (lc_logging c), lv_silent = length (lc_silent c),
                 lv_details = lc_details c, lv_rate = sum_list (map ls_rate (lc_logging c)),
                 lv_collected_at = lc_collected_at c\<rparr>
           else
             (case LogStats.get_latest_rollup (lw_history w') of
                Some r \<Rightarrow> \<lparr>lv_logging = ru_logging r, lv_silent = ru_silent r, lv_details = [],
                           lv_rate = ru_lograte r, lv_collected_at = Some (ru_collected_at r)\<rparr>
              | None \<Rightarrow> \<lparr>lv_logging = 0, lv_silent = 0, lv_details = [], lv_rate = 0, lv_collected_at = None\<rparr>),
           w'))"

definition threat_section :: "threat_world \<Rightarrow> (threat_rollup option \<times> threat_rollup option) \<times> threat_world" where
  "threat_section w =
     (case ThreatStats.get_cached w of
        (c, w') \<Rightarrow> ((c, if c \<noteq> None then None else ThreatStats.get_latest_rollup (tw_history w')), w'))"

section \<open>The handlers\<close>

record summary =
  su_version :: nat
  su_fresh_health :: "string option"
  su_fresh_logs :: "string option"
  su_fresh_threats :: "string option"
  su_total :: nat
  su_healthy :: nat
  su_disk_pct :: "rat option"
  su_logs :: log_view
  su_threshold :: int
  su_infra :: "infra_item list"
  su_threats :: threats_view
  su_access :: access_view
  su_vpn :: vpn_view

record external_config =
  ec_threshold :: int
  ec_hours :: string
  ec_zone :: string

record external_world =
  ex_settings :: settings_file
  ex_tokens :: tokens_file
  ex_targets :: targets_file
  ex_health :: health_world
  ex_logs :: log_world
  ex_threats :: threat_world
  ex_log :: logger

definition disk_pcts :: "health_entry list \<Rightarrow> rat list result" where
  "disk_pcts targets =
     bind_result (map_result (\<lambda>t. parse_disk_used_pct (he_disk_used t)) targets) (\<lambda>ps.
       Inr (concat (map (\<lambda>p. case p of None \<Rightarrow> [] | Some q \<Rightarrow> [q]) ps)))"

text \<open>The answer, once the caches are read.\<close>

definition summary_of ::
  "external_config \<Rightarrow> health_entry list \<Rightarrow> rat list \<Rightarrow> log_view \<Rightarrow> threat_rollup option \<Rightarrow> threat_rollup option
   \<Rightarrow> summary result" where
  "summary_of cfg targets pcts logs cache rollup =
     (let threats = build_threats cache rollup in
      bind_result (build_infra_list targets) (\<lambda>infra.
        Inr \<lparr>su_version = 2, su_fresh_health = faz_health_freshness targets,
             su_fresh_logs = lv_collected_at logs, su_fresh_threats = tv_collected_at threats,
             su_total = length targets,
             su_healthy = length (filter (\<lambda>t. he_status t = ''green'' \<or> he_status t = ''yellow'') targets),
             su_disk_pct = max_or_none pcts, su_logs = logs, su_threshold = ec_threshold cfg,
             su_infra = infra, su_threats = threats,
             su_access = build_admin_access (ec_hours cfg @ '' '' @ ec_zone cfg) cache rollup,
             su_vpn = build_vpn cache rollup\<rparr>))"

text \<open>\<^verbatim>\<open>executive_summary\<close> behind the gate. An exception while a disk text is read leaves the other
  two caches unread.\<close>

definition executive_summary :: "external_config \<Rightarrow> external_world \<Rightarrow> summary result \<times> external_world" where
  "executive_summary cfg w =
     (case FazHealth.get_all_cached (ex_targets w) (ex_health w) of
        (targets, h) \<Rightarrow>
          (case disk_pcts targets of
             Inl err \<Rightarrow> (Inl err, w\<lparr>ex_health := h\<rparr>)
           | Inr pcts \<Rightarrow>
               (case log_section (ex_logs w) of
                  (logs, lw) \<Rightarrow>
                    (case threat_section (ex_threats w) of
                       ((cache, rollup), tw) \<Rightarrow>
                         (summary_of cfg targets pcts logs cache rollup,
                          w\<lparr>ex_health := h, ex_logs := lw, ex_threats := tw\<rparr>)))))"

record external_request =
  hr_path :: string
  hr_remote :: string
  hr_auth :: string
  hr_body :: "json option"
  hr_stamp :: string

text \<open>What the route answers: the gate's refusal, an error with its status, or data.\<close>

datatype 'a external_reply = Refused gate_response | Failed string nat | Answer 'a

definition gated ::
  "(string \<Rightarrow> string) \<Rightarrow> external_request \<Rightarrow> (external_world \<Rightarrow> 'a external_reply reply \<times> external_world)
   \<Rightarrow> external_world \<Rightarrow> 'a external_reply reply \<times> external_world" where
  "gated sha rq handler w =
     (case gate sha (ex_settings w) (ex_tokens w) (hr_auth rq) of
        GateOpen \<Rightarrow> handler w
      | Disabled503 \<Rightarrow> (Inr (Refused Disabled503), w)
      | Unauthorized401 \<Rightarrow>
          (Inr (Refused Unauthorized401),
           w\<lparr>ex_log := app_log (hr_stamp rq) ''WARN'' ''external_api''
                         (''Unauthorized request to '' @ hr_path rq) [(''remote'', hr_remote rq)] (ex_log w)\<rparr>))"

definition api_executive_summary ::
  "(string \<Rightarrow> string) \<Rightarrow> external_config \<Rightarrow> external_request \<Rightarrow> external_world
   \<Rightarrow> summary external_reply reply \<times> external_world" where
  "api_executive_summary sha cfg rq =
     gated sha rq (\<lambda>w. case executive_summary cfg w of
                          (Inl err, w') \<Rightarrow> (Inl (PyErr err), w')
                        | (Inr s, w') \<Rightarrow> (Inr (Answer s), w'))"

text \<open>\<^verbatim>\<open>request.get_json(silent=True) or {}\<close>.\<close>

definition json_body :: "json option \<Rightarrow> json" where
  "json_body b = (case b of None \<Rightarrow> JObj [] | Some v \<Rightarrow> if truthy v then v else JObj [])"

definition log_usage ::
  "(json \<Rightarrow> string) \<Rightarrow> (targets_file \<Rightarrow> usage_request \<Rightarrow> usage_outcome reply) \<Rightarrow> external_request \<Rightarrow> external_world
   \<Rightarrow> usage_response external_reply reply \<times> external_world" where
  "log_usage str_of search rq w =
     (case json_body (hr_body rq) of
        JObj data \<Rightarrow>
          (case validate_log_usage_request str_of data of
             Inl err \<Rightarrow> (Inr (Failed err 400), w)
           | Inr req \<Rightarrow>
               (case search (ex_targets w) req of
                  Inl e \<Rightarrow> (Inl e, w)
                | Inr (UsageError err status) \<Rightarrow>
                    (Inr (Failed err status),
                     w\<lparr>ex_log := app_log (hr_stamp rq) ''WARN'' ''external_api'' ''log-usage request failed''
                         [(''adom'', ur_adom req), (''error'', err), (''status'', show_nat status)] (ex_log w)\<rparr>)
                | Inr (UsageOk response) \<Rightarrow> (Inr (Answer response), w)))
      | _ \<Rightarrow> (Inr (Failed ''Request body must be a JSON object'' 400), w))"

text \<open>The search's window ends at the current second and is \<^verbatim>\<open>days\<close> long; \<open>clk\<close> is the clock
  of the request's deadline.\<close>

definition usage_window :: "nat \<Rightarrow> int \<Rightarrow> string \<times> string" where
  "usage_window seconds days = (butlast (iso_z (seconds - nat days * 86400)), butlast (iso_z seconds))"

definition usage_search ::
  "search_env \<Rightarrow> (target \<Rightarrow> post) \<Rightarrow> (client_error \<Rightarrow> string) \<Rightarrow> (nat \<Rightarrow> rat) \<Rightarrow> nat \<Rightarrow> targets_file \<Rightarrow> usage_request
   \<Rightarrow> usage_outcome reply" where
  "usage_search se post_of text_of clk seconds f req =
     (case usage_window seconds (ur_days req) of
        (start_iso, end_iso) \<Rightarrow>
          run_log_usage_search
            (\<lambda>t dev. search_one_device se (post_of t) dev (ur_policyid req) start_iso end_iso)
            post_of text_of clk f req)"

definition api_log_usage ::
  "(string \<Rightarrow> string) \<Rightarrow> search_env \<Rightarrow> (target \<Rightarrow> post) \<Rightarrow> (client_error \<Rightarrow> string) \<Rightarrow> (nat \<Rightarrow> rat) \<Rightarrow> nat \<Rightarrow> external_request
   \<Rightarrow> external_world \<Rightarrow> usage_response external_reply reply \<times> external_world" where
  "api_log_usage sha se post_of text_of clk seconds rq =
     gated sha rq (log_usage (se_str se) (usage_search se post_of text_of clk seconds) rq)"

section \<open>Reading a disk text\<close>

text \<open>Only the first match of the search counts, so it is enough to follow the greedy choices.\<close>

lemma then_match_first:
  assumes "xs = x # xs'" and "f x = y # ys"
  shows "\<exists>zs. then_match xs f = y # zs"
  using assms by (simp add: then_match_def)

lemma star_matches_first:
  assumes "list_all p a" and "r = [] \<or> \<not> p (hd r)"
  shows "\<exists>zs. star_matches p (a @ r) = (a, r) # zs"
  using assms
proof (induction a)
  case Nil
  then show ?case by (cases r) auto
next
  case (Cons c a)
  then obtain zs where "star_matches p (a @ r) = (a, r) # zs" by auto
  with Cons.prems show ?case by simp
qed

lemma plus_matches_first:
  assumes "list_all p a" and "a \<noteq> []" and "r = [] \<or> \<not> p (hd r)"
  shows "\<exists>zs. plus_matches p (a @ r) = (a, r) # zs"
  using star_matches_first [OF assms(1, 3)] assms(2) by (auto simp: plus_matches_def)

text \<open>A number as \<^verbatim>\<open>float\<close> reads it, and a unit: a word that does not begin with a digit.\<close>

definition number_text :: "string \<Rightarrow> rat \<Rightarrow> bool" where
  "number_text s q \<longleftrightarrow> s \<noteq> [] \<and> list_all number_char s \<and> dotted_number s = Some q"

definition unit_text :: "string \<Rightarrow> bool" where
  "unit_text s \<longleftrightarrow> s \<noteq> [] \<and> list_all word_char s \<and> \<not> ascii_digit (hd s)"

lemma char_classes:
  "word_char c \<Longrightarrow> \<not> is_space c" "number_char c \<Longrightarrow> \<not> is_space c"
  "\<not> word_char CHR '',''" "\<not> word_char CHR ''.''" "is_space CHR '' ''" "\<not> word_char CHR '' ''"
  by (auto simp: word_char_def number_char_def is_space_def ascii_digit_def is_upper_def is_lower_def
      ascii_upper_def ascii_lower_def)

lemma amount_matches_first:
  assumes "number_text n q" and "unit_text u" and "r = [] \<or> \<not> word_char (hd r)"
  shows "\<exists>zs. amount_matches (CHR '' '' # n @ u @ r) = (n, r) # zs"
proof -
  have n: "list_all number_char n" "n \<noteq> []" using assms(1) by (simp_all add: number_text_def)
  have u: "list_all word_char u" "u \<noteq> []" "\<not> ascii_digit (hd u)" using assms(2) by (simp_all add: unit_text_def)
  have hu: "word_char (hd u)" using u by (cases u) simp_all
  have hn: "number_char (hd n)" using n by (cases n) simp_all
  obtain z1 where 1: "plus_matches is_space ([CHR '' ''] @ n @ u @ r) = ([CHR '' ''], n @ u @ r) # z1"
    using plus_matches_first [of is_space "[CHR '' '']" "n @ u @ r"] n(2) hn char_classes by auto
  have "\<not> number_char (hd (u @ r))"
    using u hu char_classes by (cases u) (auto simp: number_char_def)
  then obtain z2 where 2: "plus_matches number_char (n @ u @ r) = (n, u @ r) # z2"
    using plus_matches_first [OF n, of "u @ r"] by blast
  obtain z3 where 3: "star_matches is_space ([] @ u @ r) = ([], u @ r) # z3"
    using star_matches_first [of is_space "[]" "u @ r"] u hu char_classes by (cases u) auto
  obtain z4 where 4: "plus_matches word_char (u @ r) = (u, r) # z4"
    using plus_matches_first [OF u(1,2) assms(3)] by blast
  show ?thesis
    unfolding amount_matches_def using 1 2 3 4 by (simp add: then_match_def)
qed

lemma usage_matches_first:
  assumes "number_text n p" and "unit_text u" and "number_text m q" and "unit_text v"
  shows "\<exists>zs. usage_matches (''Free '' @ n @ u @ '', Total '' @ m @ v) = (n, m) # zs"
proof -
  obtain z1 where 1: "amount_matches ('' '' @ n @ u @ '', Total '' @ m @ v) = (n, '', Total '' @ m @ v) # z1"
    using amount_matches_first [OF assms(1, 2), of "'', Total '' @ m @ v"] char_classes by auto
  obtain z2 where 2: "amount_matches ('' '' @ m @ v) = (m, []) # z2"
    using amount_matches_first [OF assms(3, 4), of "[]"] by auto
  obtain z3 where 3: "star_matches is_space ('' '' @ ''Total '' @ m @ v) = ('' '', ''Total '' @ m @ v) # z3"
    using star_matches_first [of is_space "'' ''" "''Total '' @ m @ v"] by (auto simp: is_space_def)
  show ?thesis
    unfolding usage_matches_def using 1 2 3
    by (simp add: then_match_def literal_matches_def startswith_def)
qed

lemma usage_matches_elsewhere: "c \<noteq> CHR ''F'' \<Longrightarrow> usage_matches (c # s) = []" "usage_matches [] = []"
  by (simp_all add: usage_matches_def literal_matches_def startswith_def then_match_def)

lemma search_usage_skips:
  assumes "CHR ''F'' \<notin> set pre" and "usage_matches s = x # xs"
  shows "search_usage (pre @ s) = Some x"
  using assms
proof (induction pre)
  case Nil
  then show ?case by (cases s) (simp_all add: usage_matches_elsewhere)
next
  case (Cons c pre)
  then have "usage_matches (c # pre @ s) = []" by (intro usage_matches_elsewhere) auto
  with Cons show ?case by simp
qed

text \<open>The disk text of an appliance is read as its status page prints it: \<^verbatim>\<open>Free x, Total y\<close> with any
  two decimal numbers, each followed by a unit, gives the used share of the total in percent, rounded
  to a tenth (nothing when the total is not positive), whatever stands before it. The units are
  skipped, not compared: the reading is right exactly when both numbers carry the same one.\<close>

theorem disk_usage_reads:
  assumes "number_text n p" and "unit_text u" and "number_text m q" and "unit_text v" and "CHR ''F'' \<notin> set pre"
  shows "parse_disk_used_pct (JStr (pre @ ''Free '' @ n @ u @ '', Total '' @ m @ v)) =
    Inr (if q \<le> 0 then None else Some (round_tenth ((q - p) / q * 100)))"
proof -
  obtain zs where "usage_matches (''Free '' @ n @ u @ '', Total '' @ m @ v) = (n, m) # zs"
    using usage_matches_first [OF assms(1-4)] by blast
  from search_usage_skips [OF assms(5) this]
  have "search_usage (pre @ ''Free '' @ n @ u @ '', Total '' @ m @ v) = Some (n, m)" by simp
  with assms(1, 3) show ?thesis
    by (simp add: parse_disk_used_pct_def float_result_def number_text_def)
qed

lemma disk_usage_reads_witness:
  "parse_disk_used_pct (JStr (''Disk: '' @ ''Free '' @ ''40.5'' @ ''GB'' @ '', Total '' @ ''100'' @ ''GB'')) =
     Inr (Some (119 / 2)) \<and>
   parse_disk_used_pct (JStr ([] @ ''Free '' @ ''900'' @ ''GB'' @ '', Total '' @ ''2'' @ ''TB'')) =
     Inr (Some (- 44900))"
proof -
  have n: "number_text ''40.5'' (81 / 2)" "number_text ''100'' 100" "number_text ''900'' 900" "number_text ''2'' 2"
    unfolding number_text_def by code_simp+
  have u: "unit_text ''GB''" "unit_text ''TB''" unfolding unit_text_def by code_simp+
  have r: "round_tenth (((100::rat) - 81 / 2) / 100 * 100) = 119 / 2" "round_tenth (((2::rat) - 900) / 2 * 100) = - 44900"
    by code_simp+
  show ?thesis
    using disk_usage_reads [OF n(1) u(1) n(2) u(1), of "''Disk: ''"]
      disk_usage_reads [OF n(3) u(1) n(4) u(2), of "[]"]
    by (simp only: r) simp
qed

section \<open>What the summary says\<close>

lemma max_or_none_spec:
  "case max_or_none xs of None \<Rightarrow> xs = [] | Some m \<Rightarrow> m \<in> set xs \<and> (\<forall>x \<in> set xs. x \<le> m)"
proof (cases xs)
  case (Cons y ys)
  have "foldl max y ys \<in> set (y # ys) \<and> (\<forall>x \<in> set (y # ys). x \<le> foldl max y ys)" for y
  proof (induction ys arbitrary: y)
    case (Cons a ys)
    from Cons.IH [of "max y a"] show ?case by (auto simp: max_def split: if_splits)
  qed simp
  with Cons show ?thesis by (simp add: max_or_none_def)
qed (simp add: max_or_none_def)

lemma map_result_Inr: "map_result f xs = Inr ys \<Longrightarrow> list_all2 (\<lambda>x y. f x = Inr y) xs ys"
  by (induction xs arbitrary: ys) (auto simp: bind_result_Inr_iff)

lemma infra_labels:
  assumes "build_infra_list targets = Inr infra"
  shows "list_all2 (\<lambda>t i. infra_item_of t = Inr i) targets infra"
  using map_result_Inr assms by (simp add: build_infra_list_def)

lemma infra_item_fields:
  assumes "infra_item_of t = Inr i"
  shows "in_label i = he_label t" "in_status i = he_status t" "in_updated i = he_last_updated t"
    "parse_disk_used_pct (he_disk_used t) = Inr (in_disk_pct i)"
  using assms by (auto simp: infra_item_of_def bind_result_Inr_iff)

lemma dotted_number_nonneg: "dotted_number s = Some q \<Longrightarrow> 0 \<le> q"
  by (auto simp: dotted_number_def split: prod.splits if_splits)

lemma freshness_spec:
  "case faz_health_freshness targets of
     None \<Rightarrow> list_all (\<lambda>u. or_default [] u = []) (map he_last_updated targets)
   | Some s \<Rightarrow> s \<noteq> [] \<and> Some s \<in> set (map he_last_updated targets) \<and>
       list_all (\<lambda>u. or_default [] u \<le> s) (map he_last_updated targets)"
proof -
  let ?stamps = "concat (map (\<lambda>t. case he_last_updated t of
                                     None \<Rightarrow> [] | Some s \<Rightarrow> if s = [] then [] else [s]) targets)"
  have mem: "s \<in> set ?stamps \<longleftrightarrow> s \<noteq> [] \<and> Some s \<in> set (map he_last_updated targets)" for s
    by (induction targets) (auto split: option.splits)
  show ?thesis
  proof (cases "max_or_none ?stamps")
    case None
    with max_or_none_spec [of ?stamps] have "?stamps = []" by simp
    with mem have "Some s \<in> set (map he_last_updated targets) \<Longrightarrow> s = []" for s by auto
    with None show ?thesis
      by (auto simp: faz_health_freshness_def list_all_iff or_default_def simp del: set_map split: option.splits)
  next
    case (Some m)
    with max_or_none_spec [of ?stamps] have m: "m \<in> set ?stamps" "\<forall>s \<in> set ?stamps. s \<le> m" by simp_all
    have "or_default [] u \<le> m" if "u \<in> set (map he_last_updated targets)" for u
    proof (cases "or_default [] u = []")
      case False
      then obtain s where s: "u = Some s" "s \<noteq> []" by (cases u) (simp_all add: or_default_def)
      with that mem have "s \<in> set ?stamps" by blast
      then have "s \<le> m" by (rule bspec [OF m(2)])
      with s(1) show ?thesis by (simp add: or_default_def)
    qed simp
    with Some m(1) mem show ?thesis
      by (simp add: faz_health_freshness_def list_all_iff del: set_map set_concat)
  qed
qed

lemma count_by_field:
  "map f xs = map g ys \<Longrightarrow> length (filter (\<lambda>x. P (f x)) xs) = length (filter (\<lambda>y. P (g y)) ys)"
  using length_filter_map [of P f xs] length_filter_map [of P g ys] by (simp add: comp_def)

lemma list_all2_in_right: "list_all2 P xs ys \<Longrightarrow> y \<in> set ys \<Longrightarrow> \<exists>x. P x y"
  by (induction rule: list_all2_induct) auto

lemma disk_pct_bounded:
  assumes "parse_disk_used_pct v = Inr (Some m)"
  shows "m \<le> 100"
proof -
  obtain s f t where "v = JStr s" "search_usage s = Some (f, t)"
    using assms by (auto simp: parse_disk_used_pct_def split: if_splits json.splits option.splits)
  with assms obtain free where free: "dotted_number f = Some free"
    by (auto simp: parse_disk_used_pct_def float_result_def split: if_splits option.splits)
  obtain total where "dotted_number t = Some total"
    using assms \<open>v = _\<close> \<open>search_usage s = _\<close>
    by (auto simp: parse_disk_used_pct_def float_result_def bind_result_Inr_iff split: if_splits option.splits)
  with assms \<open>v = _\<close> \<open>search_usage s = _\<close> free
  have m: "0 < total" "m = round_tenth ((total - free) / total * 100)"
    by (auto simp: parse_disk_used_pct_def float_result_def split: if_splits)
  have "(total - free) / total * 100 \<le> 100"
    using dotted_number_nonneg [OF free] m(1) by (simp add: field_simps)
  moreover note m(2)
  moreover have "round_tenth 100 = 100" by (simp add: round_tenth_def round_half_even_def Let_def)
  ultimately show ?thesis using round_tenth_mono by metis
qed

lemma executive_summary_ok:
  assumes "executive_summary cfg w = (Inr su, w')"
  obtains h pcts where "FazHealth.get_all_cached (ex_targets w) (ex_health w) = (fst (FazHealth.get_all_cached (ex_targets w) (ex_health w)), h)"
    and "disk_pcts (fst (FazHealth.get_all_cached (ex_targets w) (ex_health w))) = Inr pcts"
    and "build_infra_list (fst (FazHealth.get_all_cached (ex_targets w) (ex_health w))) = Inr (su_infra su)"
    and "su_total su = length (fst (FazHealth.get_all_cached (ex_targets w) (ex_health w)))"
    and "su_healthy su = length (filter (\<lambda>t. he_status t = ''green'' \<or> he_status t = ''yellow'')
           (fst (FazHealth.get_all_cached (ex_targets w) (ex_health w))))"
    and "su_disk_pct su = max_or_none pcts"
    and "su_fresh_health su = faz_health_freshness (fst (FazHealth.get_all_cached (ex_targets w) (ex_health w)))"
  using assms
  by (auto simp: executive_summary_def summary_of_def Let_def bind_result_Inr_iff split: prod.splits sum.splits)

lemma infra_disk_pcts:
  assumes "list_all2 (\<lambda>t i. infra_item_of t = Inr i) targets infra" and "disk_pcts targets = Inr pcts"
  shows "set pcts = {q. Some q \<in> in_disk_pct ` set infra}"
proof -
  obtain ps where ps: "map_result (\<lambda>t. parse_disk_used_pct (he_disk_used t)) targets = Inr ps"
    and pcts: "pcts = concat (map (\<lambda>p. case p of None \<Rightarrow> [] | Some q \<Rightarrow> [q]) ps)"
    using assms(2) by (auto simp: disk_pcts_def bind_result_Inr_iff)
  have "ps = map in_disk_pct infra"
    using assms(1) map_result_Inr [OF ps]
  proof (induction targets infra arbitrary: ps rule: list_all2_induct)
    case (Cons t ts i infra)
    then obtain q qs where "ps = q # qs" "parse_disk_used_pct (he_disk_used t) = Inr q"
      "list_all2 (\<lambda>t y. parse_disk_used_pct (he_disk_used t) = Inr y) ts qs"
      by (auto simp: list_all2_Cons1)
    with Cons infra_item_fields(4) [OF Cons(1)] show ?case by simp
  qed simp
  then show ?thesis by (force simp: pcts split: option.splits)
qed

lemma infra_columns:
  assumes "list_all2 (\<lambda>t i. infra_item_of t = Inr i) targets infra"
  shows "map in_label infra = map he_label targets" "map in_status infra = map he_status targets"
    "map in_updated infra = map he_last_updated targets"
  using assms by (induction rule: list_all2_induct) (simp_all add: infra_item_fields)

lemma infra_disk_max:
  assumes l2: "list_all2 (\<lambda>t i. infra_item_of t = Inr i) targets infra" and "disk_pcts targets = Inr pcts"
  shows "case max_or_none pcts of
       None \<Rightarrow> list_all (\<lambda>i. in_disk_pct i = None) infra
     | Some m \<Rightarrow> m \<le> 100 \<and> Some m \<in> in_disk_pct ` set infra \<and>
         (\<forall>q. Some q \<in> in_disk_pct ` set infra \<longrightarrow> q \<le> m)"
proof -
  have set_pcts: "set pcts = {q. Some q \<in> in_disk_pct ` set infra}"
    by (rule infra_disk_pcts [OF assms])
  have bounded: "q \<le> 100" if "Some q \<in> in_disk_pct ` set infra" for q
  proof -
    from that obtain i where i: "i \<in> set infra" and q: "Some q = in_disk_pct i" by (elim imageE)
    obtain t where t: "infra_item_of t = Inr i"
      using list_all2_in_right [OF l2 i(1)] by blast
    show ?thesis by (rule disk_pct_bounded [OF infra_item_fields(4) [OF t, unfolded q [symmetric]]])
  qed
  show ?thesis
  proof (cases "max_or_none pcts")
    case None
    with max_or_none_spec [of pcts] have "pcts = []" by simp
    with set_pcts have "Some q \<notin> in_disk_pct ` set infra" for q by auto
    then have "in_disk_pct i = None" if "i \<in> set infra" for i
      using that by (cases "in_disk_pct i") (force simp: image_iff)+
    with None show ?thesis by (simp add: list_all_iff)
  next
    case (Some m)
    with max_or_none_spec [of pcts] have "m \<in> set pcts" "\<forall>q \<in> set pcts. q \<le> m" by simp_all
    with Some bounded show ?thesis by (simp add: set_pcts)
  qed
qed

text \<open>C32. The summary is consistent with itself and with the configuration: in every reachable state of the
  health poller it lists one item per configured target, in the file's order and under its label; the
  totals count exactly these items (healthy means green or yellow); the fleet's disk usage is the
  largest of theirs, never above 100, and absent exactly when no item has one; its freshness is the
  newest of their times.\<close>

theorem summary_consistent:
  assumes "health_reachable hcfg cw wc"
    and "executive_summary cfg (w\<lparr>ex_health := cw\<lparr>hw_cache := wc\<rparr>\<rparr>) = (Inr su, w')"
  shows "map in_label (su_infra su) = map label (list_targets (ex_targets w)) \<and>
    su_total su = length (su_infra su) \<and>
    su_healthy su = length (filter (\<lambda>i. in_status i = ''green'' \<or> in_status i = ''yellow'') (su_infra su)) \<and>
    (case su_disk_pct su of
       None \<Rightarrow> list_all (\<lambda>i. in_disk_pct i = None) (su_infra su)
     | Some m \<Rightarrow> m \<le> 100 \<and> Some m \<in> in_disk_pct ` set (su_infra su) \<and>
         (\<forall>q. Some q \<in> in_disk_pct ` set (su_infra su) \<longrightarrow> q \<le> m)) \<and>
    (case su_fresh_health su of
       None \<Rightarrow> list_all (\<lambda>i. or_default [] (in_updated i) = []) (su_infra su)
     | Some s \<Rightarrow> s \<noteq> [] \<and> Some s \<in> in_updated ` set (su_infra su) \<and>
         list_all (\<lambda>i. or_default [] (in_updated i) \<le> s) (su_infra su))"
proof -
  let ?w = "w\<lparr>ex_health := cw\<lparr>hw_cache := wc\<rparr>\<rparr>"
  let ?cards = "fst (FazHealth.get_all_cached (ex_targets w) (cw\<lparr>hw_cache := wc\<rparr>))"
  obtain pcts where pcts: "disk_pcts ?cards = Inr pcts" and infra: "build_infra_list ?cards = Inr (su_infra su)"
    and tot: "su_total su = length ?cards"
    and hea: "su_healthy su = length (filter (\<lambda>t. he_status t = ''green'' \<or> he_status t = ''yellow'') ?cards)"
    and max: "su_disk_pct su = max_or_none pcts"
    and fresh: "su_fresh_health su = faz_health_freshness ?cards"
    by (rule executive_summary_ok [OF assms(2)]) simp
  note l2 = infra_labels [OF infra]
  note maps = infra_columns [OF l2]
  have 1: "map in_label (su_infra su) = map label (list_targets (ex_targets w))"
    using health_cards_facts [OF assms(1), of "ex_targets w"] maps(1) by simp
  have 2: "length (filter (\<lambda>i. P (in_status i)) (su_infra su)) = length (filter (\<lambda>t. P (he_status t)) ?cards)" for P
    by (rule count_by_field [OF maps(2)])
  have 4: "case su_fresh_health su of
       None \<Rightarrow> list_all (\<lambda>i. or_default [] (in_updated i) = []) (su_infra su)
     | Some s \<Rightarrow> s \<noteq> [] \<and> Some s \<in> in_updated ` set (su_infra su) \<and>
         list_all (\<lambda>i. or_default [] (in_updated i) \<le> s) (su_infra su)"
    using freshness_spec [of ?cards] unfolding fresh maps(3) [symmetric]
    by (simp add: list.pred_map comp_def cong: option.case_cong)
  from hea have 5: "su_healthy su = length (filter (\<lambda>i. in_status i = ''green'' \<or> in_status i = ''yellow'') (su_infra su))"
    using 2 [of "\<lambda>s. s = ''green'' \<or> s = ''yellow''"] by (rule trans [OF _ sym])
  show ?thesis using 1 tot 5 infra_disk_max [OF l2 pcts, folded max] 4 by (simp add: list_all2_lengthD [OF l2])
qed

section \<open>What the summary hides\<close>

text \<open>An appliance as the summary may know it.\<close>

definition redact_target :: "target \<Rightarrow> target" where
  "redact_target t =
     t\<lparr>host := None, adom := None, token := None, threat_poll_enabled := Some False, snmp := []\<rparr>"

definition redact_card :: "health_entry \<Rightarrow> health_entry" where
  "redact_card e =
     e\<lparr>he_host := [], he_adom := [], he_serial := JNull, he_ha_mode := JNull, he_snmp_status := [],
       he_error := None\<rparr>"

definition redact_row :: "health_cache cache_row \<Rightarrow> health_cache cache_row" where
  "redact_row r = r\<lparr>payload := map_values redact_card (payload r)\<rparr>"

definition redact_world :: "external_world \<Rightarrow> external_world" where
  "redact_world w =
     w\<lparr>ex_settings := Absent, ex_tokens := Absent,
       ex_targets := Content (map redact_target (list_targets (ex_targets w))),
       ex_health := (ex_health w)\<lparr>hw_cache := map_values redact_card (hw_cache (ex_health w)),
                                  hw_store := map_values redact_row (hw_store (ex_health w))\<rparr>\<rparr>"

lemma redact_card_fields [simp]:
  "he_label (redact_card e) = he_label e" "he_status (redact_card e) = he_status e"
  "he_hostname (redact_card e) = he_hostname e" "he_version (redact_card e) = he_version e"
  "he_ha_role (redact_card e) = he_ha_role e" "he_disk_used (redact_card e) = he_disk_used e"
  "he_cpu (redact_card e) = he_cpu e" "he_mem (redact_card e) = he_mem e"
  "he_last_updated (redact_card e) = he_last_updated e"
  by (simp_all add: redact_card_def)

lemma redact_card_of: "redact_card (card_of (map_values redact_card c) (redact_target t)) = redact_card (card_of c t)"
  by (cases "label t")
    (auto simp: card_of_def redact_target_def gray_entry_def blank_entry_def redact_card_def map_of_map_values
       split: option.splits)

lemma redact_read: "read_cache k (map_values redact_row tbl) = map_option (map_values redact_card) (read_cache k tbl)"
  by (simp add: read_cache_def map_of_map_values option.map_comp comp_def redact_row_def)

lemma redact_cards:
  "map redact_card (fst (FazHealth.get_all_cached (ex_targets (redact_world w)) (ex_health (redact_world w)))) =
   map redact_card (fst (FazHealth.get_all_cached (ex_targets w) (ex_health w)))"
proof -
  let ?h = "ex_health w"
  have c: "read_through health_filled health_takeover
      (map_option (map_values redact_card) stored) (map_values redact_card c) =
    map_values redact_card (read_through health_filled health_takeover stored c)" for stored c
    using dict_update_map_values [of redact_card c] dict_update_map_values [of redact_card "[] :: health_cache"]
    by (simp add: read_through_def health_filled_def health_takeover_def split: option.split)
  have "list_targets (Content (map redact_target ts)) = map redact_target ts" for ts
    by (simp add: list_targets_def load_targets_def redact_target_def setdefault_poll_def)
  then show ?thesis
    by (simp add: FazHealth.get_all_cached_def Let_def redact_world_def redact_read c redact_card_of comp_def)
qed

lemma map_result_map: "map_result f (map g xs) = map_result (\<lambda>x. f (g x)) xs"
  by (induction xs) simp_all

text \<open>Every part of the summary that reads the cards reads them redacted.\<close>

lemma card_parts_redacted:
  "disk_pcts (map redact_card ts) = disk_pcts ts"
  "summary_of cfg (map redact_card ts) pcts logs cache rollup = summary_of cfg ts pcts logs cache rollup"
proof -
  have "infra_item_of (redact_card t) = infra_item_of t" for t by (simp add: infra_item_of_def)
  then have "build_infra_list (map redact_card ts) = build_infra_list ts"
    by (simp add: build_infra_list_def map_result_map)
  moreover have "faz_health_freshness (map redact_card ts) = faz_health_freshness ts"
    by (simp add: faz_health_freshness_def comp_def)
  ultimately show
    "summary_of cfg (map redact_card ts) pcts logs cache rollup = summary_of cfg ts pcts logs cache rollup"
    by (simp add: summary_of_def comp_def)
  show "disk_pcts (map redact_card ts) = disk_pcts ts" by (simp add: disk_pcts_def map_result_map)
qed

text \<open>C19. The executive summary is a function of what it may show: erasing the host, the ADOM, the API
  token and the SNMP credentials of every target, the address, serial number, HA mode and error text of
  every health card, cached or stored, and the settings and token files leaves every answer, failures
  included, exactly as it is.\<close>

theorem summary_hides_secrets:
  "fst (executive_summary cfg (redact_world w)) = fst (executive_summary cfg w)"
proof -
  let ?ts = "\<lambda>w. fst (FazHealth.get_all_cached (ex_targets w) (ex_health w))"
  have pcts: "disk_pcts (?ts (redact_world w)) = disk_pcts (?ts w)"
    using arg_cong [OF redact_cards [of w], of disk_pcts] by (simp only: card_parts_redacted)
  have su: "summary_of cfg (?ts (redact_world w)) p l c r = summary_of cfg (?ts w) p l c r" for p l c r
    using arg_cong [OF redact_cards [of w], of "\<lambda>ts. summary_of cfg ts p l c r"]
    by (simp only: card_parts_redacted)
  have keep: "ex_logs (redact_world w) = ex_logs w" "ex_threats (redact_world w) = ex_threats w"
    by (simp_all add: redact_world_def)
  have "fst (executive_summary cfg v) =
      (case disk_pcts (?ts v) of Inl err \<Rightarrow> Inl err
       | Inr p \<Rightarrow> summary_of cfg (?ts v) p (fst (log_section (ex_logs v)))
           (fst (fst (threat_section (ex_threats v)))) (snd (fst (threat_section (ex_threats v)))))" for v
    by (simp add: executive_summary_def split: prod.split sum.split)
  then show ?thesis by (simp only: pcts su keep)
qed

section \<open>The three ways to the same numbers\<close>

lemma log_section_cached:
  assumes "lc_collected_at c = Some s"
  shows "fst (log_section (w\<lparr>lw_cache := c\<rparr>)) =
    \<lparr>lv_logging = length (lc_logging c), lv_silent = length (lc_silent c), lv_details = lc_details c,
     lv_rate = sum_list (map ls_rate (lc_logging c)), lv_collected_at = Some s\<rparr>"
  using assms
  by (simp add: log_section_def LogStats.get_cached_def Let_def read_through_def log_cache_filled_def)

text \<open>What a successful poll leaves for each source: the cache of the process, the snapshot for a process
  that starts empty, the newest row for one that finds no snapshot either.\<close>

lemma log_section_sources:
  assumes "lw' = LogStats.poll_all_targets post_of isofmt t collected cutoff threshold f lw"
    "any_answered post_of (list_targets f)"
    "\<not> collected < cutoff" "\<forall>r \<in> set (lw_history lw). ru_collected_at r < collected"
  shows "fst (log_section (lw'\<lparr>lw_cache := empty_log_cache\<rparr>)) = fst (log_section lw')"
    "fst (log_section (lw'\<lparr>lw_cache := empty_log_cache, lw_store := []\<rparr>)) =
      (fst (log_section lw'))\<lparr>lv_details := []\<rparr>"
proof -
  let ?c = "lw_cache lw'"
  have c: "lc_collected_at ?c = Some collected" "read_cache LogStats.CACHE_KEY (lw_store lw') = Some ?c"
    "lw_history lw' = LogStats.prune_old_rows cutoff (put_rollup (totals_row collected ?c) (lw_history lw))"
    using poll_success [OF assms(2, 1)] by simp_all
  have newest: "LogStats.get_latest_rollup (lw_history lw') = Some (totals_row collected ?c)"
    unfolding c(3) by (rule rollups.latest_is_poll) (use assms(3, 4) in \<open>simp_all add: totals_row_def\<close>)
  note own = log_section_cached [OF c(1), of lw', simplified]
  show "fst (log_section (lw'\<lparr>lw_cache := empty_log_cache\<rparr>)) = fst (log_section lw')"
    unfolding own using c(1, 2)
    by (simp add: log_section_def LogStats.get_cached_def Let_def read_through_def log_cache_filled_def
        log_cache_takeover_def empty_log_cache_def)
  show "fst (log_section (lw'\<lparr>lw_cache := empty_log_cache, lw_store := []\<rparr>)) =
      (fst (log_section lw'))\<lparr>lv_details := []\<rparr>"
    unfolding own using newest
    by (simp add: log_section_def LogStats.get_cached_def Let_def read_through_def log_cache_filled_def
        empty_log_cache_def read_cache_def totals_row_def)
qed

lemma threat_section_sources:
  assumes "ThreatStats.poll_all_targets tc u collected cutoff g tw = Some (Inr (), tw')"
    "tw_cache tw' \<noteq> tw_cache tw"
    "\<not> collected < cutoff" "\<forall>r \<in> set (tw_history tw). tr_collected_at r < collected"
  obtains r where "fst (threat_section tw') = (Some r, None)"
    "fst (threat_section (tw'\<lparr>tw_cache := None\<rparr>)) = (Some r, None)"
    "fst (threat_section (tw'\<lparr>tw_cache := None, tw_store := []\<rparr>)) = (None, Some r)"
proof (rule threat_poll_success [OF assms(1, 2)])
  fix r
  assume h: "tr_collected_at r = collected" "tw_cache tw' = Some r"
    "read_cache ThreatStats.CACHE_KEY (tw_store tw') = Some r"
    "tw_history tw' = ThreatStats.prune_old_rows cutoff (ThreatStats.write_rollup r (tw_history tw))"
  have "ThreatStats.get_latest_rollup (tw_history tw') = Some r"
    unfolding h(4) by (rule threat_rows.latest_is_poll) (use assms(3, 4) h(1) in simp_all)
  with h(2, 3) show thesis
    by (intro that [of r])
      (auto simp: threat_section_def ThreatStats.get_cached_def Let_def read_through_def
        threat_takeover_def read_cache_def)
qed

text \<open>The summary as a function of the views, and how it depends on where they come from.\<close>

lemma executive_summary_views:
  "fst (executive_summary cfg (w\<lparr>ex_logs := l, ex_threats := v\<rparr>)) =
     (let ts = fst (FazHealth.get_all_cached (ex_targets w) (ex_health w)) in
      bind_result (disk_pcts ts) (\<lambda>p.
        summary_of cfg ts p (fst (log_section l)) (fst (fst (threat_section v))) (snd (fst (threat_section v)))))"
  by (simp add: executive_summary_def Let_def bind_result_def split: prod.split sum.split)

lemma summary_of_sources:
  "summary_of cfg ts p l None (Some r) = summary_of cfg ts p l (Some r) None"
  "summary_of cfg ts p (l\<lparr>lv_details := []\<rparr>) c d =
     bind_result (summary_of cfg ts p l c d) (\<lambda>x. Inr (x\<lparr>su_logs := (su_logs x)\<lparr>lv_details := []\<rparr>\<rparr>))"
  by (simp_all add: summary_of_def build_threats_def build_admin_access_def build_vpn_def threat_source_def
      Let_def bind_result_def split: sum.split)

text \<open>C10. It does not matter where the numbers come from: after a successful poll of the log statistics and
  of the threat statistics, a process that holds the caches, one that starts empty beside the
  collector's snapshots, and one that finds only the history tables give the same executive summary, but
  for the list of silent devices, which the history does not keep.\<close>

theorem summary_sources_agree:
  assumes logs: "lw' = LogStats.poll_all_targets post_of isofmt t collected cutoff threshold f lw"
      "any_answered post_of (list_targets f)"
      "\<not> collected < cutoff" "\<forall>r \<in> set (lw_history lw). ru_collected_at r < collected"
    and threats: "ThreatStats.poll_all_targets tc u collected2 cutoff2 g tw = Some (Inr (), tw')"
      "tw_cache tw' \<noteq> tw_cache tw"
      "\<not> collected2 < cutoff2" "\<forall>r \<in> set (tw_history tw). tr_collected_at r < collected2"
    and summary: "fst (executive_summary cfg (w\<lparr>ex_logs := lw', ex_threats := tw'\<rparr>)) = su"
  shows "fst (executive_summary cfg (w\<lparr>ex_logs := lw'\<lparr>lw_cache := empty_log_cache\<rparr>,
           ex_threats := tw'\<lparr>tw_cache := None\<rparr>\<rparr>)) = su \<and>
    fst (executive_summary cfg (w\<lparr>ex_logs := lw'\<lparr>lw_cache := empty_log_cache, lw_store := []\<rparr>,
           ex_threats := tw'\<lparr>tw_cache := None, tw_store := []\<rparr>\<rparr>)) =
      bind_result su (\<lambda>x. Inr (x\<lparr>su_logs := (su_logs x)\<lparr>lv_details := []\<rparr>\<rparr>))"
proof -
  note l = log_section_sources [OF logs]
  obtain r where "fst (threat_section tw') = (Some r, None)"
    "fst (threat_section (tw'\<lparr>tw_cache := None\<rparr>)) = (Some r, None)"
    "fst (threat_section (tw'\<lparr>tw_cache := None, tw_store := []\<rparr>)) = (None, Some r)"
    by (rule threat_section_sources [OF threats])
  then show ?thesis
    unfolding summary [symmetric] executive_summary_views
    by (simp add: Let_def l summary_of_sources bind_result_def split: sum.split)
qed

section \<open>Two polls and three summaries, computed\<close>

text \<open>Both appliances of the sample file answer every call; one logged 60 seconds ago, the other never.\<close>

definition external_io :: health_io where
  "external_io =
     sample_io\<lparr>io_post := (\<lambda>t r. Inr (JObj [(''result'', JObj [(''data'',
       JObj [(''Hostname'', JStr ''faz''), (''Disk Usage'', JStr ''Free 40.5GB, Total 100GB'')])])]))\<rparr>"

definition external_health :: health_world where
  "external_health =
     snd (FazHealth.poll_all_targets sample_health_config external_io sample_targets
            \<lparr>hw_cache = [], hw_store = [], hw_log = init_logger\<rparr>)"

definition stats_post :: "target \<Rightarrow> post" where
  "stats_post t r =
     Inr (JObj [(''result'', JObj [(''data'', JObj [(''devs'',
       JList [JObj [(''devid'', JStr ''d1''), (''devname'', JStr ''fw1''),
                    (''vdoms'', JList [JObj [(''last-log-timestamp'', JInt 940), (''lograte'', JInt 7)]])],
              JObj [(''devid'', JStr ''d2''), (''devname'', JStr ''fw2'')]])])])])"

definition external_logs :: log_world where
  "external_logs =
     LogStats.poll_all_targets stats_post (\<lambda>_. ''iso'') 1000 ''2025-01-02'' ''2024-12-03'' 15 sample_file
       \<lparr>lw_cache = empty_log_cache, lw_store = [], lw_history = [], lw_log = init_logger\<rparr>"

definition empty_threats :: threat_world where
  "empty_threats = \<lparr>tw_cache = None, tw_store = [], tw_history = [], tw_log = init_logger\<rparr>"

definition external_sample :: external_world where
  "external_sample =
     \<lparr>ex_settings = Content [(''external_api_enabled'', JBool True)], ex_tokens = Absent,
      ex_targets = sample_targets, ex_health = external_health\<lparr>hw_cache := []\<rparr>, ex_logs = external_logs,
      ex_threats = empty_threats, ex_log = init_logger\<rparr>"

definition external_sample_config :: external_config where
  "external_sample_config = \<lparr>ec_threshold = 15, ec_hours = ''08:00-18:00'', ec_zone = ''UTC''\<rparr>"

lemma external_summary:
  "case fst (executive_summary external_sample_config external_sample) of
     Inr su \<Rightarrow> su_total su = 2 \<and> su_disk_pct su = Some (119 / 2) \<and> lv_logging (su_logs su) = 1 \<and>
       lv_silent (su_logs su) = 1 \<and> lv_rate (su_logs su) = 7
   | Inl _ \<Rightarrow> False"
  by code_simp

lemma summary_consistent_witness:
  "\<exists>su. fst (executive_summary external_sample_config external_sample) = Inr su \<and>
     map in_label (su_infra su) = [Some ''dc1'', Some ''dc2''] \<and> su_disk_pct su = Some (119 / 2) \<and>
     Some (119 / 2) \<in> in_disk_pct ` set (su_infra su)"
proof -
  have "health_reachable sample_health_config external_health []"
    unfolding external_health_def by (rule health_reachable.poll [OF health_reachable.start])
  note c = summary_consistent [OF this, of external_sample_config external_sample]
  obtain su w' where su: "executive_summary external_sample_config external_sample = (Inr su, w')"
    "su_disk_pct su = Some (119 / 2)"
    using external_summary
    by (cases "executive_summary external_sample_config external_sample") (auto split: sum.splits)
  have "external_sample\<lparr>ex_health := external_health\<lparr>hw_cache := []\<rparr>\<rparr> = external_sample"
    by (simp add: external_sample_def)
  moreover have "map label (list_targets (ex_targets external_sample)) = [Some ''dc1'', Some ''dc2'']"
    by code_simp
  ultimately show ?thesis using c su by simp
qed

lemma summary_sources_agree_witness:
  "\<exists>tw' su. fst (executive_summary external_sample_config (external_sample\<lparr>ex_logs := external_logs, ex_threats := tw'\<rparr>)) = su \<and>
     map_option tr_alerts (tw_cache tw') = Some 3 \<and>
     fst (executive_summary external_sample_config
            (external_sample\<lparr>ex_logs := external_logs\<lparr>lw_cache := empty_log_cache\<rparr>,
               ex_threats := tw'\<lparr>tw_cache := None\<rparr>\<rparr>)) = su"
proof -
  obtain r where r: "fleet_rollup ''now'' [sample_reading] = Inr r" "tr_alerts r = 3"
    using sample_rollup_Inr by metis
  obtain rs lg where p: "ThreatStats.poll_targets sample_config 100000 (list_targets sample_file) ([], init_logger) = Some (rs, lg)"
    using poll_targets_ends [OF sample_fuel, of 100000 "list_targets sample_file" "([], init_logger)"] by auto
  then have "rs = readings sample_config 100000 (list_targets sample_file)"
    using poll_targets_readings by fastforce
  then obtain tw' where tw: "ThreatStats.poll_all_targets sample_config 100000 ''now'' ''a'' sample_file empty_threats =
      Some (Inr (), tw')" "tw_cache tw' = Some r"
    using p r(1) by (auto simp: ThreatStats.poll_all_targets_def empty_threats_def sample_readings)
  have a: "any_answered stats_post (list_targets sample_file)" by code_simp
  have "lw_history \<lparr>lw_cache = empty_log_cache, lw_store = [], lw_history = [], lw_log = init_logger\<rparr> = []"
    "\<not> ''2025-01-02'' < ''2024-12-03''" "\<not> ''now'' < ''a''" "tw_cache tw' \<noteq> tw_cache empty_threats"
    "tw_history empty_threats = []"
    using tw by (simp_all add: empty_threats_def)
  note sources = summary_sources_agree [OF external_logs_def a this(2) _ tw(1) this(4) this(3) _ refl]
  have "fst (executive_summary external_sample_config
            (external_sample\<lparr>ex_logs := external_logs\<lparr>lw_cache := empty_log_cache\<rparr>,
               ex_threats := tw'\<lparr>tw_cache := None\<rparr>\<rparr>)) =
        fst (executive_summary external_sample_config (external_sample\<lparr>ex_logs := external_logs, ex_threats := tw'\<rparr>))"
    by (rule sources [THEN conjunct1]) (simp_all add: empty_threats_def)
  with r(2) tw(2) show ?thesis by (intro exI [of _ tw'] exI) auto
qed

end
