(* ===== verification/CommandLine.thy ===== *)
theory CommandLine
  imports Auth ApiTokens AppSettings
begin

text \<open>
  \<^verbatim>\<open>manage_users.py\<close> and \<^verbatim>\<open>manage_api_tokens.py\<close>: the commands behind the argument parser. A run
  ends with an exit status and the lines it printed, or with an exception that ends the interpreter;
  beside that it leaves a new content of the file it manages. bcrypt, SHA-256, random values and the
  texts of exceptions are arguments. A parsed command line is a command; the words of the command line and
  the parser's own messages are not modelled.
\<close>

record run =
  rn_status :: nat
  rn_out :: "string list"
  rn_err :: "string list"

definition ended :: "string list \<Rightarrow> run" where
  "ended out = \<lparr>rn_status = 0, rn_out = out, rn_err = []\<rparr>"

definition refused_with :: "string \<Rightarrow> run" where
  "refused_with message = \<lparr>rn_status = 1, rn_out = [], rn_err = [message]\<rparr>"

definition in_quotes :: "string \<Rightarrow> string" where
  "in_quotes s = CHR 0x27 # s @ [CHR 0x27]"

text \<open>\<^verbatim>\<open>{s:<n}\<close>\<close>

definition padded :: "nat \<Rightarrow> string \<Rightarrow> string" where
  "padded n s = s @ replicate (n - length s) (CHR '' '')"

section \<open>Accounts\<close>

record add_args =
  aa_username :: string
  aa_password :: "string option"
  aa_role :: string

text \<open>An empty option counts as omitted (\<^verbatim>\<open>args.password or getpass(...)\<close>). A
  \<^verbatim>\<open>JSONDecodeError\<close> is a \<^verbatim>\<open>ValueError\<close>.\<close>

definition cmd_add ::
  "(string \<Rightarrow> string result) \<Rightarrow> (py_error \<Rightarrow> string) \<Rightarrow> string \<Rightarrow> add_args \<Rightarrow> users_file
   \<Rightarrow> run result \<times> users_file" where
  "cmd_add hashpw text_of typed args f =
     (let password = (if or_default [] (aa_password args) = [] then typed else or_default [] (aa_password args)) in
      if password = [] then (Inr (refused_with ''Password cannot be empty.''), f)
      else
        (case add_user hashpw (aa_username args) password (aa_role args) f of
           Inr f' \<Rightarrow>
             (Inr (ended [''User '' @ in_quotes (aa_username args) @ '' added with role '' @
                          in_quotes (aa_role args) @ ''.'']), f')
         | Inl (ValueError m) \<Rightarrow> (Inr (refused_with (text_of (ValueError m))), f)
         | Inl JSONDecodeError \<Rightarrow> (Inr (refused_with (text_of JSONDecodeError)), f)
         | Inl err \<Rightarrow> (Inl err, f)))"

definition cmd_delete :: "string \<Rightarrow> users_file \<Rightarrow> run result \<times> users_file" where
  "cmd_delete username f =
     (case delete_user username f of
        Inl err \<Rightarrow> (Inl err, f)
      | Inr (True, f') \<Rightarrow> (Inr (ended [''User '' @ in_quotes username @ '' deleted.'']), f')
      | Inr (False, f') \<Rightarrow> (Inr (refused_with (''User '' @ in_quotes username @ '' not found.'')), f'))"

definition cmd_list_users :: "users_file \<Rightarrow> run result" where
  "cmd_list_users f =
     bind_result (list_users f) (\<lambda>users.
       Inr (ended
         (if users = [] then [''No users configured.'']
          else [padded 20 ''Username'' @ '' '' @ padded 10 ''Role'', replicate 30 (CHR ''-'')] @
               map (\<lambda>(u, r). padded 20 u @ '' '' @ padded 10 r) users)))"

definition cmd_secret :: "string \<Rightarrow> run" where
  "cmd_secret key =
     ended [''Generated SECRET_KEY:'', key, [], ''Add this to your .env file as:'', ''SECRET_KEY='' @ key]"

section \<open>API tokens\<close>

definition cmd_create ::
  "(string \<Rightarrow> string) \<Rightarrow> string \<Rightarrow> string \<Rightarrow> string \<Rightarrow> tokens_file \<Rightarrow> run \<times> tokens_file" where
  "cmd_create sha hex uuid nm f =
     (case create_token sha hex uuid nm f of
        ((raw, rcd), f') \<Rightarrow>
          (ended [''Token created: '' @ or_default [] (info_name rcd) @ '' (id='' @ or_default [] (info_id rcd) @ '')'',
                  ''Plaintext (shown once): '' @ raw], f'))"

text \<open>\<^verbatim>\<open>t['id']\<close> and \<^verbatim>\<open>t['name']\<close> raise when a hand-edited record has none.\<close>

fun token_lines :: "token_info list \<Rightarrow> string list result" where
  "token_lines [] = Inr []"
| "token_lines (t # ts) =
     (case (info_id t, info_name t) of
        (None, _) \<Rightarrow> Inl (KeyError ''id'')
      | (_, None) \<Rightarrow> Inl (KeyError ''name'')
      | (Some i, Some n) \<Rightarrow>
          bind_result (token_lines ts) (\<lambda>ls.
            Inr ((padded 38 i @ '' '' @ padded 24 n @ '' '' @
                  padded 8 (if or_default True (info_enabled t) then ''True'' else ''False'')) # ls)))"

definition cmd_list_tokens :: "tokens_file \<Rightarrow> run result" where
  "cmd_list_tokens f =
     (if list_tokens f = [] then Inr (ended [''No tokens configured.''])
      else bind_result (token_lines (list_tokens f)) (\<lambda>ls.
        Inr (ended ([padded 38 ''ID'' @ '' '' @ padded 24 ''Name'' @ '' '' @ padded 8 ''Enabled'',
                     replicate 72 (CHR ''-'')] @ ls))))"

definition cmd_revoke :: "string \<Rightarrow> tokens_file \<Rightarrow> run \<times> tokens_file" where
  "cmd_revoke token_id f =
     (case revoke_token token_id f of
        (True, f') \<Rightarrow> (ended [''Token '' @ in_quotes token_id @ '' revoked.''], f')
      | (False, f') \<Rightarrow> (refused_with (''Token '' @ in_quotes token_id @ '' not found.''), f'))"

definition cmd_enable :: "settings_file \<Rightarrow> run \<times> settings_file" where
  "cmd_enable f = (ended [''External API enabled.''], set_setting ''external_api_enabled'' (JBool True) f)"

definition cmd_disable :: "settings_file \<Rightarrow> run \<times> settings_file" where
  "cmd_disable f = (ended [''External API disabled.''], set_setting ''external_api_enabled'' (JBool False) f)"

section \<open>The two tools\<close>

text \<open>The options of \<^verbatim>\<open>add\<close>: the role is viewer unless given, and a role that is no choice ends
  the run with the parser's exit status before any command.\<close>

definition ROLE_CHOICES :: "string list" where
  "ROLE_CHOICES = [''viewer'', ''admin'']"

definition parse_add :: "string \<Rightarrow> string option \<Rightarrow> string option \<Rightarrow> add_args option" where
  "parse_add username password role =
     (if or_default ''viewer'' role \<in> set ROLE_CHOICES
      then Some \<lparr>aa_username = username, aa_password = password, aa_role = or_default ''viewer'' role\<rparr>
      else None)"

datatype users_command =
    AddUser string "string option" "string option"
  | DeleteUser string
  | ListUsers
  | GenerateSecret

fun manage_users ::
  "(string \<Rightarrow> string result) \<Rightarrow> (py_error \<Rightarrow> string) \<Rightarrow> string \<Rightarrow> string \<Rightarrow> users_command \<Rightarrow> users_file
   \<Rightarrow> run result \<times> users_file" where
  "manage_users hashpw text_of typed key (AddUser username password role) f =
     (case parse_add username password role of
        None \<Rightarrow> (Inr \<lparr>rn_status = 2, rn_out = [], rn_err = []\<rparr>, f)
      | Some args \<Rightarrow> cmd_add hashpw text_of typed args f)"
| "manage_users hashpw text_of typed key (DeleteUser username) f = cmd_delete username f"
| "manage_users hashpw text_of typed key ListUsers f = (cmd_list_users f, f)"
| "manage_users hashpw text_of typed key GenerateSecret f = (Inr (cmd_secret key), f)"

datatype tokens_command =
    CreateToken string
  | ListTokens
  | RevokeToken string
  | EnableApi
  | DisableApi

fun manage_api_tokens ::
  "(string \<Rightarrow> string) \<Rightarrow> string \<Rightarrow> string \<Rightarrow> tokens_command \<Rightarrow> tokens_file \<times> settings_file
   \<Rightarrow> run result \<times> tokens_file \<times> settings_file" where
  "manage_api_tokens sha hex uuid (CreateToken n) (tf, sf) =
     (case cmd_create sha hex uuid n tf of (r, tf') \<Rightarrow> (Inr r, tf', sf))"
| "manage_api_tokens sha hex uuid ListTokens (tf, sf) = (cmd_list_tokens tf, tf, sf)"
| "manage_api_tokens sha hex uuid (RevokeToken i) (tf, sf) =
     (case cmd_revoke i tf of (r, tf') \<Rightarrow> (Inr r, tf', sf))"
| "manage_api_tokens sha hex uuid EnableApi (tf, sf) = (case cmd_enable sf of (r, sf') \<Rightarrow> (Inr r, tf, sf'))"
| "manage_api_tokens sha hex uuid DisableApi (tf, sf) = (case cmd_disable sf of (r, sf') \<Rightarrow> (Inr r, tf, sf'))"

section \<open>What an exit status says\<close>

text \<open>The exit status of the account tool tells what happened to the file. A run that adds, deletes or
  fails changes nothing unless it ends with status 0; after status 0 of \<^verbatim>\<open>add\<close> the account is there
  with the given role and the hash of the password, which met the policy; after status 0 of
  \<^verbatim>\<open>delete\<close> it is gone; in both cases every other account is as before.\<close>

theorem account_tool_status:
  "(case cmd_add hashpw text_of typed args f of
      (r, f') \<Rightarrow>
        if (case r of Inl _ \<Rightarrow> True | Inr x \<Rightarrow> rn_status x \<noteq> 0) then f' = f
        else \<exists>p h. validate_password_policy p = Inr () \<and> hashpw p = Inr h \<and>
          user_lookup f' (aa_username args) = Some \<lparr>password_hash = Some h, user_role = Some (aa_role args)\<rparr> \<and>
          (\<forall>u. u = aa_username args \<or> user_lookup f' u = user_lookup f u)) \<and>
   (case cmd_delete username f of
      (r, f') \<Rightarrow>
        if (case r of Inl _ \<Rightarrow> True | Inr x \<Rightarrow> rn_status x \<noteq> 0) then f' = f
        else user_lookup f username \<noteq> None \<and> user_lookup f' username = None \<and>
          (\<forall>u. u = username \<or> user_lookup f' u = user_lookup f u))"
proof (intro conjI)
  let ?p = "if or_default [] (aa_password args) = [] then typed else or_default [] (aa_password args)"
  show "case cmd_add hashpw text_of typed args f of
      (r, f') \<Rightarrow>
        if (case r of Inl _ \<Rightarrow> True | Inr x \<Rightarrow> rn_status x \<noteq> 0) then f' = f
        else \<exists>p h. validate_password_policy p = Inr () \<and> hashpw p = Inr h \<and>
          user_lookup f' (aa_username args) = Some \<lparr>password_hash = Some h, user_role = Some (aa_role args)\<rparr> \<and>
          (\<forall>u. u = aa_username args \<or> user_lookup f' u = user_lookup f u)"
  proof (cases "?p = [] \<or> (\<exists>err. add_user hashpw (aa_username args) ?p (aa_role args) f = Inl err)")
    case True
    then show ?thesis
      by (auto simp: cmd_add_def Let_def refused_with_def split: py_error.splits)
  next
    case False
    then obtain f' where a: "add_user hashpw (aa_username args) ?p (aa_role args) f = Inr f'"
      by (cases "add_user hashpw (aa_username args) ?p (aa_role args) f") auto
    with False have "cmd_add hashpw text_of typed args f =
      (Inr (ended [''User '' @ in_quotes (aa_username args) @ '' added with role '' @
                   in_quotes (aa_role args) @ ''.'']), f')"
      by (simp add: cmd_add_def Let_def)
    moreover have "\<exists>h. validate_password_policy ?p = Inr () \<and> hashpw ?p = Inr h \<and>
        f' = put_user (aa_username args) \<lparr>password_hash = Some h, user_role = Some (aa_role args)\<rparr> f \<and> readable f"
      using a by (auto simp: add_user_put)
    ultimately show ?thesis
      by (auto simp: ended_def accounts.get_put)
  qed
  show "case cmd_delete username f of
      (r, f') \<Rightarrow>
        if (case r of Inl _ \<Rightarrow> True | Inr x \<Rightarrow> rn_status x \<noteq> 0) then f' = f
        else user_lookup f username \<noteq> None \<and> user_lookup f' username = None \<and>
          (\<forall>u. u = username \<or> user_lookup f' u = user_lookup f u)"
    by (auto simp: cmd_delete_def delete_user_def ended_def refused_with_def user_lookup_def dict_has_def
        bind_result_def split: sum.splits)
qed

end
