(* ===== verification/WebApp.thy ===== *)
theory WebApp
  imports SessionMachine SuiteFetch LogSearch Dashboard AdminRoutes ExternalApi CommandLine
begin

text \<open>
  The web application as a whole: every call the blueprints of \<^verbatim>\<open>app/routes/\<close> register,
  behind the request filter of \<^verbatim>\<open>app/__init__.py\<close>, on one state that all of them share, used by
  any number of clients. Flask keeps a session in the client's signed cookie, so a client may present any
  cookie it was ever given, old ones included. Between the requests the command-line tools and the pollers
  run. The log of the process is the one of the files' record; the other components' own log is set to
  it when they run. Every exception that reaches Flask is \<open>InternalError\<close>.
\<close>

section \<open>Calls and answers\<close>

record web_world =
  wb_files :: admin_world
  wb_limiter :: limiter
  wb_health :: health_world
  wb_logs :: log_world
  wb_threats :: threat_world

record web_io =
  wi_now :: rat
  wi_checker :: "(string \<Rightarrow> rat \<Rightarrow> bool) option"
  wi_lifetime :: int
  wi_fresh :: string
  wi_stamp :: string
  wi_url_for :: "string \<Rightarrow> string"
  wi_admin :: admin_io
  wi_search :: search_config
  wi_service :: "string \<Rightarrow> string \<Rightarrow> claims option result"
  wi_summary :: external_config
  wi_usage :: search_env
  wi_usage_clock :: "nat \<Rightarrow> rat"
  wi_seconds :: nat

definition web_registry :: "web_io \<Rightarrow> registry" where
  "web_registry io = ai_registry (wi_admin io)"

definition web_tabs :: "web_io \<Rightarrow> string list" where
  "web_tabs io = map fst (registry_tabs (web_registry io))"

definition web_env :: "web_io \<Rightarrow> web_world \<Rightarrow> env" where
  "web_env io w =
     \<lparr>now = wi_now io, checker = wi_checker io, absolute_lifetime = wi_lifetime io,
      users_json = aw_users (wb_files w), groups_json = aw_groups (wb_files w), known_tabs = web_tabs io\<rparr>"

definition web_log :: "web_world \<Rightarrow> logger" where
  "web_log w = aw_log (wb_files w)"

definition set_web_log :: "logger \<Rightarrow> web_world \<Rightarrow> web_world" where
  "set_web_log lg w = w\<lparr>wb_files := (wb_files w)\<lparr>aw_log := lg\<rparr>\<rparr>"

datatype web_call =
    LoginForm login_request
  | SsoLogin string
  | LogoutForm
  | DashboardPage
  | DashboardCards
  | SearchPage
  | SearchTargets
  | SearchFields string string
  | SearchDevices string
  | SearchLogs search_body
  | AdminCall admin_request
  | SummaryCall external_request
  | UsageCall external_request
  | SuiteManifest string
  | SuiteHealth string
  | SuitePush string "json option"

text \<open>Method and path of a call, as the routes declare them.\<close>

fun admin_route :: "admin_request \<Rightarrow> string \<times> string" where
  "admin_route AdminPage = (''GET'', ''/admin/'')"
| "admin_route GroupsList = (''GET'', ''/admin/api/groups'')"
| "admin_route (GroupsCreate _) = (''POST'', ''/admin/api/groups'')"
| "admin_route (GroupsUpdate n _) = (''PUT'', ''/admin/api/groups/'' @ n)"
| "admin_route (GroupsDelete n) = (''DELETE'', ''/admin/api/groups/'' @ n)"
| "admin_route TargetsList = (''GET'', ''/admin/api/faz-targets'')"
| "admin_route (TargetsCreate _) = (''POST'', ''/admin/api/faz-targets'')"
| "admin_route (TargetsUpdate l _) = (''PUT'', ''/admin/api/faz-targets/'' @ l)"
| "admin_route (TargetsDelete l) = (''DELETE'', ''/admin/api/faz-targets/'' @ l)"
| "admin_route UsersList = (''GET'', ''/admin/api/users'')"
| "admin_route TabsList = (''GET'', ''/admin/api/tabs'')"
| "admin_route (LogsGet _ _ _) = (''GET'', ''/admin/api/logs'')"
| "admin_route (LogsSetLevel _) = (''POST'', ''/admin/api/logs/level'')"
| "admin_route LogsClear = (''DELETE'', ''/admin/api/logs'')"
| "admin_route (HostMetricsGet _) = (''GET'', ''/admin/api/host-metrics'')"
| "admin_route SettingsGet = (''GET'', ''/admin/api/settings'')"
| "admin_route (SettingsUpdate _) = (''PUT'', ''/admin/api/settings'')"
| "admin_route TokensList = (''GET'', ''/admin/api/tokens'')"
| "admin_route (TokensCreate _) = (''POST'', ''/admin/api/tokens'')"
| "admin_route (TokensRevoke i) = (''DELETE'', ''/admin/api/tokens/'' @ i)"

fun route :: "web_call \<Rightarrow> string \<times> string" where
  "route (LoginForm r) = (if lr_post r then ''POST'' else ''GET'', ''/login'')"
| "route (SsoLogin _) = (''GET'', ''/sso/login'')"
| "route LogoutForm = (''POST'', ''/logout'')"
| "route DashboardPage = (''GET'', ''/'')"
| "route DashboardCards = (''GET'', ''/api/dashboard'')"
| "route SearchPage = (''GET'', ''/log-search'')"
| "route SearchTargets = (''GET'', ''/api/log-search/targets'')"
| "route (SearchFields _ _) = (''GET'', ''/api/log-search/fields'')"
| "route (SearchDevices _) = (''GET'', ''/api/log-search/devices'')"
| "route (SearchLogs _) = (''POST'', ''/api/log-search'')"
| "route (AdminCall r) = admin_route r"
| "route (SummaryCall _) = (''GET'', ''/external/api/executive/summary'')"
| "route (UsageCall _) = (''POST'', ''/external/api/log-usage'')"
| "route (SuiteManifest _) = (''GET'', ''/4tsuite/manifest'')"
| "route (SuiteHealth _) = (''GET'', ''/4tsuite/health'')"
| "route (SuitePush _ _) = (''POST'', ''/4tsuite/groups'')"

text \<open>The HTTP request of a call with the CSRF token in a header or form field. The endpoint matters to the
  filter only when it is the static files', which are no call here.\<close>

definition request_of :: "web_call \<Rightarrow> string option \<Rightarrow> string option \<Rightarrow> http_request" where
  "request_of call header form =
     \<lparr>rq_method = fst (route call), rq_path = snd (route call), rq_endpoint = ''app'',
      rq_header_token = header, rq_form_token = form\<rparr>"

text \<open>What every template is given, and the session after it.\<close>

record page_globals =
  pg_role :: string
  pg_tabs :: "string set"
  pg_nav :: registry
  pg_csrf :: string

definition inject_session_globals :: "string \<Rightarrow> registry \<Rightarrow> session \<Rightarrow> page_globals \<times> session" where
  "inject_session_globals fresh reg s =
     (case ensure_csrf_token fresh s of
        (tok, s') \<Rightarrow>
          (\<lparr>pg_role = or_default ''viewer'' (s_role s), pg_tabs = visible_tabs (map fst (registry_tabs reg)) s,
            pg_nav = get_registry reg, pg_csrf = tok\<rparr>, s'))"

text \<open>The request filter has made sure of a token, so that rendering a page leaves the session alone and
  its forms carry the token the filter will expect.\<close>

lemma globals_after_filter:
  assumes "security_filters fresh rq s = (r, s1)" and "fresh \<noteq> []"
  shows "snd (inject_session_globals fresh' reg s1) = s1"
    and "s_csrf_token s1 = Some (pg_csrf (fst (inject_session_globals fresh' reg s1)))"
  using assms
  by (auto simp: security_filters_def inject_session_globals_def ensure_csrf_token_def Let_def
      split: if_splits option.splits) (cases "s_csrf_token s1"; simp)+

datatype web_reply =
    AuthReply auth_response
  | PageReply "page_globals api_response"
  | CardsReply "health_entry list api_response"
  | TargetsReply "target_view list api_response"
  | FieldsReply "json api_response"
  | DevicesReply "device list api_response"
  | SearchReply "search_result api_response"
  | AdminReply "admin_reply api_response"
  | SummaryReply "summary external_reply"
  | UsageReply "usage_response external_reply"
  | SuiteReply tsuite_response
  | Refusal refusal
  | InternalError

fun answered :: "('a \<Rightarrow> web_reply) \<Rightarrow> 'e + 'a \<Rightarrow> web_reply" where
  "answered f (Inl _) = InternalError"
| "answered f (Inr x) = f x"

section \<open>One request\<close>

definition set_server :: "server \<Rightarrow> web_world \<Rightarrow> web_world" where
  "set_server st w = set_web_log (srv_log st) (w\<lparr>wb_limiter := srv_limiter st\<rparr>)"

definition external_of :: "web_world \<Rightarrow> external_world" where
  "external_of w =
     \<lparr>ex_settings = aw_settings (wb_files w), ex_tokens = aw_tokens (wb_files w),
      ex_targets = aw_targets (wb_files w), ex_health = wb_health w, ex_logs = wb_logs w,
      ex_threats = wb_threats w, ex_log = web_log w\<rparr>"

definition set_external :: "external_world \<Rightarrow> web_world \<Rightarrow> web_world" where
  "set_external x w =
     set_web_log (ex_log x) (w\<lparr>wb_health := ex_health x, wb_logs := ex_logs x, wb_threats := ex_threats x\<rparr>)"

definition dashboard_page :: "string \<Rightarrow> registry \<Rightarrow> env \<Rightarrow> session \<Rightarrow> page_globals api_response result \<times> session" where
  "dashboard_page fresh reg e =
     behind_tab ''dashboard'' e ''/'' (\<lambda>s. Inr (ApiOk (fst (inject_session_globals fresh reg s))))"

definition search_page :: "string \<Rightarrow> registry \<Rightarrow> env \<Rightarrow> session \<Rightarrow> page_globals api_response result \<times> session" where
  "search_page fresh reg e =
     behind_tab ''log_search'' e ''/log-search'' (\<lambda>s. Inr (ApiOk (fst (inject_session_globals fresh reg s))))"

fun dispatch ::
  "(string \<Rightarrow> string \<Rightarrow> bool result) \<Rightarrow> (string \<Rightarrow> string option) \<Rightarrow> web_io \<Rightarrow> web_call \<Rightarrow> session \<Rightarrow> web_world
   \<Rightarrow> web_reply \<times> session \<times> web_world" where
  "dispatch checkpw verify io (LoginForm req) s w =
     (case login checkpw (wi_url_for io) (web_registry io) (web_env io w) req
             \<lparr>srv_limiter = wb_limiter w, srv_log = web_log w\<rparr> s of
        (r, st, s') \<Rightarrow> (answered AuthReply r, s', set_server st w))"
| "dispatch checkpw verify io (SsoLogin tok) s w =
     (case sso_login verify (wi_url_for io) (web_registry io) (web_env io w) tok (wi_stamp io)
             \<lparr>srv_limiter = wb_limiter w, srv_log = web_log w\<rparr> s of
        (r, st, s') \<Rightarrow> (answered AuthReply r, s', set_server st w))"
| "dispatch checkpw verify io LogoutForm s w =
     (case logout (wi_url_for io) (wi_stamp io) \<lparr>srv_limiter = wb_limiter w, srv_log = web_log w\<rparr> s of
        (r, st, s') \<Rightarrow> (answered AuthReply r, s', set_server st w))"
| "dispatch checkpw verify io DashboardPage s w =
     (case dashboard_page (wi_fresh io) (web_registry io) (web_env io w) s of (r, s') \<Rightarrow> (answered PageReply r, s', w))"
| "dispatch checkpw verify io DashboardCards s w =
     (case api_dashboard (web_env io w) (aw_targets (wb_files w)) ((wb_health w)\<lparr>hw_log := web_log w\<rparr>) s of
        (r, h, s') \<Rightarrow> (answered CardsReply r, s', set_web_log (hw_log h) (w\<lparr>wb_health := h\<rparr>)))"
| "dispatch checkpw verify io SearchPage s w =
     (case search_page (wi_fresh io) (web_registry io) (web_env io w) s of (r, s') \<Rightarrow> (answered PageReply r, s', w))"
| "dispatch checkpw verify io SearchTargets s w =
     (case api_targets (web_env io w) (aw_targets (wb_files w)) s of (r, s') \<Rightarrow> (answered TargetsReply r, s', w))"
| "dispatch checkpw verify io (SearchFields l t) s w =
     (case api_fields (wi_search io) (web_env io w) (aw_targets (wb_files w)) l t s of
        (r, s') \<Rightarrow> (answered FieldsReply r, s', w))"
| "dispatch checkpw verify io (SearchDevices l) s w =
     (case api_devices (wi_search io) (web_env io w) (aw_targets (wb_files w)) l s of
        (r, s') \<Rightarrow> (answered DevicesReply r, s', w))"
| "dispatch checkpw verify io (SearchLogs b) s w =
     (case api_search (wi_search io) (web_env io w) (aw_targets (wb_files w)) (wi_stamp io) b (web_log w) s of
        (r, lg, s') \<Rightarrow> (answered SearchReply r, s', set_web_log lg w))"
| "dispatch checkpw verify io (AdminCall req) s w =
     (case admin_api (wi_admin io) (web_env io w) (snd (admin_route req)) req s (wb_files w) of
        (r, s', f) \<Rightarrow> (answered AdminReply r, s', w\<lparr>wb_files := f\<rparr>))"
| "dispatch checkpw verify io (SummaryCall rq) s w =
     (case api_executive_summary (ai_sha (wi_admin io)) (wi_summary io) rq (external_of w) of
        (r, x) \<Rightarrow> (answered SummaryReply r, s, set_external x w))"
| "dispatch checkpw verify io (UsageCall rq) s w =
     (case api_log_usage (ai_sha (wi_admin io)) (wi_usage io) (sc_post (wi_search io)) (sc_text (wi_search io))
             (wi_usage_clock io) (wi_seconds io) rq (external_of w) of
        (r, x) \<Rightarrow> (answered UsageReply r, s, set_external x w))"
| "dispatch checkpw verify io (SuiteManifest header) s w =
     (answered SuiteReply
        (manifest (wi_service io) (web_tabs io) (wi_checker io \<noteq> None) header (aw_groups (wb_files w))), s, w)"
| "dispatch checkpw verify io (SuiteHealth header) s w =
     (SuiteReply (health (wi_service io) header), s, w)"
| "dispatch checkpw verify io (SuitePush header body) s w =
     (case receive_group_push (wi_service io) (web_tabs io) header body (aw_groups (wb_files w)) of
        (r, f) \<Rightarrow> (answered SuiteReply r, s, w\<lparr>wb_files := (wb_files w)\<lparr>aw_groups := f\<rparr>\<rparr>))"

definition serve ::
  "(string \<Rightarrow> string \<Rightarrow> bool result) \<Rightarrow> (string \<Rightarrow> string option) \<Rightarrow> web_io \<Rightarrow> string option \<Rightarrow> string option \<Rightarrow> web_call
   \<Rightarrow> session \<Rightarrow> web_world \<Rightarrow> web_reply \<times> session \<times> web_world" where
  "serve checkpw verify io header form call s w =
     (case security_filters (wi_fresh io) (request_of call header form) s of
        (Inl _, s') \<Rightarrow> (InternalError, s', w)
      | (Inr (Some r), s') \<Rightarrow> (Refusal r, s', w)
      | (Inr None, s') \<Rightarrow> dispatch checkpw verify io call s' w)"

section \<open>Runs\<close>

text \<open>\<open>web_reachable checkpw verify w0 es cs w\<close>: from \<open>w0\<close>, requests of any clients, runs of the
  tools and polls, in any order, can lead to \<open>w\<close>; \<open>es\<close> are the surroundings the requests found,
  newest first, and \<open>cs\<close> the cookies given out, the empty one of a new client among them.\<close>

inductive web_reachable ::
  "(string \<Rightarrow> string \<Rightarrow> bool result) \<Rightarrow> (string \<Rightarrow> string option) \<Rightarrow> web_world \<Rightarrow> env list \<Rightarrow> session list
   \<Rightarrow> web_world \<Rightarrow> bool"
  for checkpw verify w0 where
    start: "web_reachable checkpw verify w0 [] [empty_session] w0"
  | request: "web_reachable checkpw verify w0 es cs w \<Longrightarrow> s \<in> set cs \<Longrightarrow>
      serve checkpw verify io header form call s w = (r, s', w') \<Longrightarrow>
      web_reachable checkpw verify w0 (web_env io w # es) (s' # cs) w'"
  | accounts_tool: "web_reachable checkpw verify w0 es cs w \<Longrightarrow>
      manage_users hashpw text_of typed key cmd (aw_users (wb_files w)) = (r, f) \<Longrightarrow>
      web_reachable checkpw verify w0 es cs (w\<lparr>wb_files := (wb_files w)\<lparr>aw_users := f\<rparr>\<rparr>)"
  | tokens_tool: "web_reachable checkpw verify w0 es cs w \<Longrightarrow>
      manage_api_tokens sha hex uuid cmd' (aw_tokens (wb_files w), aw_settings (wb_files w)) = (r', tf, sf) \<Longrightarrow>
      web_reachable checkpw verify w0 es cs (w\<lparr>wb_files := (wb_files w)\<lparr>aw_tokens := tf, aw_settings := sf\<rparr>\<rparr>)"
  | health_poll: "web_reachable checkpw verify w0 es cs w \<Longrightarrow>
      FazHealth.poll_all_targets hcfg hio (aw_targets (wb_files w)) ((wb_health w)\<lparr>hw_log := web_log w\<rparr>) = (out, h) \<Longrightarrow>
      web_reachable checkpw verify w0 es cs (set_web_log (hw_log h) (w\<lparr>wb_health := h\<rparr>))"
  | log_poll: "web_reachable checkpw verify w0 es cs w \<Longrightarrow>
      LogStats.poll_all_targets post_of isofmt t collected cutoff threshold (aw_targets (wb_files w))
        ((wb_logs w)\<lparr>lw_log := web_log w\<rparr>) = l \<Longrightarrow>
      web_reachable checkpw verify w0 es cs (set_web_log (lw_log l) (w\<lparr>wb_logs := l\<rparr>))"
  | threat_poll: "web_reachable checkpw verify w0 es cs w \<Longrightarrow>
      ThreatStats.poll_all_targets tc u collected cutoff (aw_targets (wb_files w))
        ((wb_threats w)\<lparr>tw_log := web_log w\<rparr>) = Some (r'', x) \<Longrightarrow>
      web_reachable checkpw verify w0 es cs (set_web_log (tw_log x) (w\<lparr>wb_threats := x\<rparr>))"
  | host_poll: "web_reachable checkpw verify w0 es cs w \<Longrightarrow>
      poll_host_metrics p \<lparr>ho_rows = aw_rows (wb_files w), ho_log = web_log w\<rparr> = y \<Longrightarrow>
      web_reachable checkpw verify w0 es cs
        (set_web_log (ho_log y) (w\<lparr>wb_files := (wb_files w)\<lparr>aw_rows := ho_rows y\<rparr>\<rparr>))"

section \<open>The cookies\<close>

text \<open>A call leaves the session as a guard or a handler of \<^theory_text>\<open>SessionMachine\<close> does, or as it is.\<close>

lemma behind_tab_step:
  "behind_tab tab e path h s = (r, s') \<Longrightarrow> session_step checkpw verify e s s'"
  by (cases "tab_required tab e path s")
    (auto simp: behind_tab_def split: sum.splits option.splits intro: by_tab_guard)

lemma dispatch_session:
  assumes "dispatch checkpw verify io call s w = (r, s', w')"
  shows "s' = s \<or> session_step checkpw verify (web_env io w) s s'"
proof (cases call)
  case (AdminCall req)
  have "s' = snd (admin_required (env_of (web_env io w) (wb_files w)) (snd (admin_route req)) s)"
    using assms
    by (cases rule: admin_api_cases [of "web_env io w" "wb_files w" "snd (admin_route req)" s "wi_admin io" req])
      (simp_all add: AdminCall)
  then show ?thesis
    by (auto simp: env_of_def web_env_def intro!: by_admin_guard prod.collapse [symmetric])
qed (use assms in \<open>auto simp: dashboard_page_def search_page_def api_targets_def api_fields_def api_devices_def
       api_dashboard_def api_search_def split: prod.splits sum.splits option.splits
       intro: by_login by_sso by_logout by_tab_guard behind_tab_step\<close>)

lemma serve_session:
  assumes "serve checkpw verify io header form call s w = (r, s', w')"
  obtains s1 where "session_step checkpw verify (web_env io w) s s1"
    "s' = s1 \<or> session_step checkpw verify (web_env io w) s1 s'"
proof -
  obtain a s1 where a: "security_filters (wi_fresh io) (request_of call header form) s = (a, s1)"
    by (metis surj_pair)
  then have step: "session_step checkpw verify (web_env io w) s s1" by (rule by_filter)
  have "s' = s1 \<or> session_step checkpw verify (web_env io w) s1 s'"
    using assms dispatch_session [of checkpw verify io call s1 w r s' w']
    by (auto simp: serve_def a split: sum.splits option.splits)
  with step show thesis by (rule that)
qed

lemma serve_session_ok:
  assumes "serve checkpw verify io header form call s w = (r, s', w')"
    and verify: "\<And>t. verify t \<noteq> Some []" and "session_ok es s"
  shows "session_ok (web_env io w # es) s'"
proof -
  obtain s1 where s1: "session_step checkpw verify (web_env io w) s s1"
    "s' = s1 \<or> session_step checkpw verify (web_env io w) s1 s'"
    by (rule serve_session [OF assms(1)])
  have ok: "session_ok (web_env io w # es) s1" by (rule session_step_ok [OF s1(1) verify assms(3)])
  from s1(2) show ?thesis
  proof
    assume "session_step checkpw verify (web_env io w) s1 s'"
    then have "session_ok (web_env io w # web_env io w # es) s'" by (rule session_step_ok [OF _ verify ok])
    then show ?thesis by (rule session_ok_mono) simp
  qed (simp add: ok)
qed

lemma web_cookies_ok:
  "web_reachable checkpw verify w0 es cs w \<Longrightarrow> (\<And>t. verify t \<noteq> Some []) \<Longrightarrow> list_all (session_ok es) cs"
proof (induction rule: web_reachable.induct)
  case (request es cs w s io header form call r s' w')
  then have "session_ok es s" by (simp add: list_all_iff)
  from serve_session_ok [OF request.hyps(3) request.prems this] request show ?case
    by (auto simp: list_all_iff intro: session_ok_Cons)
qed (simp_all add: session_ok_empty)

section \<open>The files\<close>

definition stored :: "web_world \<Rightarrow> groups_file \<times> targets_file \<times> tokens_file \<times> settings_file" where
  "stored w = (aw_groups (wb_files w), aw_targets (wb_files w), aw_tokens (wb_files w), aw_settings (wb_files w))"

lemma stored_simps [simp]:
  "stored (set_web_log lg w) = stored w" "stored (w\<lparr>wb_health := h\<rparr>) = stored w"
  "stored (set_server st w) = stored w" "stored (set_external x w) = stored w"
  "aw_users (wb_files (set_web_log lg w)) = aw_users (wb_files w)"
  "aw_users (wb_files (set_server st w)) = aw_users (wb_files w)"
  "aw_users (wb_files (set_external x w)) = aw_users (wb_files w)"
  by (simp_all add: stored_def set_web_log_def set_server_def set_external_def)

text \<open>No administrator request touches the accounts, and those sent with GET touch no file.\<close>

lemmas all_handler_defs = admin_handler_defs targets_list_def targets_create_def targets_update_def
  targets_delete_def target_reply_def

lemma admin_keeps_users: "aw_users (snd (admin_handler io known user req w)) = aw_users w"
  by (cases req)
    (simp_all add: all_handler_defs Let_def split: sum.split option.split prod.split py_error.split bool.split)

lemma admin_get_reads:
  "\<not> state_changing (fst (admin_route req)) \<Longrightarrow>
     stored (w\<lparr>wb_files := snd (admin_handler io known user req (wb_files w))\<rparr>) = stored w"
  by (cases req) (simp_all add: state_changing_def stored_def all_handler_defs Let_def split: option.split)

lemma dispatch_frame:
  assumes "dispatch checkpw verify io call s w = (r, s', w')"
  shows "aw_users (wb_files w') = aw_users (wb_files w)"
    and "(case call of AdminCall _ \<Rightarrow> False | SuitePush _ _ \<Rightarrow> False | _ \<Rightarrow> True) \<Longrightarrow> stored w' = stored w"
proof -
  show "stored w' = stored w" if "case call of AdminCall _ \<Rightarrow> False | SuitePush _ _ \<Rightarrow> False | _ \<Rightarrow> True"
    using assms that by (cases call) (auto split: prod.splits)
  show "aw_users (wb_files w') = aw_users (wb_files w)"
  proof (cases call)
    case (AdminCall req)
    with assms show ?thesis
      by (cases rule: admin_api_cases [of "web_env io w" "wb_files w" "snd (admin_route req)" s "wi_admin io" req])
        (auto simp: admin_keeps_users)
  qed (use assms in \<open>auto split: prod.splits\<close>)
qed

section \<open>Who can change the files\<close>

definition csrf_expected :: "web_io \<Rightarrow> session \<Rightarrow> string" where
  "csrf_expected io s =
     (if or_default [] (s_csrf_token s) = [] then wi_fresh io else or_default [] (s_csrf_token s))"

lemma filter_passed:
  assumes "security_filters (wi_fresh io) rq s = (Inr None, s1)"
  shows "s1 = s\<lparr>s_csrf_token := s_csrf_token s1\<rparr>"
    and "state_changing (rq_method rq) \<Longrightarrow> \<not> csrf_exempt rq \<Longrightarrow>
      csrf_expected io s \<noteq> [] \<and> provided_token rq = csrf_expected io s"
  using assms
  by (auto simp: security_filters_def validate_csrf_request_def ensure_csrf_token_def compare_digest_def
      csrf_expected_def Let_def bind_result_Inr_iff split: if_splits)

lemma admin_not_exempt: "\<not> csrf_exempt (request_of (AdminCall req) header form)"
  by (cases req) (simp_all add: csrf_exempt_def request_of_def startswith_def)

lemma serve_cases:
  assumes "serve checkpw verify io header form call s w = (r, s', w')"
  obtains (stopped) "w' = w"
  | (passed) s1 where "security_filters (wi_fresh io) (request_of call header form) s = (Inr None, s1)"
      "dispatch checkpw verify io call s1 w = (r, s', w')"
  using assms by (auto simp: serve_def split: prod.splits sum.splits option.splits)

lemma admin_change:
  assumes ok: "session_ok es s"
    and filter: "security_filters (wi_fresh io) (request_of (AdminCall req) header form) s = (Inr None, s1)"
    and run: "dispatch checkpw verify io (AdminCall req) s1 w = (r, s', w')" and changed: "stored w' \<noteq> stored w"
  shows "session_live (web_env io w) s \<and>
    (\<exists>u. s_user s = Some u \<and>
       (if s_auth_source s = Some ''local'' then lists_admin (web_env io w) u
        else \<exists>e \<in> set (web_env io w # es). lists_admin e u)) \<and>
    csrf_expected io s \<noteq> [] \<and> provided_token (request_of (AdminCall req) header form) = csrf_expected io s"
proof -
  let ?e = "web_env io w"
  have same: "s1 = s\<lparr>s_csrf_token := s_csrf_token s1\<rparr>" by (rule filter_passed(1) [OF filter])
  then have ok1: "session_ok es s1" using ok session_ok_csrf by metis
  have e: "env_of ?e (wb_files w) = ?e" by (simp add: env_of_def web_env_def)
  obtain s2 where g: "admin_required ?e (snd (admin_route req)) s1 = (Inr None, s2)"
    and f: "wb_files w' = snd (admin_handler (wi_admin io) (known_tabs ?e) (or_default [] (s_user s2)) req (wb_files w))"
  proof (cases rule: admin_api_cases [of ?e "wb_files w" "snd (admin_route req)" s1 "wi_admin io" req])
    case (passed s2)
    with run show thesis by (intro that) (auto simp: e)
  qed (use run changed in \<open>auto simp: stored_def\<close>)
  have "stored (w\<lparr>wb_files := wb_files w'\<rparr>) \<noteq> stored w" using changed by (simp add: stored_def)
  then have "state_changing (fst (admin_route req))"
    using admin_get_reads [of req "wi_admin io" "known_tabs ?e" "or_default [] (s_user s2)" w] f by auto
  then have "csrf_expected io s \<noteq> [] \<and> provided_token (request_of (AdminCall req) header form) = csrf_expected io s"
    using filter_passed(2) [OF filter] admin_not_exempt by (simp add: request_of_def)
  moreover have "session_live ?e s1 = session_live ?e s" "s_user s1 = s_user s" "s_auth_source s1 = s_auth_source s"
    by (subst same; simp add: session_live_def)+
  ultimately show ?thesis using admin_guard_facts [OF ok1 g] by simp
qed

text \<open>C1. The files change only with authority. In any state that any mix of clients, tools and polls can lead
  to, and whatever cookie a request carries among those ever given out, a request never changes the
  account file; and when it changes the groups, targets, tokens or settings, it is either an
  administrator's call with the CSRF token of a live session, whose user the account file lists as an
  administrator (now, for a local login; at this or an earlier request, for single sign-on), or a group
  push with a verified service token, which changes nothing but the groups.\<close>

theorem files_change_authorised:
  assumes run: "web_reachable checkpw (verify_token cr bundle) w0 es cs w" and cookie: "s \<in> set cs"
    and step: "serve checkpw (verify_token cr bundle) io header form call s w = (r, s', w')"
  shows "aw_users (wb_files w') = aw_users (wb_files w) \<and>
    (if stored w' = stored w then True
     else case call of
       AdminCall req \<Rightarrow>
         session_live (web_env io w) s \<and>
         (\<exists>u. s_user s = Some u \<and>
            (if s_auth_source s = Some ''local'' then lists_admin (web_env io w) u
             else \<exists>e \<in> set (web_env io w # es). lists_admin e u)) \<and>
         csrf_expected io s \<noteq> [] \<and> provided_token (request_of call header form) = csrf_expected io s
     | SuitePush authorization body \<Rightarrow>
         require_scope (wi_service io) authorization ''groups_push'' \<and>
         stored w' = (aw_groups (wb_files w'), snd (stored w))
     | _ \<Rightarrow> False)"
  using step
proof (cases rule: serve_cases)
  case (passed s1)
  note users = dispatch_frame(1) [OF passed(2)]
  show ?thesis
  proof (cases "stored w' = stored w")
    case False
    have ok: "session_ok es s"
      using web_cookies_ok [OF run verify_token_nonempty] cookie by (simp add: list_all_iff)
    show ?thesis
    proof (cases call)
      case (AdminCall req)
      with admin_change [OF ok _ _ False] passed users False show ?thesis by simp
    next
      case (SuitePush authorization body)
      with passed(2) users False show ?thesis
        by (auto simp: stored_def receive_group_push_def split: prod.splits if_splits)
    qed (use False dispatch_frame(2) [OF passed(2)] in simp_all)
  qed (simp add: users)
qed simp

section \<open>A client's visit, computed\<close>

text \<open>One client browses with the cookie it was last given.\<close>

fun browse ::
  "(string \<Rightarrow> string \<Rightarrow> bool result) \<Rightarrow> (string \<Rightarrow> string option) \<Rightarrow> web_io \<Rightarrow> (web_call \<times> string option) list
   \<Rightarrow> session \<times> web_world \<Rightarrow> session \<times> web_world" where
  "browse checkpw verify io [] (s, w) = (s, w)"
| "browse checkpw verify io ((call, header) # calls) (s, w) =
     (case serve checkpw verify io header None call s w of
        (r, s', w') \<Rightarrow> browse checkpw verify io calls (s', w'))"

lemma browse_reachable:
  "web_reachable checkpw verify w0 es cs w \<Longrightarrow> s \<in> set cs \<Longrightarrow> browse checkpw verify io calls (s, w) = (s', w') \<Longrightarrow>
     \<exists>es' cs'. web_reachable checkpw verify w0 es' cs' w' \<and> s' \<in> set cs'"
proof (induction calls arbitrary: es cs s w)
  case (Cons c calls)
  obtain call header where c: "c = (call, header)" by (cases c)
  obtain r s1 w1 where st: "serve checkpw verify io header None call s w = (r, s1, w1)" by (metis prod_cases3)
  have "web_reachable checkpw verify w0 (web_env io w # es) (s1 # cs) w1"
    by (rule web_reachable.request [OF Cons.prems(1, 2) st])
  from Cons.IH [OF this, of s1] Cons.prems(3) show ?case by (simp add: c st)
qed auto

text \<open>An administrator fetches the login form, logs in with the token it carries, opens the admin page and
  so gets the token of the new session.\<close>

definition web_sample_io :: web_io where
  "web_sample_io =
     \<lparr>wi_now = 100, wi_checker = None, wi_lifetime = 36000, wi_fresh = ''tok'', wi_stamp = ''t'',
      wi_url_for = (\<lambda>x. x),
      wi_admin = \<lparr>ai_stamp = ''t'', ai_exc_text = (\<lambda>_. ''error''), ai_sha = rev, ai_hex = ''ab'',
                  ai_uuid = ''u1'', ai_seconds = 0, ai_registry = app_registry\<rparr>,
      wi_search = \<lparr>sc_post = (\<lambda>_ _. Inr (JObj [])), sc_clock = of_nat, sc_fuel = 1, sc_convert = (\<lambda>_ _. None),
                   sc_show = (\<lambda>_. []), sc_text = (\<lambda>_. []), sc_filter_text = (\<lambda>_. []),
                   sc_expr_text = (\<lambda>_. []), sc_limit = 1000, sc_timeout = 60\<rparr>,
      wi_service = (\<lambda>_ _. Inr None), wi_summary = external_sample_config,
      wi_usage = \<lparr>se_convert = (\<lambda>_ _. None), se_clock = of_nat, se_fuel = 1, se_str = (\<lambda>_. []),
                  se_limit = 1000, se_timeout = 60\<rparr>,
      wi_usage_clock = of_nat, wi_seconds = 0\<rparr>"

definition web_sample_world :: web_world where
  "web_sample_world =
     \<lparr>wb_files = \<lparr>aw_users = sample_users, aw_groups = Absent, aw_targets = Absent, aw_tokens = Absent,
                  aw_settings = Absent, aw_log = init_logger, aw_rows = []\<rparr>,
      wb_limiter = \<lparr>ip_failures = [], user_failures = []\<rparr>,
      wb_health = \<lparr>hw_cache = [], hw_store = [], hw_log = init_logger\<rparr>,
      wb_logs = \<lparr>lw_cache = empty_log_cache, lw_store = [], lw_history = [], lw_log = init_logger\<rparr>,
      wb_threats = empty_threats\<rparr>"

definition web_login :: "bool \<Rightarrow> login_request" where
  "web_login post =
     \<lparr>lr_post = post, lr_username = ''ana'', lr_password = ''pw'', lr_remote = None, lr_next = [],
      lr_check = 100, lr_record = 100, lr_stamp = ''t''\<rparr>"

definition web_visit :: "session \<times> web_world" where
  "web_visit =
     browse (\<lambda>_ _. Inr True) sample_sso web_sample_io
       [(LoginForm (web_login False), None), (LoginForm (web_login True), Some ''tok''), (AdminCall AdminPage, None)]
       (empty_session, web_sample_world)"

definition web_change :: "web_reply \<times> session \<times> web_world" where
  "web_change =
     serve (\<lambda>_ _. Inr True) sample_sso web_sample_io (Some ''tok'') None
       (AdminCall (SettingsUpdate (Some (JBool True)))) (fst web_visit) (snd web_visit)"

lemma files_change_authorised_witness:
  "feature_enabled (aw_settings (wb_files (snd (snd web_change)))) \<and>
   \<not> feature_enabled (aw_settings (wb_files (snd web_visit))) \<and>
   session_live (web_env web_sample_io (snd web_visit)) (fst web_visit) \<and>
   provided_token (request_of (AdminCall (SettingsUpdate (Some (JBool True)))) (Some ''tok'') None) =
     csrf_expected web_sample_io (fst web_visit)"
proof -
  have on: "feature_enabled (aw_settings (wb_files (snd (snd web_change))))"
    "\<not> feature_enabled (aw_settings (wb_files (snd web_visit)))"
    by code_simp+
  then have changed: "stored (snd (snd web_change)) \<noteq> stored (snd web_visit)" by (auto simp: stored_def)
  obtain es cs where run: "web_reachable (\<lambda>_ _. Inr True) sample_sso web_sample_world es cs (snd web_visit)"
    "fst web_visit \<in> set cs"
    using browse_reachable [OF web_reachable.start _ prod.collapse [symmetric], of empty_session]
    unfolding web_visit_def by fastforce
  have step: "serve (\<lambda>_ _. Inr True) sample_sso web_sample_io (Some ''tok'') None
      (AdminCall (SettingsUpdate (Some (JBool True)))) (fst web_visit) (snd web_visit) =
      (fst web_change, fst (snd web_change), snd (snd web_change))"
    by (simp add: web_change_def)
  show ?thesis
    using files_change_authorised [OF run [unfolded sample_sso_def] step [unfolded sample_sso_def]] changed on
    by simp
qed

end
