(* ===== verification/ThreatHistory.thy ===== *)
theory ThreatHistory
  imports ThreatStats
begin

text \<open>
  \<^verbatim>\<open>app/threat_stats_history.py\<close> at the level of its SQLite table: the migration
  (\<^verbatim>\<open>init_db\<close>), the insertion by column names, the selection of the newest row and the
  pruning. \<^theory_text>\<open>ThreatStats\<close> works on a list of rollups instead; the abstraction reads the rows of
  a table, columns of an older schema included, as such a list, and every operation is shown to
  refine the one there. JSON text in a column stands for the value it encodes.
\<close>

section \<open>The table\<close>

text \<open>A table is the order of its columns and its rows, each a dictionary over them; \<open>None\<close> is a
  database file without the table.\<close>

type_synonym sql_row = "(string, json) dict"

record sql_table =
  st_columns :: "string list"
  st_rows :: "sql_row list"

definition BASE_COLUMNS :: "string list" where
  "BASE_COLUMNS =
     [''collected_at'', ''alerts_unacked_total'', ''alerts_unacked_by_severity'', ''ips_detections_24h'',
      ''ips_blocked_24h'', ''ips_blocked_pct'', ''top_signatures'', ''top_source_countries'']"

definition NEW_COLUMNS :: sql_row where
  "NEW_COLUMNS =
     [(''failed_admin_logins_24h'', JInt 0), (''devices_with_failed_logins'', JInt 0),
      (''top_failed_sources'', JStr ''[]''), (''admin_logins_outside_hours_24h'', JInt 0),
      (''ipsec_tunnels_total'', JInt 0), (''ipsec_tunnels_down'', JInt 0), (''ssl_vpn_users_now'', JInt 0)]"

text \<open>\<^verbatim>\<open>ALTER TABLE ... ADD COLUMN ... NOT NULL DEFAULT\<close>.\<close>

definition add_column :: "string \<Rightarrow> json \<Rightarrow> sql_table \<Rightarrow> sql_table" where
  "add_column c dflt t = t\<lparr>st_columns := st_columns t @ [c], st_rows := map (\<lambda>r. r @ [(c, dflt)]) (st_rows t)\<rparr>"

definition init_db :: "sql_table option \<Rightarrow> sql_table" where
  "init_db db =
     (let t = (case db of None \<Rightarrow> \<lparr>st_columns = BASE_COLUMNS, st_rows = []\<rparr> | Some t \<Rightarrow> t);
          existing = st_columns t
      in fold (\<lambda>(c, dflt) t. if c \<in> set existing then t else add_column c dflt t) NEW_COLUMNS t)"

text \<open>\<^verbatim>\<open>INSERT INTO\<close> names its columns; a name the table does not have is an error.\<close>

definition insert_row :: "sql_row \<Rightarrow> sql_table \<Rightarrow> sql_table option" where
  "insert_row r t =
     (if set (map fst r) \<subseteq> set (st_columns t)
      then Some (t\<lparr>st_rows := st_rows t @ [map (\<lambda>c. (c, dict_get r c JNull)) (st_columns t)]\<rparr>)
      else None)"

text \<open>The text of the time, as SQLite compares and orders it.\<close>

definition row_time :: "sql_row \<Rightarrow> string" where
  "row_time r = (case dict_get r ''collected_at'' JNull of JStr s \<Rightarrow> s | _ \<Rightarrow> [])"

definition delete_before :: "string \<Rightarrow> sql_table \<Rightarrow> sql_table" where
  "delete_before cutoff t = t\<lparr>st_rows := filter (\<lambda>r. \<not> row_time r < cutoff) (st_rows t)\<rparr>"

definition encode_top :: "string \<Rightarrow> top_list \<Rightarrow> json" where
  "encode_top key rows = JList (map (\<lambda>(x, n). JObj [(key, x), (''count'', JInt n)]) rows)"

definition encode_rollup :: "threat_rollup \<Rightarrow> sql_row" where
  "encode_rollup r =
     [(''collected_at'', JStr (tr_collected_at r)), (''alerts_unacked_total'', JInt (tr_alerts r)),
      (''alerts_unacked_by_severity'', JObj (map (\<lambda>(k, n). (k, JInt n)) (tr_by_severity r))),
      (''ips_detections_24h'', JInt (tr_detections r)), (''ips_blocked_24h'', JInt (tr_blocked r)),
      (''ips_blocked_pct'', JFloat (tr_blocked_pct r)), (''top_signatures'', encode_top ''signature'' (tr_signatures r)),
      (''top_source_countries'', encode_top ''country'' (tr_countries r)),
      (''failed_admin_logins_24h'', JInt (tr_failed_logins r)),
      (''devices_with_failed_logins'', JInt (int (tr_failed_devices r))),
      (''top_failed_sources'', encode_top ''source'' (tr_failed_sources r)),
      (''admin_logins_outside_hours_24h'', JInt (tr_outside_hours r)),
      (''ipsec_tunnels_total'', JInt (int (tr_tunnels_total r))),
      (''ipsec_tunnels_down'', JInt (int (tr_tunnels_down r))),
      (''ssl_vpn_users_now'', JInt (int (tr_ssl_users r)))]"

definition decode_int :: "string \<Rightarrow> sql_row \<Rightarrow> int" where
  "decode_int c r = (case dict_get r c JNull of JInt i \<Rightarrow> i | _ \<Rightarrow> 0)"

definition decode_top :: "string \<Rightarrow> string \<Rightarrow> sql_row \<Rightarrow> top_list" where
  "decode_top key c r =
     (case dict_get r c JNull of
        JList xs \<Rightarrow>
          map (\<lambda>x. case x of
                 JObj d \<Rightarrow> (dict_get d key JNull, case dict_get d ''count'' JNull of JInt n \<Rightarrow> n | _ \<Rightarrow> 0)
               | _ \<Rightarrow> (JNull, 0)) xs
      | _ \<Rightarrow> [])"

definition decode_row :: "sql_row \<Rightarrow> threat_rollup" where
  "decode_row r =
     \<lparr>tr_collected_at = row_time r, tr_alerts = decode_int ''alerts_unacked_total'' r,
      tr_by_severity =
        (case dict_get r ''alerts_unacked_by_severity'' JNull of
           JObj d \<Rightarrow> map (\<lambda>(k, v). (k, case v of JInt n \<Rightarrow> n | _ \<Rightarrow> 0)) d | _ \<Rightarrow> []),
      tr_detections = decode_int ''ips_detections_24h'' r, tr_blocked = decode_int ''ips_blocked_24h'' r,
      tr_blocked_pct = (case dict_get r ''ips_blocked_pct'' JNull of JFloat q \<Rightarrow> q | _ \<Rightarrow> 0),
      tr_signatures = decode_top ''signature'' ''top_signatures'' r,
      tr_countries = decode_top ''country'' ''top_source_countries'' r,
      tr_failed_logins = decode_int ''failed_admin_logins_24h'' r,
      tr_failed_devices = nat (decode_int ''devices_with_failed_logins'' r),
      tr_failed_sources = decode_top ''source'' ''top_failed_sources'' r,
      tr_outside_hours = decode_int ''admin_logins_outside_hours_24h'' r,
      tr_tunnels_total = nat (decode_int ''ipsec_tunnels_total'' r),
      tr_tunnels_down = nat (decode_int ''ipsec_tunnels_down'' r),
      tr_ssl_users = nat (decode_int ''ssl_vpn_users_now'' r)\<rparr>"

text \<open>\<^verbatim>\<open>SELECT\<close> the fifteen columns of the newest row; the left side is a missing column.\<close>

definition ALL_COLUMNS :: "string list" where
  "ALL_COLUMNS = BASE_COLUMNS @ map fst NEW_COLUMNS"

definition select_latest :: "sql_table \<Rightarrow> string + threat_rollup option" where
  "select_latest t =
     (if set ALL_COLUMNS \<subseteq> set (st_columns t)
      then Inr (map_option decode_row (newest_row row_time (st_rows t)))
      else Inl ''no such column'')"

section \<open>Processes that start and poll\<close>

text \<open>A process start runs the migration; a poll runs it too, then inserts its rollup and prunes.
  \<open>None\<close> is an insertion into a table that lacks a column.\<close>

datatype history_event = Started | Polled_rollup threat_rollup string

fun table_step :: "history_event \<Rightarrow> sql_table option \<Rightarrow> sql_table option" where
  "table_step Started db = Some (init_db db)"
| "table_step (Polled_rollup r cutoff) db =
     map_option (delete_before cutoff) (insert_row (encode_rollup r) (init_db db))"

fun table_run :: "history_event list \<Rightarrow> sql_table option \<Rightarrow> sql_table option" where
  "table_run [] db = db"
| "table_run (e # es) db = (case table_step e db of None \<Rightarrow> None | Some t \<Rightarrow> table_run es (Some t))"

text \<open>The specification: the list of rollups of \<^theory_text>\<open>ThreatStats\<close>.\<close>

fun rollups_step :: "history_event \<Rightarrow> threat_rollup list \<Rightarrow> threat_rollup list" where
  "rollups_step Started rows = rows"
| "rollups_step (Polled_rollup r cutoff) rows = prune_old_rows cutoff (write_rollup r rows)"

definition table_rollups :: "sql_table option \<Rightarrow> threat_rollup list" where
  "table_rollups db = (case db of None \<Rightarrow> [] | Some t \<Rightarrow> map decode_row (st_rows t))"

section \<open>Refinement\<close>

text \<open>A table of this schema or an older one: the base columns are there, no name twice, and a row has
  a value for every column.\<close>

definition table_ok :: "sql_table \<Rightarrow> bool" where
  "table_ok t \<longleftrightarrow>
     distinct (st_columns t) \<and> set BASE_COLUMNS \<subseteq> set (st_columns t) \<and>
     list_all (\<lambda>r. map fst r = st_columns t) (st_rows t)"

lemma decode_encode:
  assumes "\<And>c. c \<in> set ALL_COLUMNS \<Longrightarrow> dict_get row c JNull = dict_get (encode_rollup r) c JNull"
  shows "decode_row row = r"
proof -
  note cols = ALL_COLUMNS_def BASE_COLUMNS_def NEW_COLUMNS_def
  have top: "decode_top key c row = ts"
    if "dict_get row c JNull = encode_top key ts" "key \<noteq> ''count''" for key c ts
    using that by (auto simp: decode_top_def encode_top_def dict_get_def comp_def intro!: map_idI)
  have sev: "map ((\<lambda>(k, v). (k, case v of JInt n \<Rightarrow> n | _ \<Rightarrow> 0)) \<circ> (\<lambda>(k, n). (k, JInt n))) d = d"
    for d :: "(string \<times> int) list"
    by (rule map_idI) auto
  show ?thesis
    using assms
    by (simp add: decode_row_def row_time_def decode_int_def cols top encode_rollup_def dict_get_def sev)
qed

text \<open>The columns a table lacks, with their defaults.\<close>

definition missing_columns :: "sql_table \<Rightarrow> sql_row" where
  "missing_columns t = filter (\<lambda>(c, dflt). c \<notin> set (st_columns t)) NEW_COLUMNS"

lemma init_db_Some:
  "init_db (Some t) =
     t\<lparr>st_columns := st_columns t @ map fst (missing_columns t),
       st_rows := map (\<lambda>r. r @ missing_columns t) (st_rows t)\<rparr>"
proof -
  have "fold (\<lambda>(c, dflt) t. if c \<in> set existing then t else add_column c dflt t) xs t =
      t\<lparr>st_columns := st_columns t @ map fst (filter (\<lambda>(c, dflt). c \<notin> set existing) xs),
        st_rows := map (\<lambda>r. r @ filter (\<lambda>(c, dflt). c \<notin> set existing) xs) (st_rows t)\<rparr>" for existing xs
    by (induction xs arbitrary: t) (auto simp: add_column_def)
  then show ?thesis by (simp add: init_db_def Let_def missing_columns_def)
qed

lemma init_db_None: "init_db None = init_db (Some \<lparr>st_columns = BASE_COLUMNS, st_rows = []\<rparr>)"
  by (simp add: init_db_def)

lemma new_columns_distinct: "distinct (map fst NEW_COLUMNS)"
  by (simp add: NEW_COLUMNS_def)

lemma missing_names: "map fst (missing_columns t) = filter (\<lambda>c. c \<notin> set (st_columns t)) (map fst NEW_COLUMNS)"
  by (simp add: missing_columns_def filter_map comp_def split_def)

lemma init_db_ok:
  assumes "table_ok t"
  shows "table_ok (init_db (Some t))" and "set ALL_COLUMNS \<subseteq> set (st_columns (init_db (Some t)))"
proof -
  have "list_all (\<lambda>r. map fst r = st_columns t @ map fst (missing_columns t)) (map (\<lambda>r. r @ missing_columns t) (st_rows t))"
    using assms by (simp add: table_ok_def list.pred_map comp_def)
  moreover have "distinct (st_columns t @ map fst (missing_columns t))"
    using assms new_columns_distinct by (auto simp: table_ok_def missing_names simp del: set_map)
  ultimately show "table_ok (init_db (Some t))" using assms by (auto simp: table_ok_def init_db_Some)
  show "set ALL_COLUMNS \<subseteq> set (st_columns (init_db (Some t)))"
    using assms by (auto simp: table_ok_def init_db_Some missing_names ALL_COLUMNS_def simp del: set_map)
qed

lemma init_db_idem: "init_db (Some (init_db db)) = init_db db"
proof -
  have "map fst (missing_columns (init_db (Some t))) = []" for t
    by (simp add: init_db_Some missing_names filter_empty_conv del: set_map map_is_Nil_conv)
  then have "missing_columns (init_db (Some t)) = []" for t by simp
  then have "init_db (Some (init_db (Some t))) = init_db (Some t)" for t
    using init_db_Some [of "init_db (Some t)"] by simp
  then show ?thesis by (cases db) (simp_all add: init_db_None)
qed

text \<open>A column filled with its default decodes like an absent one.\<close>

lemma missing_default:
  assumes "map fst r = st_columns t"
  shows "dict_get (r @ missing_columns t) c JNull = dict_get r c JNull \<or>
    c \<notin> set BASE_COLUMNS \<and> dict_get r c JNull = JNull \<and>
    dict_get (r @ missing_columns t) c JNull \<in> {JInt 0, JStr ''[]''}"
proof (cases "map_of r c")
  case None
  show ?thesis
  proof (cases "map_of (missing_columns t) c")
    case (Some v)
    then have "(c, v) \<in> set NEW_COLUMNS" by (auto simp: missing_columns_def dest: map_of_SomeD)
    then have "c \<notin> set BASE_COLUMNS \<and> v \<in> {JInt 0, JStr ''[]''}" by (auto simp: NEW_COLUMNS_def BASE_COLUMNS_def)
    with None Some show ?thesis by (simp add: dict_get_def map_add_def)
  qed (use None in \<open>simp add: dict_get_def map_add_def\<close>)
qed (simp add: dict_get_def map_add_def split: option.split)

lemma decode_migrated:
  assumes "map fst r = st_columns t"
  shows "decode_row (r @ missing_columns t) = decode_row r"
proof -
  note m = missing_default [OF assms]
  have base: "dict_get (r @ missing_columns t) c JNull = dict_get r c JNull" if "c \<in> set BASE_COLUMNS" for c
    using m [of c] that by blast
  have "decode_int c (r @ missing_columns t) = decode_int c r" for c
    using m [of c] by (auto simp: decode_int_def)
  moreover have "decode_top key c (r @ missing_columns t) = decode_top key c r" for key c
    using m [of c] by (auto simp: decode_top_def)
  ultimately show ?thesis
    by (simp add: decode_row_def row_time_def base BASE_COLUMNS_def)
qed

lemma rollups_init:
  assumes "pred_option table_ok db"
  shows "table_rollups (Some (init_db db)) = table_rollups db"
proof (cases db)
  case None
  then show ?thesis by (simp add: table_rollups_def init_db_None init_db_Some)
next
  case (Some t)
  with assms show ?thesis
    by (auto simp: table_rollups_def init_db_Some table_ok_def list_all_iff decode_migrated)
qed

lemma base_table_ok: "table_ok \<lparr>st_columns = BASE_COLUMNS, st_rows = []\<rparr>"
  by (simp add: table_ok_def BASE_COLUMNS_def)

lemma started_ok:
  assumes "pred_option table_ok db"
  shows "table_ok (init_db db)" and "set ALL_COLUMNS \<subseteq> set (st_columns (init_db db))"
  using assms init_db_ok base_table_ok by (cases db; simp add: init_db_None)+

lemma insert_ok:
  assumes "table_ok t" and "set ALL_COLUMNS \<subseteq> set (st_columns t)"
  obtains t' where "insert_row (encode_rollup r) t = Some t'" and "table_ok t'"
    and "st_columns t' = st_columns t" and "map decode_row (st_rows t') = write_rollup r (map decode_row (st_rows t))"
proof -
  let ?row = "map (\<lambda>c. (c, dict_get (encode_rollup r) c JNull)) (st_columns t)"
  have "set (map fst (encode_rollup r)) = set ALL_COLUMNS"
    by (auto simp: encode_rollup_def ALL_COLUMNS_def BASE_COLUMNS_def NEW_COLUMNS_def)
  with assms(2) have ins: "insert_row (encode_rollup r) t = Some (t\<lparr>st_rows := st_rows t @ [?row]\<rparr>)"
    by (simp add: insert_row_def)
  have get: "map_of (map (\<lambda>c. (c, f c)) cs) c = (if c \<in> set cs then Some (f c) else None)" for f :: "string \<Rightarrow> json" and cs c
    by (induction cs) auto
  have "decode_row ?row = r"
    using assms(2) by (intro decode_encode) (auto simp: dict_get_def get)
  moreover have "table_ok (t\<lparr>st_rows := st_rows t @ [?row]\<rparr>)"
    using assms(1) by (simp add: table_ok_def comp_def)
  ultimately show thesis
    by (intro that [of "t\<lparr>st_rows := st_rows t @ [?row]\<rparr>"]) (simp_all add: ins write_rollup_def)
qed

lemma delete_rollups:
  "table_ok t \<Longrightarrow> table_ok (delete_before c t)"
  "st_columns (delete_before c t) = st_columns t"
  "map decode_row (st_rows (delete_before c t)) = prune_old_rows c (map decode_row (st_rows t))"
  by (auto simp: delete_before_def table_ok_def list_all_iff prune_old_rows_def filter_map comp_def decode_row_def)

lemma newest_row_map: "map_option f (newest_row (\<lambda>x. time (f x)) xs) = newest_row time (map f xs)"
proof -
  have "f (foldl (\<lambda>best x. if time (f best) < time (f x) then x else best) b xs) =
      foldl (\<lambda>best x. if time best < time x then x else best) (f b) (map f xs)" for b xs
    by (induction xs arbitrary: b) auto
  then show ?thesis by (cases xs) (simp_all add: newest_row_def)
qed

lemma select_refines:
  assumes "set ALL_COLUMNS \<subseteq> set (st_columns t)"
  shows "select_latest t = Inr (get_latest_rollup (map decode_row (st_rows t)))"
  using assms newest_row_map [of decode_row tr_collected_at "st_rows t"]
  by (simp add: select_latest_def get_latest_rollup_def decode_row_def)

lemma table_step_refines:
  assumes "pred_option table_ok db"
  obtains t where "table_step e db = Some t" and "table_ok t" and "set ALL_COLUMNS \<subseteq> set (st_columns t)"
    and "table_rollups (Some t) = rollups_step e (table_rollups db)"
proof (cases e)
  case Started
  with started_ok [OF assms] rollups_init [OF assms] that show thesis by simp
next
  case (Polled_rollup r c)
  from insert_ok [OF started_ok [OF assms]] obtain t' where t':
    "insert_row (encode_rollup r) (init_db db) = Some t'" "table_ok t'" "st_columns t' = st_columns (init_db db)"
    "map decode_row (st_rows t') = write_rollup r (map decode_row (st_rows (init_db db)))"
    by blast
  have "map decode_row (st_rows (init_db db)) = table_rollups db"
    using rollups_init [OF assms] by (simp add: table_rollups_def)
  with t' started_ok(2) [OF assms] Polled_rollup show thesis
    by (intro that [of "delete_before c t'"]) (simp_all add: delete_rollups table_rollups_def)
qed

text \<open>C11. The table implements the history. Whatever schema an earlier version left behind, with any rows
  in it, every sequence of process starts and polls succeeds (no insertion and no selection names a
  missing column), keeps the table well formed, and does to the rollups read from it exactly what the
  list operations do: starts change nothing, a poll appends its rollup and prunes, and the served row
  is the newest rollup.\<close>

theorem threat_history_refines:
  assumes "pred_option table_ok db" and "events \<noteq> []"
  shows "\<exists>t. table_run events db = Some t \<and> table_ok t \<and>
    table_rollups (Some t) = fold rollups_step events (table_rollups db) \<and>
    select_latest t = Inr (get_latest_rollup (fold rollups_step events (table_rollups db)))"
  using assms
proof (induction events arbitrary: db)
  case (Cons e es)
  obtain t where t: "table_step e db = Some t" "table_ok t" "set ALL_COLUMNS \<subseteq> set (st_columns t)"
    "table_rollups (Some t) = rollups_step e (table_rollups db)"
    using table_step_refines [OF Cons.prems(1)] by blast
  show ?case
  proof (cases "es = []")
    case True
    with t select_refines [OF t(3)] show ?thesis by (auto simp: table_rollups_def)
  next
    case False
    with Cons.IH [of "Some t"] t show ?thesis by simp
  qed
qed simp

text \<open>A table of the first schema with one row, a start, and a poll that prunes nothing.\<close>

definition old_table :: sql_table where
  "old_table =
     \<lparr>st_columns = BASE_COLUMNS,
      st_rows = [[(''collected_at'', JStr ''2025''), (''alerts_unacked_total'', JInt 4),
        (''alerts_unacked_by_severity'', JObj []), (''ips_detections_24h'', JInt 0), (''ips_blocked_24h'', JInt 0),
        (''ips_blocked_pct'', JFloat 0), (''top_signatures'', JList []), (''top_source_countries'', JList [])]]\<rparr>"

lemma threat_history_refines_witness:
  "\<exists>t. table_run [Started, Polled_rollup (empty_threat_cache\<lparr>tr_collected_at := ''2026''\<rparr>) ''2024''] (Some old_table) = Some t \<and>
     map tr_alerts (table_rollups (Some t)) = [4, 0] \<and>
     select_latest t = Inr (Some (empty_threat_cache\<lparr>tr_collected_at := ''2026''\<rparr>))"
proof -
  let ?es = "[Started, Polled_rollup (empty_threat_cache\<lparr>tr_collected_at := ''2026''\<rparr>) ''2024'']"
  have ok: "pred_option table_ok (Some old_table)" by (simp add: table_ok_def old_table_def BASE_COLUMNS_def)
  have a: "map tr_alerts (fold rollups_step ?es (table_rollups (Some old_table))) = [4, 0]" by code_simp
  have b: "get_latest_rollup (fold rollups_step ?es (table_rollups (Some old_table))) =
      Some (empty_threat_cache\<lparr>tr_collected_at := ''2026''\<rparr>)"
    by code_simp
  show ?thesis using threat_history_refines [OF ok, of ?es] unfolding a [symmetric] b [symmetric] by auto
qed

end
