(* ===== verification/Startup.thy ===== *)
theory Startup
  imports Security AppSettings AppLogger ThreatHistory
begin

text \<open>
  How the processes come up: \<^verbatim>\<open>app/config.py\<close> (the configuration read from the
  environment), the parts of \<^verbatim>\<open>create_app\<close> in \<^verbatim>\<open>app/__init__.py\<close> that set the response
  headers and start the pollers, \<^verbatim>\<open>app/collector.py\<close> with the \<^verbatim>\<open>init_scheduler\<close> of the four
  pollers, and the proxy count and development server of \<^verbatim>\<open>wsgi.py\<close>. The environment (after
  \<^verbatim>\<open>load_dotenv\<close>) is a function from names to values, \<^verbatim>\<open>os.path.exists\<close> an
  argument. A scheduler is the list of its jobs; APScheduler and the
  threads themselves are not modelled.
\<close>

section \<open>Configuration\<close>

type_synonym environ = "string \<Rightarrow> string option"

datatype config_error = SecretUnset | BadNumber string

type_synonym 'a config_result = "config_error + 'a"

definition env_get :: "environ \<Rightarrow> string \<Rightarrow> string \<Rightarrow> string" where
  "env_get e k dflt = or_default dflt (e k)"

definition env_true :: "environ \<Rightarrow> string \<Rightarrow> bool" where
  "env_true e k \<longleftrightarrow> lower (env_get e k ''false'') = ''true''"

definition env_int :: "environ \<Rightarrow> string \<Rightarrow> string \<Rightarrow> int config_result" where
  "env_int e k dflt = (case py_int (env_get e k dflt) of None \<Rightarrow> Inl (BadNumber k) | Some i \<Rightarrow> Inr i)"

text \<open>\<^verbatim>\<open>float(s)\<close>: white space, a sign, then a name of a non-finite value or decimal digits with
  an optional point and exponent; single underscores may separate digits.\<close>

definition digits_or_none :: "string \<Rightarrow> string option" where
  "digits_or_none s = (if s = [] then Some [] else int_digits s)"

definition unsigned_float :: "string \<Rightarrow> json option" where
  "unsigned_float s =
     (if s = ''inf'' \<or> s = ''infinity'' then Some (JNonFinite PosInf)
      else if s = ''nan'' then Some (JNonFinite NaN)
      else
        (case partition_at (CHR ''e'') s of
           (mantissa, has_exp, expo) \<Rightarrow>
             (case partition_at (CHR ''.'') mantissa of
                (a, _, b) \<Rightarrow>
                  (case (digits_or_none a, digits_or_none b,
                         if has_exp then (if expo = strip expo then py_int expo else None) else Some 0) of
                     (Some ds, Some fs, Some x) \<Rightarrow>
                       if ds @ fs = [] then None
                       else Some (JFloat (of_nat (decimal_value (ds @ fs)) / 10 ^ length fs * 10 powi x))
                   | _ \<Rightarrow> None))))"

definition py_float :: "string \<Rightarrow> json option" where
  "py_float s =
     (case lower (strip s) of
        [] \<Rightarrow> None
      | c # r \<Rightarrow>
          if c = CHR ''+'' then unsigned_float r
          else if c = CHR ''-'' then
            (case unsigned_float r of
               Some (JFloat q) \<Rightarrow> Some (JFloat (- q))
             | Some (JNonFinite PosInf) \<Rightarrow> Some (JNonFinite NegInf)
             | x \<Rightarrow> x)
          else unsigned_float (c # r))"

definition env_float :: "environ \<Rightarrow> string \<Rightarrow> string \<Rightarrow> json config_result" where
  "env_float e k dflt = (case py_float (env_get e k dflt) of None \<Rightarrow> Inl (BadNumber k) | Some x \<Rightarrow> Inr x)"

definition require_secret_key :: "environ \<Rightarrow> string config_result" where
  "require_secret_key e =
     (let val = env_get e ''SECRET_KEY'' [] in
      if val = [] \<or> val = ''change-me-in-production'' then Inl SecretUnset else Inr val)"

record config =
  cf_secret :: string
  cf_cookie_name :: string
  cf_cookie_secure :: bool
  cf_cookie_httponly :: bool
  cf_cookie_samesite :: string
  cf_session_lifetime :: int
  cf_absolute_lifetime :: int
  cf_max_content :: int
  cf_data_dir :: string
  cf_run_schedulers :: string
  cf_verify_ssl :: bool
  cf_request_timeout :: int
  cf_snmp_enabled :: bool
  cf_snmp_port :: int
  cf_snmp_timeout :: int
  cf_snmp_retries :: int
  cf_snmp_interval :: int
  cf_snmp_user :: string
  cf_snmp_auth :: "string \<times> string"
  cf_snmp_priv :: "string \<times> string"
  cf_cpu :: "json \<times> json"
  cf_mem :: "json \<times> json"
  cf_max_results :: int
  cf_search_interval :: json
  cf_search_timeout :: json
  cf_silent_minutes :: int
  cf_log_interval :: int
  cf_log_disabled :: bool
  cf_threat_interval :: int
  cf_threat_disabled :: bool
  cf_health_disabled :: bool
  cf_host_interval :: int
  cf_host_disabled :: bool
  cf_business_hours :: string
  cf_timezone :: string

definition cookie_secure :: "(string \<Rightarrow> bool) \<Rightarrow> environ \<Rightarrow> bool" where
  "cookie_secure exists e =
     (let ssl_active = exists (env_get e ''SSL_CERT'' ''certs/cert.pem'') \<and> exists (env_get e ''SSL_KEY'' ''certs/key.pem'');
          wanted = lower (env_get e ''COOKIE_SECURE'' ''auto'')
      in wanted = ''true'' \<or> wanted = ''auto'' \<and> ssl_active)"

text \<open>The class body of \<^verbatim>\<open>Config\<close>, in its order: the first value that does not convert stops the
  import.\<close>

definition load_config :: "(string \<Rightarrow> bool) \<Rightarrow> string \<Rightarrow> environ \<Rightarrow> config config_result" where
  "load_config exists base_dir e =
     bind_result (require_secret_key e) (\<lambda>secret.
     bind_result (env_int e ''SESSION_ABSOLUTE_LIFETIME'' ''36000'') (\<lambda>lifetime.
     bind_result (env_int e ''MAX_CONTENT_LENGTH'' ''4194304'') (\<lambda>max_content.
     bind_result (env_int e ''FAZ_REQUEST_TIMEOUT'' ''30'') (\<lambda>request_timeout.
     bind_result (env_int e ''SNMP_PORT'' ''161'') (\<lambda>port.
     bind_result (env_int e ''SNMP_TIMEOUT'' ''5'') (\<lambda>timeout.
     bind_result (env_int e ''SNMP_RETRIES'' ''1'') (\<lambda>retries.
     bind_result (env_int e ''SNMP_POLL_INTERVAL'' ''60'') (\<lambda>snmp_interval.
     bind_result (env_float e ''CPU_WARN'' ''70'') (\<lambda>cpu_warn.
     bind_result (env_float e ''CPU_CRIT'' ''90'') (\<lambda>cpu_crit.
     bind_result (env_float e ''MEM_WARN'' ''70'') (\<lambda>mem_warn.
     bind_result (env_float e ''MEM_CRIT'' ''90'') (\<lambda>mem_crit.
     bind_result (env_int e ''LOG_SEARCH_MAX_RESULTS'' ''1000'') (\<lambda>max_results.
     bind_result (env_float e ''LOG_SEARCH_POLL_INTERVAL'' ''2.0'') (\<lambda>search_interval.
     bind_result (env_float e ''LOG_SEARCH_TIMEOUT'' ''60.0'') (\<lambda>search_timeout.
     bind_result (env_int e ''SILENT_DEVICE_THRESHOLD_MINUTES'' ''60'') (\<lambda>silent.
     bind_result (env_int e ''LOG_STATS_POLL_INTERVAL'' ''300'') (\<lambda>log_interval.
     bind_result (env_int e ''THREAT_STATS_POLL_INTERVAL'' ''900'') (\<lambda>threat_interval.
     bind_result (env_int e ''HOST_METRICS_POLL_INTERVAL'' ''60'') (\<lambda>host_interval.
       Inr \<lparr>cf_secret = secret, cf_cookie_name = ''4tlog_session'', cf_cookie_secure = cookie_secure exists e,
            cf_cookie_httponly = True, cf_cookie_samesite = ''Lax'',
            cf_session_lifetime = 3600, cf_absolute_lifetime = lifetime, cf_max_content = max_content,
            cf_data_dir = env_get e ''DATA_DIR'' base_dir,
            cf_run_schedulers = env_get e ''RUN_SCHEDULERS'' ''collector'',
            cf_verify_ssl = env_true e ''FAZ_VERIFY_SSL'', cf_request_timeout = request_timeout,
            cf_snmp_enabled = env_true e ''SNMP_ENABLED'', cf_snmp_port = port, cf_snmp_timeout = timeout,
            cf_snmp_retries = retries, cf_snmp_interval = snmp_interval,
            cf_snmp_user = env_get e ''SNMP_USER'' [],
            cf_snmp_auth = (env_get e ''SNMP_AUTH_PROTOCOL'' ''SHA'', env_get e ''SNMP_AUTH_KEY'' []),
            cf_snmp_priv = (env_get e ''SNMP_PRIV_PROTOCOL'' ''AES'', env_get e ''SNMP_PRIV_KEY'' []),
            cf_cpu = (cpu_warn, cpu_crit), cf_mem = (mem_warn, mem_crit), cf_max_results = max_results,
            cf_search_interval = search_interval, cf_search_timeout = search_timeout,
            cf_silent_minutes = silent, cf_log_interval = log_interval,
            cf_log_disabled = env_true e ''LOG_STATS_POLL_DISABLED'', cf_threat_interval = threat_interval,
            cf_threat_disabled = env_true e ''THREAT_STATS_POLL_DISABLED'',
            cf_health_disabled = env_true e ''FAZ_HEALTH_POLL_DISABLED'', cf_host_interval = host_interval,
            cf_host_disabled = env_true e ''HOST_METRICS_POLL_DISABLED'',
            cf_business_hours = env_get e ''ADMIN_ACCESS_BUSINESS_HOURS'' ''08:00-18:00'',
            cf_timezone = env_get e ''ADMIN_ACCESS_TIMEZONE'' ''America/Chicago''\<rparr>)))))))))))))))))))"

text \<open>\<^verbatim>\<open>TRUSTED_PROXY_COUNT\<close> of \<^verbatim>\<open>wsgi.py\<close>: a malformed value counts as 0, and only a positive one
  wraps the application in \<^verbatim>\<open>ProxyFix\<close>.\<close>

definition proxy_count :: "environ \<Rightarrow> int" where
  "proxy_count e = or_default 0 (py_int (env_get e ''TRUSTED_PROXY_COUNT'' ''0''))"

definition proxy_fix :: "environ \<Rightarrow> int option" where
  "proxy_fix e = (if proxy_count e > 0 then Some (proxy_count e) else None)"

text \<open>The development server of \<^verbatim>\<open>wsgi.py\<close>: the arguments of \<^verbatim>\<open>flask_app.run\<close>, with TLS
  when both files are there.\<close>

record dev_server =
  dv_host :: string
  dv_port :: int
  dv_debug :: bool
  dv_certificate :: "(string \<times> string) option"

definition dev_server_of :: "(string \<Rightarrow> bool) \<Rightarrow> environ \<Rightarrow> dev_server config_result" where
  "dev_server_of exists e =
     (let cert = env_get e ''SSL_CERT'' ''certs/cert.pem''; key = env_get e ''SSL_KEY'' ''certs/key.pem'' in
      bind_result (env_int e ''PORT'' ''5443'') (\<lambda>port.
        Inr \<lparr>dv_host = ''0.0.0.0'', dv_port = port, dv_debug = False,
             dv_certificate = (if exists cert \<and> exists key then Some (cert, key) else None)\<rparr>))"

section \<open>Pollers\<close>

datatype poller = HealthPoller | LogPoller | ThreatPoller | HostPoller

definition poller_disabled :: "config \<Rightarrow> poller \<Rightarrow> bool" where
  "poller_disabled cfg p =
     (case p of
        HealthPoller \<Rightarrow> cf_health_disabled cfg
      | LogPoller \<Rightarrow> cf_log_disabled cfg
      | ThreatPoller \<Rightarrow> cf_threat_disabled cfg
      | HostPoller \<Rightarrow> cf_host_disabled cfg)"

record job =
  jb_id :: string
  jb_poller :: poller
  jb_seconds :: int
  jb_max_instances :: nat

definition poller_job :: "config \<Rightarrow> poller \<Rightarrow> job" where
  "poller_job cfg p =
     (case p of
        HealthPoller \<Rightarrow>
          \<lparr>jb_id = ''faz_health_poll'', jb_poller = p, jb_seconds = cf_snmp_interval cfg, jb_max_instances = 1\<rparr>
      | LogPoller \<Rightarrow>
          \<lparr>jb_id = ''log_stats_poll'', jb_poller = p, jb_seconds = cf_log_interval cfg, jb_max_instances = 1\<rparr>
      | ThreatPoller \<Rightarrow>
          \<lparr>jb_id = ''threat_stats_poll'', jb_poller = p, jb_seconds = cf_threat_interval cfg, jb_max_instances = 1\<rparr>
      | HostPoller \<Rightarrow>
          \<lparr>jb_id = ''host_metrics_poll'', jb_poller = p, jb_seconds = cf_host_interval cfg, jb_max_instances = 1\<rparr>)"

text \<open>A process: the \<^verbatim>\<open>_STARTED\<close> flags of its Flask configuration, the polls it kicked off at once
  (\<^verbatim>\<open>poll_now\<close>), the jobs of its schedulers, and its log.\<close>

record process =
  ps_started :: "poller list"
  ps_polled_now :: "poller list"
  ps_jobs :: "job list"
  ps_log :: logger

definition new_process :: process where
  "new_process = \<lparr>ps_started = [], ps_polled_now = [], ps_jobs = [], ps_log = init_logger\<rparr>"

text \<open>\<^verbatim>\<open>poll_now\<close>: a thread that polls once, at once.\<close>

definition poll_now :: "poller \<Rightarrow> process \<Rightarrow> process" where
  "poll_now p ps = ps\<lparr>ps_polled_now := ps_polled_now ps @ [p]\<rparr>"

definition add_job :: "job \<Rightarrow> process \<Rightarrow> process" where
  "add_job j ps = ps\<lparr>ps_jobs := ps_jobs ps @ [j]\<rparr>"

definition init_scheduler :: "config \<Rightarrow> poller \<Rightarrow> process \<Rightarrow> process" where
  "init_scheduler cfg p ps =
     (if poller_disabled cfg p then ps
      else add_job (poller_job cfg p) (poll_now p ps))"

text \<open>The four modules' own, as the callers import them.\<close>

definition init_faz_health_scheduler :: "config \<Rightarrow> process \<Rightarrow> process" where
  "init_faz_health_scheduler cfg = init_scheduler cfg HealthPoller"

definition init_log_stats_scheduler :: "config \<Rightarrow> process \<Rightarrow> process" where
  "init_log_stats_scheduler cfg = init_scheduler cfg LogPoller"

definition init_threat_stats_scheduler :: "config \<Rightarrow> process \<Rightarrow> process" where
  "init_threat_stats_scheduler cfg = init_scheduler cfg ThreatPoller"

definition init_host_metrics_scheduler :: "config \<Rightarrow> process \<Rightarrow> process" where
  "init_host_metrics_scheduler cfg = init_scheduler cfg HostPoller"

lemmas scheduler_defs = init_faz_health_scheduler_def init_log_stats_scheduler_def
  init_threat_stats_scheduler_def init_host_metrics_scheduler_def

definition start_once :: "poller \<Rightarrow> (process \<Rightarrow> process) \<Rightarrow> process \<Rightarrow> process" where
  "start_once p init ps =
     (if p \<in> set (ps_started ps) then ps else init (ps\<lparr>ps_started := ps_started ps @ [p]\<rparr>))"

definition create_app_pollers :: "config \<Rightarrow> process \<Rightarrow> process" where
  "create_app_pollers cfg ps =
     (if cf_run_schedulers cfg = ''inline''
      then start_once HostPoller (init_host_metrics_scheduler cfg)
            (start_once ThreatPoller (init_threat_stats_scheduler cfg)
              (start_once LogPoller (init_log_stats_scheduler cfg)
                (start_once HealthPoller (init_faz_health_scheduler cfg) ps)))
      else ps)"

text \<open>The three history tables, shared by the processes. \<^verbatim>\<open>CREATE TABLE IF NOT EXISTS\<close> creates two
  of them; the third also migrates.\<close>

record databases =
  db_logs :: "sql_table option"
  db_threats :: "sql_table option"
  db_host :: "sql_table option"

definition create_table :: "string list \<Rightarrow> sql_table option \<Rightarrow> sql_table" where
  "create_table cols db = (case db of None \<Rightarrow> \<lparr>st_columns = cols, st_rows = []\<rparr> | Some t \<Rightarrow> t)"

definition init_databases :: "databases \<Rightarrow> databases" where
  "init_databases d =
     \<lparr>db_logs = Some (create_table [''collected_at'', ''devices_logging'', ''devices_silent'', ''total_lograte''] (db_logs d)),
      db_threats = Some (init_db (db_threats d)),
      db_host = Some (create_table [''collected_at'', ''cpu_percent'', ''memory_percent'', ''disk_percent''] (db_host d))\<rparr>"

text \<open>The end of \<^verbatim>\<open>create_app\<close>.\<close>

definition create_app_startup :: "config \<Rightarrow> process \<times> databases \<Rightarrow> process \<times> databases" where
  "create_app_startup cfg s = (create_app_pollers cfg (fst s), init_databases (snd s))"

definition start_all_schedulers :: "config \<Rightarrow> process \<times> databases \<Rightarrow> process \<times> databases" where
  "start_all_schedulers cfg s =
     (init_host_metrics_scheduler cfg (init_threat_stats_scheduler cfg (init_log_stats_scheduler cfg
        (init_faz_health_scheduler cfg (fst s)))), init_databases (snd s))"

text \<open>\<^verbatim>\<open>main\<close> of the collector up to its endless sleep, and what it logs on an interrupt.\<close>

definition collector_main :: "config \<Rightarrow> string \<Rightarrow> process \<times> databases \<Rightarrow> process \<times> databases" where
  "collector_main cfg stamp s =
     start_all_schedulers cfg
       ((fst s)\<lparr>ps_log := app_log stamp ''INFO'' ''collector''
          ''Starting collector process (FAZ health/log stats/threat stats/host metrics)'' [] (ps_log (fst s))\<rparr>, snd s)"

definition collector_interrupted :: "string \<Rightarrow> process \<Rightarrow> process" where
  "collector_interrupted stamp ps =
     ps\<lparr>ps_log := app_log stamp ''INFO'' ''collector'' ''Collector process shutting down'' [] (ps_log ps)\<rparr>"

section \<open>Response headers\<close>

text \<open>A keyword or source of the policy in single quotes.\<close>

definition csp_quoted :: "string \<Rightarrow> string" where
  "csp_quoted s = CHR 0x27 # s @ [CHR 0x27]"

definition CSP :: string where
  "CSP =
     ''default-src '' @ csp_quoted ''self'' @ ''; '' @
     ''script-src '' @ csp_quoted ''self'' @ '' '' @ csp_quoted ''unsafe-inline'' @ ''; '' @
     ''style-src '' @ csp_quoted ''self'' @ '' '' @ csp_quoted ''unsafe-inline'' @ ''; '' @
     ''img-src '' @ csp_quoted ''self'' @ '' data:; '' @
     ''font-src '' @ csp_quoted ''self'' @ '' data:; '' @
     ''connect-src '' @ csp_quoted ''self'' @ ''; '' @
     ''object-src '' @ csp_quoted ''none'' @ ''; '' @
     ''base-uri '' @ csp_quoted ''self'' @ ''; '' @
     ''form-action '' @ csp_quoted ''self'' @ ''; '' @
     ''frame-ancestors '' @ csp_quoted ''none''"

definition set_security_headers ::
  "bool \<Rightarrow> string option \<Rightarrow> (string, string) dict \<Rightarrow> (string, string) dict" where
  "set_security_headers is_secure forwarded_proto resp =
     (let r = fold (\<lambda>(k, v). dict_set k v)
                [(''X-Content-Type-Options'', ''nosniff''), (''X-Frame-Options'', ''DENY''),
                 (''Referrer-Policy'', ''strict-origin-when-cross-origin''),
                 (''Permissions-Policy'', ''geolocation=(), microphone=(), camera=()''),
                 (''Content-Security-Policy'', CSP)] resp
      in if is_secure \<or> lower (or_default [] forwarded_proto) = ''https''
         then dict_set ''Strict-Transport-Security'' ''max-age=31536000; includeSubDomains'' r else r)"

section \<open>When the configuration loads\<close>

definition INT_NAMES :: "string list" where
  "INT_NAMES =
     [''SESSION_ABSOLUTE_LIFETIME'', ''MAX_CONTENT_LENGTH'', ''FAZ_REQUEST_TIMEOUT'', ''SNMP_PORT'', ''SNMP_TIMEOUT'',
      ''SNMP_RETRIES'', ''SNMP_POLL_INTERVAL'', ''LOG_SEARCH_MAX_RESULTS'', ''SILENT_DEVICE_THRESHOLD_MINUTES'',
      ''LOG_STATS_POLL_INTERVAL'', ''THREAT_STATS_POLL_INTERVAL'', ''HOST_METRICS_POLL_INTERVAL'']"

definition FLOAT_NAMES :: "string list" where
  "FLOAT_NAMES =
     [''CPU_WARN'', ''CPU_CRIT'', ''MEM_WARN'', ''MEM_CRIT'', ''LOG_SEARCH_POLL_INTERVAL'', ''LOG_SEARCH_TIMEOUT'']"

text \<open>A variable that is absent counts as readable: its default is.\<close>

definition reads_int :: "environ \<Rightarrow> string \<Rightarrow> bool" where
  "reads_int e k \<longleftrightarrow> (case e k of None \<Rightarrow> True | Some v \<Rightarrow> py_int v \<noteq> None)"

definition reads_float :: "environ \<Rightarrow> string \<Rightarrow> bool" where
  "reads_float e k \<longleftrightarrow> (case e k of None \<Rightarrow> True | Some v \<Rightarrow> py_float v \<noteq> None)"

definition secret_set :: "environ \<Rightarrow> bool" where
  "secret_set e \<longleftrightarrow> or_default [] (e ''SECRET_KEY'') \<notin> {[], ''change-me-in-production''}"

lemma bind_env_int:
  "py_int d \<noteq> None \<Longrightarrow>
     bind_result (env_int e k d) f =
       (if reads_int e k then f (the (py_int (env_get e k d))) else Inl (BadNumber k))"
  by (auto simp: env_int_def env_get_def reads_int_def or_default_def split: option.splits)

lemma bind_env_float:
  "py_float d \<noteq> None \<Longrightarrow>
     bind_result (env_float e k d) f =
       (if reads_float e k then f (the (py_float (env_get e k d))) else Inl (BadNumber k))"
  by (auto simp: env_float_def env_get_def reads_float_def or_default_def split: option.splits)

lemma bind_secret:
  "bind_result (require_secret_key e) f =
     (if secret_set e then f (or_default [] (e ''SECRET_KEY'')) else Inl SecretUnset)"
  by (simp add: require_secret_key_def secret_set_def env_get_def Let_def)

lemma defaults_read:
  "py_int ''36000'' \<noteq> None" "py_int ''4194304'' \<noteq> None" "py_int ''30'' \<noteq> None" "py_int ''161'' \<noteq> None"
  "py_int ''5'' \<noteq> None" "py_int ''1'' \<noteq> None" "py_int ''60'' \<noteq> None" "py_int ''1000'' \<noteq> None"
  "py_int ''300'' \<noteq> None" "py_int ''900'' \<noteq> None"
  "py_float ''70'' \<noteq> None" "py_float ''90'' \<noteq> None" "py_float ''2.0'' \<noteq> None" "py_float ''60.0'' \<noteq> None"
  by code_simp+

text \<open>C34. The server starts only with a secret of its own. Loading the configuration fails without one
  (absent, empty or the published default), whatever else is set; with one it fails exactly when one of
  the twelve integer or six decimal settings is present but unreadable, and then reports such a
  setting; every other environment, the empty one included, gives a configuration, whose secret is
  the one set.\<close>

theorem config_loads_iff:
  "case load_config exists base_dir e of
     Inl SecretUnset \<Rightarrow> \<not> secret_set e
   | Inl (BadNumber k) \<Rightarrow> secret_set e \<and>
       (k \<in> set INT_NAMES \<and> \<not> reads_int e k \<or> k \<in> set FLOAT_NAMES \<and> \<not> reads_float e k)
   | Inr c \<Rightarrow> secret_set e \<and> cf_secret c = or_default [] (e ''SECRET_KEY'') \<and>
       list_all (reads_int e) INT_NAMES \<and> list_all (reads_float e) FLOAT_NAMES"
  unfolding load_config_def bind_secret bind_env_int [OF defaults_read(1)] bind_env_int [OF defaults_read(2)]
    bind_env_int [OF defaults_read(3)] bind_env_int [OF defaults_read(4)] bind_env_int [OF defaults_read(5)]
    bind_env_int [OF defaults_read(6)] bind_env_int [OF defaults_read(7)] bind_env_int [OF defaults_read(8)]
    bind_env_int [OF defaults_read(9)] bind_env_int [OF defaults_read(10)] bind_env_float [OF defaults_read(11)]
    bind_env_float [OF defaults_read(12)] bind_env_float [OF defaults_read(13)] bind_env_float [OF defaults_read(14)]
  by (simp add: INT_NAMES_def FLOAT_NAMES_def)

section \<open>Who polls\<close>

definition jobs_of :: "poller \<Rightarrow> process \<Rightarrow> job list" where
  "jobs_of p ps = filter (\<lambda>j. jb_poller j = p) (ps_jobs ps)"

lemma poller_of_job [simp]: "jb_poller (poller_job cfg p) = p"
  by (cases p) (simp_all add: poller_job_def)

lemma jobs_of_init:
  "jobs_of p (init_scheduler cfg q ps) =
     jobs_of p ps @ (if p = q \<and> \<not> poller_disabled cfg p then [poller_job cfg p] else [])"
  by (simp add: jobs_of_def init_scheduler_def poll_now_def add_job_def)

lemma started_init [simp]: "ps_started (init_scheduler cfg q ps) = ps_started ps"
  by (simp add: init_scheduler_def poll_now_def add_job_def)

lemma jobs_of_started [simp]: "jobs_of p (ps\<lparr>ps_started := xs\<rparr>) = jobs_of p ps"
  "jobs_of p (ps\<lparr>ps_log := lg\<rparr>) = jobs_of p ps"
  by (simp_all add: jobs_of_def)

lemma started_once [simp]:
  "set (ps_started (start_once p (init_scheduler cfg q) ps)) = insert p (set (ps_started ps))"
  by (auto simp: start_once_def)

lemma start_once_done: "p \<in> set (ps_started ps) \<Longrightarrow> start_once p init ps = ps"
  by (simp add: start_once_def)

lemma init_databases_idem: "init_databases (init_databases d) = init_databases d"
  by (simp add: init_databases_def create_table_def init_db_idem)


text \<open>Every response carries the protective headers, whatever the handler set, and the transport header
  exactly on a secure connection or behind a proxy that says so.\<close>

lemma security_headers:
  "map_of (set_security_headers secure proto resp) ''X-Frame-Options'' = Some ''DENY''"
  "map_of (set_security_headers secure proto resp) ''X-Content-Type-Options'' = Some ''nosniff''"
  "map_of (set_security_headers secure proto resp) ''Content-Security-Policy'' = Some CSP"
  "map_of resp ''Strict-Transport-Security'' = None \<Longrightarrow>
     map_of (set_security_headers secure proto resp) ''Strict-Transport-Security'' \<noteq> None \<longleftrightarrow>
       secure \<or> lower (or_default [] proto) = ''https''"
  by (simp_all add: set_security_headers_def Let_def)

end
