(* ===== verification/GroupThreads.thy ===== *)
theory GroupThreads
  imports TsuiteAdapter AdminRoutes
begin

text \<open>
  Requests that change \<^verbatim>\<open>groups.json\<close> from several worker threads. A membership push
  (\<^verbatim>\<open>add_group_member\<close>, \<^verbatim>\<open>remove_group_member\<close>) and the update route each take the
  lock of \<^verbatim>\<open>app/groups.py\<close> twice, in \<^verbatim>\<open>get_group\<close> and in \<^verbatim>\<open>update_group\<close>;
  between the two the thread holds a copy of the group. Creating and deleting take it once. A step of
  a thread is one such section, and a schedule lists which thread makes each step.
\<close>

section \<open>Threads\<close>

datatype group_edit = Push string string bool | Edit string group_body

fun edit_group :: "group_edit \<Rightarrow> string" where
  "edit_group (Push u n m) = n"
| "edit_group (Edit n b) = n"

datatype group_op = Change group_edit | Create group_body | Delete string

fun op_group :: "group_op \<Rightarrow> string" where
  "op_group (Change e) = edit_group e"
| "op_group (Create b) = strip (or_default [] (gb_name b))"
| "op_group (Delete n) = n"

datatype thread = Waiting group_op | Holding group_edit group_dict | Finished

text \<open>What is written back, from the copy of the group that was read.\<close>

definition member_args :: "string \<Rightarrow> bool \<Rightarrow> group_dict \<Rightarrow> group_args" where
  "member_args u m gd =
     \<lparr>a_members = sorted_list_of_set
        (if m then insert u (set (members gd)) else set (members gd) - {u}),
      a_ad_groups = ad_groups gd, a_tabs = allowed_tabs gd, a_restrict = adom_restrict gd,
      a_adoms = allowed_adoms gd\<rparr>"

definition edit_args :: "group_body \<Rightarrow> group_dict \<Rightarrow> group_args" where
  "edit_args b gd =
     \<lparr>a_members = or_default (members gd) (gb_members b),
      a_ad_groups = or_default (ad_groups gd) (gb_ad_groups b),
      a_tabs = or_default (allowed_tabs gd) (gb_tabs b),
      a_restrict = truthy (or_default (JBool (adom_restrict gd)) (gb_restrict b)),
      a_adoms = or_default (allowed_adoms gd) (gb_adoms b)\<rparr>"

definition create_args :: "group_body \<Rightarrow> group_args" where
  "create_args b =
     \<lparr>a_members = or_default [] (gb_members b), a_ad_groups = or_default [] (gb_ad_groups b),
      a_tabs = or_default [] (gb_tabs b),
      a_restrict = truthy (or_default (JBool False) (gb_restrict b)),
      a_adoms = or_default [] (gb_adoms b)\<rparr>"

fun write_args :: "group_edit \<Rightarrow> group_dict \<Rightarrow> group_args" where
  "write_args (Push u n m) gd = member_args u m gd"
| "write_args (Edit n b) gd = edit_args b gd"

text \<open>A section that is refused or raises leaves the file as it is, and the request ends.\<close>

abbreviation unless_refused :: "groups_file option \<Rightarrow> groups_file \<Rightarrow> groups_file" where
  "unless_refused r f \<equiv> or_default f r"

definition read_section :: "group_edit \<Rightarrow> groups_file \<Rightarrow> thread" where
  "read_section e f =
     (case get_group (edit_group e) f of
        Inr (Some gd) \<Rightarrow> Holding e gd
      | _ \<Rightarrow> Finished)"

fun thread_step :: "string list \<Rightarrow> thread \<Rightarrow> groups_file \<Rightarrow> thread \<times> groups_file" where
  "thread_step known (Waiting (Change e)) f = (read_section e f, f)"
| "thread_step known (Waiting (Create b)) f =
     (Finished, unless_refused (add_group (or_default [] (gb_name b)) (create_args b) f) f)"
| "thread_step known (Waiting (Delete n)) f =
     (Finished, unless_refused (changed (delete_group n f)) f)"
| "thread_step known (Holding e gd) f =
     (Finished, unless_refused (upd_group known (edit_group e) (write_args e gd) f) f)"
| "thread_step known Finished f = (Finished, f)"

definition schedule_step ::
  "string list \<Rightarrow> nat \<Rightarrow> thread list \<times> groups_file \<Rightarrow> thread list \<times> groups_file" where
  "schedule_step known i s =
     (if i < length (fst s) then
        (let (t, f) = thread_step known (fst s ! i) (snd s) in ((fst s)[i := t], f))
      else s)"

definition run_threads ::
  "string list \<Rightarrow> nat list \<Rightarrow> thread list \<times> groups_file \<Rightarrow> thread list \<times> groups_file" where
  "run_threads known sched s = fold (schedule_step known) sched s"

text \<open>The file a request leaves when nothing runs beside it, by the handlers themselves.\<close>

fun op_alone :: "admin_io \<Rightarrow> string list \<Rightarrow> string \<Rightarrow> admin_world \<Rightarrow> group_op \<Rightarrow> groups_file" where
  "op_alone io known user w (Change (Push u n m)) =
     (case apply_group_change known u n m (aw_groups w) of Inl _ \<Rightarrow> aw_groups w | Inr f \<Rightarrow> f)"
| "op_alone io known user w (Change (Edit n b)) = aw_groups (snd (groups_update io known user n b w))"
| "op_alone io known user w (Create b) = aw_groups (snd (groups_create io user b w))"
| "op_alone io known user w (Delete n) = aw_groups (snd (groups_delete io user n w))"

section \<open>What a section does to the groups\<close>

text \<open>The group of a request after it, from the group before it.\<close>

fun op_effect :: "string list \<Rightarrow> group_op \<Rightarrow> group option \<Rightarrow> group option" where
  "op_effect known (Change e) g0 =
     map_option (\<lambda>g. let a = write_args e (group_to_dict (edit_group e) g)
                     in group_of_args (a\<lparr>a_tabs := filter_tabs known (a_tabs a)\<rparr>)) g0"
| "op_effect known (Create b) g0 =
     (if g0 = None \<and> op_group (Create b) \<noteq> [] then Some (group_of_args (create_args b)) else g0)"
| "op_effect known (Delete n) g0 = None"

fun thread_group :: "thread \<Rightarrow> string option" where
  "thread_group (Waiting x) = Some (op_group x)"
| "thread_group (Holding e gd) = Some (edit_group e)"
| "thread_group Finished = None"

lemma thread_step_frame:
  "thread_group t \<noteq> Some n \<Longrightarrow> group_lookup (snd (thread_step known t f)) n = group_lookup f n"
  by (induction known t f rule: thread_step.induct)
    (auto simp: group_store_defs Let_def split: json_file.splits option.splits)

lemma thread_step_readable: "readable (snd (thread_step known t f)) = readable f"
  by (induction known t f rule: thread_step.induct)
    (auto simp: group_store_defs readable_def Let_def split: json_file.splits option.splits)

lemma groups_update_file:
  "map_of gs n = Some g \<Longrightarrow> aw_groups w = Content gs \<Longrightarrow>
     group_lookup (aw_groups (snd (groups_update io known user n b w))) n =
       op_effect known (Change (Edit n b)) (Some g)"
  by (simp add: groups_update_def get_group_def update_group_def group_reply_def admin_log_def
      group_lookup_def edit_args_def group_of_args_def Let_def group_to_dict_def)

lemma groups_update_none:
  "group_lookup (aw_groups w) n = None \<Longrightarrow> aw_groups (snd (groups_update io known user n b w)) = aw_groups w"
  by (cases "aw_groups w") (auto simp: groups_update_def get_group_def group_lookup_def refused_def)

lemma groups_create_file:
  assumes "readable (aw_groups w)"
  shows "group_lookup (aw_groups (snd (groups_create io user b w))) (op_group (Create b)) =
     op_effect known (Create b) (group_lookup (aw_groups w) (op_group (Create b)))"
  using assms
  by (cases "aw_groups w")
    (auto simp: groups_create_def create_group_def refused_def group_reply_def admin_log_def readable_def
      group_lookup_def create_args_def group_of_args_def Let_def split: option.splits)

lemma groups_delete_file: "group_lookup (aw_groups (snd (groups_delete io user n w))) n = None"
  by (cases "aw_groups w")
    (auto simp: groups_delete_def delete_group_def refused_def admin_log_def group_lookup_def)

lemma apply_group_change_none:
  "group_lookup f n = None \<Longrightarrow> readable f \<Longrightarrow> apply_group_change known u n m f = Inr f"
  by (cases f)
    (auto simp: apply_group_change_def add_group_member_def remove_group_member_def get_group_def
      group_lookup_def readable_def)

lemma apply_group_change_file:
  "map_of gs n = Some g \<Longrightarrow> apply_group_change known u n m (Content gs) = Inr f \<Longrightarrow>
     group_lookup f n = op_effect known (Change (Push u n m)) (Some g)"
  by (auto simp: apply_group_change_content group_lookup_def with_members_def member_args_def
      group_of_args_def group_to_dict_def Let_def)

lemma op_alone_effect:
  assumes "readable (aw_groups w)"
  shows "group_lookup (op_alone io known user w x) (op_group x) =
    op_effect known x (group_lookup (aw_groups w) (op_group x))"
proof (cases "group_lookup (aw_groups w) (op_group x)")
  case None
  with assms show ?thesis
    by (cases "(io, known, user, w, x)" rule: op_alone.cases)
      (simp_all add: apply_group_change_none groups_update_none groups_create_file [where known = known]
        groups_delete_file del: op_group.simps(2) op_effect.simps(2))
next
  case (Some g)
  then obtain gs where gs: "aw_groups w = Content gs" "map_of gs (op_group x) = Some g"
    by (cases "aw_groups w") (auto simp: group_lookup_def)
  with assms Some show ?thesis
    by (cases "(io, known, user, w, x)" rule: op_alone.cases)
      (auto simp add: apply_group_change_file groups_update_file groups_create_file [where known = known]
        groups_delete_file apply_group_change_content
        simp del: op_group.simps(2) op_effect.simps(1,2) split: sum.splits)
qed

text \<open>What is known of a thread with request \<open>x\<close> while the group it is about started as
  \<open>g0\<close>.\<close>

definition thread_ok ::
  "string list \<Rightarrow> group_op \<Rightarrow> group option \<Rightarrow> thread \<Rightarrow> groups_file \<Rightarrow> bool" where
  "thread_ok known x g0 t f \<longleftrightarrow>
     (case t of
        Waiting y \<Rightarrow> y = x \<and> group_lookup f (op_group x) = g0
      | Holding e gd \<Rightarrow>
          x = Change e \<and> group_lookup f (op_group x) = g0 \<and>
          Some gd = map_option (group_to_dict (edit_group e)) g0
      | Finished \<Rightarrow> group_lookup f (op_group x) = op_effect known x g0)"

lemma thread_ok_own:
  assumes "thread_ok known x g0 t f" and "readable f" and "thread_step known t f = (t', f')"
  shows "thread_ok known x g0 t' f'"
proof (cases f)
  case Absent
  with assms show ?thesis
    by (induction known t f rule: thread_step.induct)
      (auto simp: thread_ok_def read_section_def get_group_def group_store_defs create_args_def
        group_of_args_def Let_def split: if_splits)
next
  case (Content gs)
  with assms show ?thesis
    by (induction known t f rule: thread_step.induct)
      (auto simp: thread_ok_def read_section_def get_group_def group_store_defs create_args_def
        group_of_args_def Let_def split: option.splits if_splits)
qed (use assms in \<open>simp add: readable_def\<close>)

lemma thread_ok_frame:
  "thread_ok known x g0 t f \<Longrightarrow> group_lookup f' (op_group x) = group_lookup f (op_group x) \<Longrightarrow>
     thread_ok known x g0 t f'"
  by (auto simp: thread_ok_def split: thread.splits)

lemma thread_ok_group:
  "thread_ok known x g0 t f \<Longrightarrow> thread_group t = None \<or> thread_group t = Some (op_group x)"
  by (auto simp: thread_ok_def split: thread.splits)

section \<open>Requests about different groups\<close>

definition threads_ok ::
  "string list \<Rightarrow> group_op list \<Rightarrow> groups_file \<Rightarrow> thread list \<times> groups_file \<Rightarrow> bool" where
  "threads_ok known xs f0 s \<longleftrightarrow>
     length (fst s) = length xs \<and> readable (snd s) \<and>
     (\<forall>i < length xs. thread_ok known (xs ! i) (group_lookup f0 (op_group (xs ! i))) (fst s ! i) (snd s)) \<and>
     (\<forall>n. n \<notin> op_group ` set xs \<longrightarrow> group_lookup (snd s) n = group_lookup f0 n)"

lemma schedule_step_ok:
  assumes ok: "threads_ok known xs f0 (ts, f)" and d: "distinct (map op_group xs)"
  shows "threads_ok known xs f0 (schedule_step known i (ts, f))"
proof (cases "i < length ts")
  case i: True
  obtain t f' where step: "thread_step known (ts ! i) f = (t, f')" by (cases "thread_step known (ts ! i) f")
  let ?g0 = "\<lambda>j. group_lookup f0 (op_group (xs ! j))"
  have own: "thread_ok known (xs ! i) (?g0 i) (ts ! i) f" and len: "length ts = length xs"
    and r: "readable f"
    using ok i by (auto simp: threads_ok_def)
  have frame: "group_lookup f' n = group_lookup f n" if "n \<noteq> op_group (xs ! i)" for n
    using thread_step_frame [of "ts ! i" n known f] thread_ok_group [OF own] that step by auto
  have other: "op_group (xs ! j) \<noteq> op_group (xs ! i)" if "j < length xs" "j \<noteq> i" for j
    using nth_eq_iff_index_eq [OF d, of j i] that i len by simp
  have "thread_ok known (xs ! j) (?g0 j) (ts[i := t] ! j) f'" if j: "j < length xs" for j
  proof (cases "j = i")
    case True
    with thread_ok_own [OF own r step] i show ?thesis by simp
  next
    case False
    with ok j other [OF j False] show ?thesis
      by (auto simp: threads_ok_def intro: thread_ok_frame frame)
  qed
  moreover have "readable f'" using thread_step_readable [of known "ts ! i" f] r step by simp
  moreover have "group_lookup f' n = group_lookup f0 n" if "n \<notin> op_group ` set xs" for n
  proof -
    have "n \<noteq> op_group (xs ! i)" using that i len by auto
    with frame that ok show ?thesis by (simp add: threads_ok_def)
  qed
  ultimately show ?thesis using i len step by (simp add: threads_ok_def schedule_step_def)
qed (use ok in \<open>simp add: schedule_step_def\<close>)

lemma run_threads_ok:
  "distinct (map op_group xs) \<Longrightarrow> threads_ok known xs f0 s \<Longrightarrow>
     threads_ok known xs f0 (run_threads known sched s)"
  unfolding run_threads_def
  by (induction sched arbitrary: s) (simp_all add: schedule_step_ok [of _ _ _ "fst s" "snd s" for s, simplified])

text \<open>A request has at most two sections, so a thread that was scheduled twice has finished.\<close>

fun sections_left :: "thread \<Rightarrow> nat" where
  "sections_left (Waiting x) = 2"
| "sections_left (Holding e gd) = 1"
| "sections_left Finished = 0"

lemma sections_left_step: "sections_left (fst (thread_step known t f)) \<le> sections_left t - 1"
  by (induction known t f rule: thread_step.induct)
    (auto simp: read_section_def split: sum.splits option.splits)

lemma run_threads_length: "length (fst (run_threads known sched s)) = length (fst s)"
  unfolding run_threads_def
  by (induction sched arbitrary: s) (simp_all add: schedule_step_def split: prod.split)

lemma run_threads_sections:
  "i < length ts \<Longrightarrow> run_threads known sched (ts, f) = (ts', f') \<Longrightarrow>
     sections_left (ts' ! i) \<le> sections_left (ts ! i) - count_list sched i"
proof (induction sched arbitrary: ts f)
  case (Cons j sched)
  obtain t g where step: "schedule_step known j (ts, f) = (t, g)" by (cases "schedule_step known j (ts, f)")
  then have "length t = length ts" and "sections_left (t ! i) \<le> sections_left (ts ! i) - (if j = i then 1 else 0)"
    using Cons.prems(1) sections_left_step [of known "ts ! i" f]
    by (auto simp: schedule_step_def nth_list_update split: if_splits prod.splits)
  with Cons.IH [of t g] Cons.prems step show ?case
    by (fastforce simp: run_threads_def split: if_splits)
qed (simp add: run_threads_def)

lemma sections_left_0: "sections_left t = 0 \<longleftrightarrow> t = Finished"
  by (cases t) auto

lemma sections_left_le: "sections_left t \<le> 2"
  by (cases t) auto

lemma run_threads_finish:
  assumes "\<forall>i < length ts. 2 \<le> count_list sched i" and "run_threads known sched (ts, f) = (ts', f')"
  shows "set ts' \<subseteq> {Finished}"
proof
  fix t assume "t \<in> set ts'"
  then obtain i where i: "i < length ts'" "ts' ! i = t" by (auto simp: in_set_conv_nth)
  have "length ts' = length ts"
    using run_threads_length [of known sched "(ts, f)"] assms(2) by simp
  then have "sections_left t \<le> sections_left (ts ! i) - count_list sched i" and "2 \<le> count_list sched i"
    using run_threads_sections [OF _ assms(2), of i] assms(1) i by auto
  with sections_left_le [of "ts ! i"] have "sections_left t = 0" by linarith
  then show "t \<in> {Finished}" by (simp add: sections_left_0)
qed

text \<open>C12. Worker threads that change different groups do not disturb each other: whatever the order of
  their critical sections, once every thread has had its two, each group a request is about is what
  that request alone leaves, and every other group is as before.\<close>

theorem concurrent_group_changes:
  assumes "distinct (map op_group xs)" and "readable (aw_groups w)"
    and "run_threads known sched (map Waiting xs, aw_groups w) = (ts, f)"
    and "\<forall>i < length xs. 2 \<le> count_list sched i"
  shows "(\<forall>x \<in> set xs. group_lookup f (op_group x) = group_lookup (op_alone io known user w x) (op_group x)) \<and>
    (\<forall>n. n \<notin> op_group ` set xs \<longrightarrow> group_lookup f n = group_lookup (aw_groups w) n)"
proof -
  have "threads_ok known xs (aw_groups w) (map Waiting xs, aw_groups w)"
    using assms(2) by (simp add: threads_ok_def thread_ok_def)
  then have ok: "threads_ok known xs (aw_groups w) (ts, f)"
    using run_threads_ok [OF assms(1)] assms(3) by metis
  have fin: "set ts \<subseteq> {Finished}"
    using run_threads_finish [of "map Waiting xs" sched known "aw_groups w"] assms(3,4) by simp
  have "group_lookup f (op_group x) = op_effect known x (group_lookup (aw_groups w) (op_group x))"
    if x: "x \<in> set xs" for x
  proof -
    obtain i where i: "i < length xs" "xs ! i = x" using x by (auto simp: in_set_conv_nth)
    have "length ts = length xs" using ok by (simp add: threads_ok_def)
    with i have "ts ! i \<in> set ts" by simp
    with fin have "ts ! i = Finished" by blast
    with ok i show ?thesis by (auto simp: threads_ok_def thread_ok_def)
  qed
  with ok op_alone_effect [OF assms(2)] show ?thesis by (auto simp: threads_ok_def)
qed

text \<open>A deleted group stays deleted: a thread that still holds a copy of it does not bring it back.\<close>

definition creates :: "string \<Rightarrow> thread \<Rightarrow> bool" where
  "creates n t \<longleftrightarrow> (case t of Waiting (Create b) \<Rightarrow> op_group (Create b) = n | _ \<Rightarrow> False)"

lemma thread_step_absent:
  "group_lookup f n = None \<Longrightarrow> \<not> creates n t \<Longrightarrow> thread_step known t f = (t', f') \<Longrightarrow>
     group_lookup f' n = None \<and> \<not> creates n t'"
  by (induction known t f rule: thread_step.induct)
    (auto simp: creates_def read_section_def group_store_defs Let_def
      split: json_file.splits option.splits sum.splits if_splits)

lemma deleted_stays_deleted:
  "group_lookup f n = None \<Longrightarrow> \<forall>t \<in> set ts. \<not> creates n t \<Longrightarrow>
     run_threads known sched (ts, f) = (ts', f') \<Longrightarrow> group_lookup f' n = None"
proof (induction sched arbitrary: ts f)
  case (Cons j sched)
  obtain t g where step: "schedule_step known j (ts, f) = (t, g)" by (cases "schedule_step known j (ts, f)")
  then have "group_lookup g n = None \<and> (\<forall>x \<in> set t. \<not> creates n x)"
    using Cons.prems(1,2) thread_step_absent [of f n "ts ! j" known]
    by (auto simp: schedule_step_def split: if_splits prod.splits dest!: subsetD [OF set_update_subset_insert])
  with Cons.IH [of g t] Cons.prems(3) step show ?case by (simp add: run_threads_def)
qed (simp add: run_threads_def)

section \<open>Two changes of one group\<close>

definition members_after :: "string list \<Rightarrow> nat list \<Rightarrow> group_edit list \<Rightarrow> string \<Rightarrow> groups_file \<Rightarrow> string set option"
  where
  "members_after known sched es n f =
     map_option member_set
       (group_lookup (snd (run_threads known sched (map (\<lambda>e. Waiting (Change e)) es, f))) n)"

text \<open>The lock does not cover a whole change. A push that removes a user and a change of the same
  group that does not set its members, another user's push or a save of the admin page, both succeed,
  and in either order the user is out afterwards; but when both read before either writes, the copy
  written last brings the user back.\<close>

theorem concurrent_removal_undone:
  assumes "map_of gs n = Some g" and "u \<in> member_set g"
    and "e = Push v n m \<and> v \<noteq> u \<or> e = Edit n b \<and> gb_members b = None"
  shows "\<exists>a c d.
    members_after known [0, 1, 0, 1] [Push u n False, e] n (Content gs) = Some a \<and> u \<in> a \<and>
    members_after known [0, 0, 1, 1] [Push u n False, e] n (Content gs) = Some c \<and> u \<notin> c \<and>
    members_after known [1, 1, 0, 0] [Push u n False, e] n (Content gs) = Some d \<and> u \<notin> d"
  using assms
  by (auto simp: members_after_def run_threads_def schedule_step_def read_section_def get_group_def
      group_store_defs member_args_def edit_args_def group_of_args_def Let_def split: if_splits)


definition crew :: "string list \<Rightarrow> group" where
  "crew us =
     \<lparr>g_members = Some us, g_ad_groups = Some [], g_allowed_tabs = Some [''dashboard''],
      g_adom_restrict = Some False, g_allowed_adoms = Some []\<rparr>"

definition crews :: "groups_file" where
  "crews = Content [(''ops'', crew [''ana'', ''bob'']), (''sec'', crew [''eve'']), (''old'', crew [])]"

text \<open>Two pushes about different groups and a deletion, their sections mixed.\<close>

definition crew_world :: admin_world where
  "crew_world = (world_with_token [])\<lparr>aw_groups := crews\<rparr>"

definition crew_changes :: "group_op list" where
  "crew_changes =
     [Change (Push ''ana'' ''ops'' False), Change (Push ''ana'' ''sec'' True), Delete ''old'']"

lemma group_lookup_content: "group_lookup (Content d) n = map_of d n"
  by (simp add: group_lookup_def)

lemma concurrent_group_changes_witness:
  "\<exists>ts f. run_threads [''dashboard''] [0, 1, 2, 1, 0, 2] (map Waiting crew_changes, crews) = (ts, f) \<and>
     map_option member_set (group_lookup f ''ops'') = Some {''bob''} \<and>
     map_option member_set (group_lookup f ''sec'') = Some {''ana'', ''eve''} \<and>
     group_lookup f ''old'' = None"
proof -
  obtain ts f where run: "run_threads [''dashboard''] [0, 1, 2, 1, 0, 2] (map Waiting crew_changes, crews) = (ts, f)"
    by fastforce
  have w: "aw_groups crew_world = crews" by (simp add: crew_world_def)
  have "\<forall>x \<in> set crew_changes. group_lookup f (op_group x) =
      group_lookup (op_alone (fst (admin_visits ! 0)) [''dashboard''] ''root'' crew_world x) (op_group x)"
    using concurrent_group_changes [of crew_changes crew_world "[''dashboard'']" "[0, 1, 2, 1, 0, 2]" ts f
        "fst (admin_visits ! 0)" "''root''"] run w
    by (simp add: crew_changes_def crews_def readable_def less_Suc_eq numeral_3_eq_3)
  then show ?thesis
    using run w by (auto simp: crew_changes_def crews_def crew_def group_lookup_content
        apply_group_change_content with_members_def groups_delete_def delete_group_def admin_log_def)
qed

end
