(* ===== verification/Spec2Isabelle.thy ===== *)
theory Spec2Isabelle
  imports WebApp ThreatHistory Startup GroupThreads
begin

text \<open>
  4tLog, as a verification library. The program is a Flask application that shows the health of
  FortiAnalyzer appliances, searches their logs, counts silent devices and threats, and answers an
  external API; a sibling application, 4tSuite, signs users on and manages group membership. Python files
  are named below by their path under \<^verbatim>\<open>src/\<close>.

  \<^bold>\<open>How the parts interact.\<close>
  A web process answers requests. A request passes the CSRF filter of \<^verbatim>\<open>app/security.py\<close>,
  then the guard of its route (\<^verbatim>\<open>app/decorators.py\<close>), which revalidates the session against
  the account and group files and 4tSuite's revocation list, then its handler under
  \<^verbatim>\<open>app/routes/\<close>. Handlers read and write JSON files (accounts, groups, appliances, API tokens,
  settings), call appliances through \<^verbatim>\<open>app/faz_client.py\<close>, and read what four pollers
  collect. The pollers run in a collector process (\<^verbatim>\<open>app/collector.py\<close>) or inline; they
  publish their results in memory, in a snapshot table the web processes take over, and in history
  tables. Nothing is global in the model: every operation takes the state it reads as arguments and
  returns the state it leaves, so a composition of operations is a composition of functions, and a
  sequence of requests is a fold or a step relation.

  \<^bold>\<open>The theories.\<close> In the order of their imports:
  \<^item> \<^theory_text>\<open>Prelude\<close>, \<^theory_text>\<open>PyString\<close>, \<^theory_text>\<open>IpAddress\<close>, \<^theory_text>\<open>UtcTime\<close>:
    the Python values, exceptions (left sides of sums), dictionaries (association lists in insertion
    order), strings, \<^verbatim>\<open>ipaddress\<close> and UTC timestamps the program uses, with the rewriting
    rules the other theories share.
  \<^item> \<^theory_text>\<open>Stores\<close>, \<^theory_text>\<open>History\<close>, \<^theory_text>\<open>ReadThrough\<close>: the interfaces, as
    locales: keyed stores (an upsert store; a store with the create, update and delete contract of the
    admin pages), history tables pruned by a cutoff, and read-through caches. Their providers interpret
    them on the model of the code: \<^theory_text>\<open>Auth\<close> (\<^verbatim>\<open>app/auth.py\<close>),
    \<^theory_text>\<open>AccessGroups\<close> (\<^verbatim>\<open>app/groups.py\<close>), \<^theory_text>\<open>FazTargets\<close>
    (\<^verbatim>\<open>app/faz_targets.py\<close>), \<^theory_text>\<open>AppSettings\<close>
    (\<^verbatim>\<open>app/app_settings.py\<close>, \<^verbatim>\<open>app/collector_store.py\<close>) and the pollers. \<^theory_text>\<open>ApiTokens\<close>
    (\<^verbatim>\<open>app/api_tokens.py\<close>) holds the bearer tokens.
  \<^item> \<^theory_text>\<open>AppLogger\<close> (\<^verbatim>\<open>app/app_logger.py\<close>): the ring buffer of log entries.
    \<^theory_text>\<open>Registry\<close> (\<^verbatim>\<open>app/registry.py\<close>): the tabs.
  \<^item> \<^theory_text>\<open>Sessions\<close> (\<^verbatim>\<open>app/decorators.py\<close>), \<^theory_text>\<open>Security\<close>
    (\<^verbatim>\<open>app/security.py\<close>, the request filter of \<^verbatim>\<open>app/__init__.py\<close>),
    \<^theory_text>\<open>RateLimiter\<close> and \<^theory_text>\<open>AuthRoutes\<close> (\<^verbatim>\<open>app/routes/auth_routes.py\<close>),
    \<^theory_text>\<open>SsoVerify\<close> (\<^verbatim>\<open>app/sso_verify.py\<close>): a Flask session is a record of the
    keys the program stores in it; a guard returns the answer that replaces the handler, or lets it run.
    \<^theory_text>\<open>SessionMachine\<close> makes one client's session a state machine whose steps are these handlers,
    guards and filters.
  \<^item> \<^theory_text>\<open>TsuiteAdapter\<close>, \<^theory_text>\<open>SuiteFetch\<close> (\<^verbatim>\<open>app/tsuite_adapter.py\<close>,
    \<^verbatim>\<open>app/routes/sync_routes.py\<close>): the plugin routes, the checker of SSO sessions with its
    four state variables, and the fetch of the revocation list.
  \<^item> \<^theory_text>\<open>FazClient\<close> (\<^verbatim>\<open>app/faz_client.py\<close>), \<^theory_text>\<open>LogSearchFilters\<close>
    (\<^verbatim>\<open>app/log_search_filters.py\<close>), \<^theory_text>\<open>LogSearch\<close>
    (\<^verbatim>\<open>app/routes/log_search_routes.py\<close>): calls to an appliance, the filter expression, the
    search.
  \<^item> \<^theory_text>\<open>Polling\<close>, \<^theory_text>\<open>FazHealth\<close> (\<^verbatim>\<open>app/faz_health_cache.py\<close>),
    \<^theory_text>\<open>LogStats\<close> (\<^verbatim>\<open>app/log_stats_*.py\<close>), \<^theory_text>\<open>ThreatStats\<close>,
    \<^theory_text>\<open>ThreatHistory\<close> (\<^verbatim>\<open>app/threat_stats_*.py\<close>), \<^theory_text>\<open>HostMetrics\<close>
    (\<^verbatim>\<open>app/host_metrics_*.py\<close>): one record per poller with its cache, snapshot table, history
    and log; \<open>poll_all_targets\<close> is the job.
  \<^item> \<^theory_text>\<open>Dashboard\<close>, \<^theory_text>\<open>AdminRoutes\<close>, \<^theory_text>\<open>LogUsage\<close> and
    \<^theory_text>\<open>ExternalApi\<close>: the remaining routes (\<^verbatim>\<open>app/routes/\<close>).
  \<^item> \<^theory_text>\<open>Startup\<close> (\<^verbatim>\<open>app/config.py\<close>, \<^verbatim>\<open>app/__init__.py\<close>,
    \<^verbatim>\<open>app/collector.py\<close>, the \<^verbatim>\<open>init_scheduler\<close> functions, \<^verbatim>\<open>wsgi.py\<close>) and
    \<^theory_text>\<open>CommandLine\<close> (\<^verbatim>\<open>manage_users.py\<close>, \<^verbatim>\<open>manage_api_tokens.py\<close>): how
    processes come up, and the tools.
  \<^item> \<^theory_text>\<open>WebApp\<close>: all calls of all blueprints behind the request filter, on one shared state,
    with the tools and the pollers between them: \<open>serve\<close> is one request, \<open>web_reachable\<close> a run of
    any number of clients, each of which may present any cookie it was ever given.
  \<^item> \<^theory_text>\<open>GroupThreads\<close> (\<^verbatim>\<open>app/groups.py\<close> under several worker threads): the
    requests that change groups, split into the sections the lock covers; \<open>run_threads\<close> runs them in the
    order of a schedule.
  \<^item> This theory: the life of an API token across the administrator's API and the external API.

  \<^bold>\<open>What the lemmas show.\<close>
  The whole application: no request changes the accounts, and the other files change only by an
  administrator's request with the session's CSRF token or by an authenticated group push. Access: what a
  session must be for a guard to let a request pass, that sessions stay well-formed under
  any requests, that administrator requests need an administrator, that a search needs the tab and the
  ADOM, and that the dashboard and the ADOM check agree. Login: at most so many wrong guesses in a
  window, also with requests interleaved; a fresh session after each login. Single sign-on: a token is
  verified by a key of the bundle; a logout at 4tSuite takes effect within the cache time; the bearer
  token is sent to one address. Files: every operation touches the key it names and keeps the file
  readable; a group push never widens access beyond the group. Threads: requests about different groups do not
  disturb each other in any interleaving and a deleted group stays deleted, while two changes of one
  group can lose the first. Appliances: filter expressions are
  well-formed, searches end and return the data of the finished task. Pollers: a failing appliance never
  stops or falsifies a poll; totals are those of the appliances that answered; history tables implement
  their interface, through schema migrations too; the summaries of the external API do not depend on
  which copy of the data they come from and disclose nothing else. Start-up: when the configuration
  loads, and that each poller runs once.

  \<^bold>\<open>Bounds and fuel.\<close>
  A polling loop of \<^theory_text>\<open>FazClient\<close> has a number of polls as fuel, and \<open>None\<close> stands for
  running out of it; when the clock advances by the poll interval between polls, a fuel whose polls
  cover the timeout is shown to suffice for searches and for threat polls, whatever the appliance
  answers. The reader of the revocation list ends within its body limit plus three reads. The opener
  follows at most ten redirects, as the library does. Timestamps are seconds up to the end of the year
  9999, where their texts still order as times do. All other recursions are structural or have a measure.
  Python's integers are \<^typ>\<open>int\<close> or \<^typ>\<open>nat\<close>; floats are exact rationals, with the
  non-finite JSON values a constructor of their own.

  \<^bold>\<open>Parameters.\<close>
  Third-party code is an argument wherever a definition uses it: bcrypt, PyJWT and the key loader,
  SHA-256, random identifiers, the HTTP libraries up to the decoded answer, PySNMP, psutil, time zones,
  clocks, the texts of exceptions. Hypotheses about them are documented behaviour (a read returns at most
  what was asked for) and each property that has a hypothesis has a computed instance.

  \<^bold>\<open>Not modelled.\<close>
  The web front end (\<^verbatim>\<open>app/static\<close>, \<^verbatim>\<open>app/templates\<close>): a page is its
  data or its status. Containers, the proxy and CI, the Ansible playbook and the vendor's API descriptions:
  configuration and third-party text. APScheduler, threads and locks: a scheduler is the list of its jobs
  and every locked operation one step; the interleaving of unlocked operations is modelled for the login
  limiter and for changes of groups only. SQLite: a table is a list or a dictionary of rows. Flask's cookie signing, URL routing and
  rendering. IEEE rounding of floats, except where the code rounds to tenths; characters beyond Latin-1;
  numbers or strings of a wrong JSON type in requests that the program's own pages send. The splitting of
  command-line words by argparse, TLS contexts, and the endless sleep of the collector.
\<close>

section \<open>Administration and the external API\<close>

text \<open>The administrator's requests that write the token file.\<close>

fun token_request :: "admin_request \<Rightarrow> bool" where
  "token_request (TokensCreate _) = True"
| "token_request (TokensRevoke _) = True"
| "token_request _ = False"

lemma handler_keeps_tokens:
  "\<not> token_request req \<Longrightarrow> aw_tokens (snd (admin_handler io known user req w)) = aw_tokens w"
  by (cases req)
    (simp_all add: admin_handler_defs targets_list_def targets_create_def targets_update_def targets_delete_def
       target_reply_def Let_def split: sum.split option.split prod.split py_error.split bool.split)

lemma api_keeps_tokens:
  "\<not> token_request req \<Longrightarrow> aw_tokens (snd (snd (admin_api io e path req s w))) = aw_tokens w"
  by (cases rule: admin_api_cases [of e w path s io req]) (simp_all add: handler_keeps_tokens)

lemma run_keeps_tokens:
  "list_all (\<lambda>(_, _, _, req, _). \<not> token_request req) visits \<Longrightarrow>
     aw_tokens (snd (run_admin visits w)) = aw_tokens w"
proof (induction visits arbitrary: w)
  case (Cons v visits)
  obtain io e path req s where v: "v = (io, e, path, req, s)" by (cases v)
  obtain r s' w' where a: "admin_api io e path req s w = (r, s', w')" by (metis surj_pair)
  with Cons.prems api_keeps_tokens [of req io e path s w] have "aw_tokens w' = aw_tokens w" by (simp add: v)
  with Cons show ?case by (simp add: v a split_beta)
qed simp

lemma token_created:
  assumes "admin_api io e path (TokensCreate n) s w = (Inr (ApiOk (NewToken info raw status)), s1, w1)"
  obtains nm where "create_token (ai_sha io) (ai_hex io) (ai_uuid io) nm (aw_tokens w) = ((raw, info), aw_tokens w1)"
proof (cases rule: admin_api_cases [of e w path s io "TokensCreate n"])
  case (passed s')
  with assms have "tokens_create io (or_default [] (s_user s')) n w = (Inr (ApiOk (NewToken info raw status)), w1)"
    by (metis admin_handler.simps(19) fst_conv prod.collapse snd_conv)
  with that show thesis
    by (auto simp: tokens_create_def Let_def refused_def admin_log_def split: if_splits prod.splits)
qed (use assms in simp_all)

lemma token_revoked:
  assumes "admin_api io e path (TokensRevoke i) s w = (Inr (ApiOk x), s1, w1)"
  shows "revoke_token i (aw_tokens w) = (True, aw_tokens w1)"
proof (cases rule: admin_api_cases [of e w path s io "TokensRevoke i"])
  case (passed s')
  with assms have "tokens_revoke io (or_default [] (s_user s')) i w = (Inr (ApiOk x), w1)"
    by (metis admin_handler.simps(20) fst_conv prod.collapse snd_conv)
  then show ?thesis
    by (auto simp: tokens_revoke_def refused_def admin_log_def split: prod.splits bool.splits)
qed (use assms in simp_all)

lemma bearer_authenticate:
  assumes "list_all ascii_alnum hex"
  shows "api_authenticate sha (''Bearer '' @ TOKEN_PREFIX @ hex) f = validate_token sha (TOKEN_PREFIX @ hex) f"
proof -
  have "strip (TOKEN_PREFIX @ hex) = TOKEN_PREFIX @ hex"
    using assms
    by (intro strip_no_space)
      (auto simp: TOKEN_PREFIX_def list_all_iff ascii_alnum_def ascii_digit_def ascii_upper_def ascii_lower_def is_space_def)
  moreover have "lower (''Bearer '' @ x) = ''bearer '' @ lower x" for x
  proof -
    have "lower ''Bearer '' = ''bearer ''" by code_simp
    then show ?thesis by (simp only: lower_def map_append)
  qed
  moreover have "startswith ''bearer '' (''bearer '' @ x)" for x by (simp add: startswith_def)
  moreover have "drop 7 (''Bearer '' @ x) = x" for x by simp
  ultimately show ?thesis by (simp only: api_authenticate_def if_True)
qed

lemma gated_summary:
  "fst (api_executive_summary sha cfg rq (x\<lparr>ex_settings := sf, ex_tokens := tf\<rparr>)) =
     (case gate sha sf tf (hr_auth rq) of
        GateOpen \<Rightarrow> (case fst (executive_summary cfg x) of Inl err \<Rightarrow> Inl (PyErr err) | Inr su \<Rightarrow> Inr (Answer su))
      | g \<Rightarrow> Inr (Refused g))"
proof -
  have "fst (executive_summary cfg (x\<lparr>ex_settings := sf, ex_tokens := tf\<rparr>)) = fst (executive_summary cfg x)"
    by (simp add: executive_summary_def split: prod.split sum.split)
  then show ?thesis
    by (auto simp: api_executive_summary_def gated_def split: gate_response.split prod.split sum.split)
qed


text \<open>A token is created, the feature switched on by another administrator, the token revoked.\<close>

definition lifecycle_io :: admin_io where
  "lifecycle_io =
     \<lparr>ai_stamp = ''t'', ai_exc_text = (\<lambda>_. ''error''), ai_sha = rev, ai_hex = ''ab'', ai_uuid = ''u1'',
      ai_seconds = 0, ai_registry = []\<rparr>"

definition lifecycle_visits :: "admin_visit list" where
  "lifecycle_visits =
     [(lifecycle_io, admin_env, ''/admin/api/settings'', SettingsUpdate (Some (JBool True)), admin_session)]"

definition lifecycle_created :: admin_world where
  "lifecycle_created =
     snd (snd (admin_api lifecycle_io admin_env ''/admin/api/tokens'' (TokensCreate (Some ''exec'')) admin_session
                 (world_with_token [])))"


end
